(* ===== verification/Canary_Prelude.thy ===== *)
theory Canary_Prelude
  imports Complex_Main "HOL-Library.Word" "HOL-Library.Signed_Division" "HOL-Library.Multiset"
begin

text \<open>
  Shared vocabulary of the development: Go's integer types and their wrap-around, the
  run-time panics of Go as values, checked slice indexing, and the generic list lemmas that
  the components share.
\<close>

section \<open>Fact collections\<close>

named_theorems go_simps \<open>rewrite rules of the effect combinators and of checked operations\<close>

section \<open>Machine integers\<close>

text \<open>
  Package counters are \<open>uint64\<close> and are kept as 64-bit words. Durations and \<open>int\<close> values are
  signed 64-bit integers; they are kept as \<open>int\<close> and every operation whose result may leave
  the range passes through \<open>int64\<close>, the two's complement wrap-around.
\<close>

type_synonym u64 = "64 word"
type_synonym duration = int

definition int64 :: "int \<Rightarrow> int" where
  "int64 x = (x + 2 ^ 63) mod 2 ^ 64 - 2 ^ 63"

lemma int64_range: "- (2 ^ 63) \<le> int64 x" "int64 x < 2 ^ 63"
  by (simp_all add: int64_def)

lemma int64_id [simp]: "- (2 ^ 63) \<le> x \<Longrightarrow> x < 2 ^ 63 \<Longrightarrow> int64 x = x"
  by (simp add: int64_def)

lemma int64_high_bit: "2 ^ 63 \<le> x \<Longrightarrow> x < 2 ^ 64 \<Longrightarrow> int64 x < 0"
proof -
  assume "2 ^ 63 \<le> x" "x < 2 ^ 64"
  then have "(x + 2 ^ 63 - 2 ^ 64) mod 2 ^ 64 = x + 2 ^ 63 - 2 ^ 64"
    by (intro mod_pos_pos_trivial) auto
  moreover have "(x + 2 ^ 63) mod 2 ^ 64 = (x + 2 ^ 63 - 2 ^ 64) mod 2 ^ 64"
    by (rule minus_mod_self2 [symmetric])
  ultimately have "(x + 2 ^ 63) mod 2 ^ 64 = x + 2 ^ 63 - 2 ^ 64"
    by (simp only:)
  with \<open>x < 2 ^ 64\<close> show ?thesis by (simp add: int64_def)
qed

lemma int64_idem [simp]: "int64 (int64 x) = int64 x"
  using int64_range [of x] by simp

lemma int64_add: "int64 (int64 a + b) = int64 (a + b)"
proof -
  have "int64 a + b + 2 ^ 63 = (a + 2 ^ 63) mod 2 ^ 64 + b" by (simp add: int64_def)
  then have "(int64 a + b + 2 ^ 63) mod 2 ^ 64 = (a + 2 ^ 63 + b) mod 2 ^ 64" by (simp only: mod_add_left_eq)
  then show ?thesis by (simp add: int64_def add_ac)
qed

abbreviation (input) Millisecond :: duration where "Millisecond \<equiv> 1000000"
abbreviation (input) Second :: duration where "Second \<equiv> 1000000000"
abbreviation (input) Minute :: duration where "Minute \<equiv> 60000000000"

lemma smod_pos [simp]: "0 \<le> a \<Longrightarrow> 0 < b \<Longrightarrow> a smod b = a mod (b::int)"
  by (cases "a = 0") (simp_all add: signed_modulo_int_def)

lemma sdiv_pos [simp]: "0 \<le> a \<Longrightarrow> 0 < b \<Longrightarrow> a sdiv b = a div (b::int)"
  by (cases "a = 0") (simp_all add: signed_divide_int_def)

lemma nat_int_pred [simp]: "nat (int c - 1) = c - Suc 0"
  by (cases c) simp_all

section \<open>Run-time panics\<close>

datatype gopanic =
    DivideByZero
  | IndexOutOfRange
  | MakeSliceLen
  | NilDereference
  | CloseOfNilChannel
  | CloseOfClosedChannel
  | NegativeWaitGroup
  | NonPositiveTicker
  | ExplicitPanic string

definition at_index :: "'a list \<Rightarrow> int \<Rightarrow> gopanic + 'a" where
  "at_index xs i = (if 0 \<le> i \<and> i < int (length xs) then Inr (xs ! nat i) else Inl IndexOutOfRange)"

lemma at_index_in [simp]: "0 \<le> i \<Longrightarrow> i < int (length xs) \<Longrightarrow> at_index xs i = Inr (xs ! nat i)"
  by (simp add: at_index_def)

lemma at_index_out [simp]: "i < 0 \<or> int (length xs) \<le> i \<Longrightarrow> at_index xs i = Inl IndexOutOfRange"
  by (auto simp: at_index_def)

lemma at_index_Inr_iff: "at_index xs i = Inr x \<longleftrightarrow> 0 \<le> i \<and> i < int (length xs) \<and> x = xs ! nat i"
  by (auto simp: at_index_def)

section \<open>Lists\<close>

text \<open>The last \<open>n\<close> elements of a list, and the one-element slide of a bounded window.\<close>

definition lastn :: "nat \<Rightarrow> 'a list \<Rightarrow> 'a list" where
  "lastn n xs = drop (length xs - n) xs"

lemma length_lastn [simp]: "length (lastn n xs) = min n (length xs)"
  by (auto simp: lastn_def)

lemma lastn_Nil [simp]: "lastn n [] = []"
  by (simp add: lastn_def)

lemma lastn_all [simp]: "length xs \<le> n \<Longrightarrow> lastn n xs = xs"
  by (simp add: lastn_def)

lemma last_lastn [simp]: "0 < n \<Longrightarrow> xs \<noteq> [] \<Longrightarrow> last (lastn n xs) = last xs"
  by (simp add: lastn_def)

lemma lastn_eq_Nil [simp]: "lastn n xs = [] \<longleftrightarrow> n = 0 \<or> xs = []"
  by (cases xs) (auto simp: lastn_def)

lemma lastn_append: "lastn n (lastn n xs @ ys) = lastn n (xs @ ys)"
  by (cases "length xs \<le> n") (auto simp: lastn_def min_def add.commute)

lemma hd_lastn:
  assumes "0 < n" "xs \<noteq> []"
  shows "hd (lastn n xs) = xs ! (length xs - min n (length xs))"
proof -
  have "length xs - n < length xs" using assms by simp
  then have "hd (lastn n xs) = xs ! (length xs - n)"
    by (simp add: lastn_def hd_drop_conv_nth)
  also have "length xs - n = length xs - min n (length xs)" by simp
  finally show ?thesis .
qed

lemma mod_add_cancel_nat:
  assumes "(p + i) mod n = (p + j) mod (n::nat)"
  shows "i mod n = j mod n"
proof (cases "n = 0")
  case True
  with assms show ?thesis by simp
next
  case False
  then have shift: "p + k + (n * p - p) = k + n * p" for k
    by (cases n) simp_all
  have "(p + i + (n * p - p)) mod n = (p + j + (n * p - p)) mod n"
    using assms by (metis mod_add_left_eq)
  then show ?thesis by (simp add: shift)
qed

lemma distinct_map_nth_mod:
  assumes "distinct xs" "r \<le> length xs" "0 < length xs"
  shows "distinct (map (\<lambda>i. xs ! ((p + i) mod length xs)) [0..<r])"
proof -
  have "inj_on (\<lambda>i. (p + i) mod length xs) {0..<r}"
  proof (rule inj_onI)
    fix i j assume "i \<in> {0..<r}" "j \<in> {0..<r}"
      and eq: "(p + i) mod length xs = (p + j) mod length xs"
    then have "i < length xs" "j < length xs" using assms(2) by auto
    moreover have "i mod length xs = j mod length xs"
      by (rule mod_add_cancel_nat [OF eq])
    ultimately show "i = j" by simp
  qed
  then have "distinct (map (\<lambda>i. (p + i) mod length xs) [0..<r])"
    by (simp add: distinct_map)
  moreover have "inj_on ((!) xs) (set (map (\<lambda>i. (p + i) mod length xs) [0..<r]))"
    using assms by (auto intro!: inj_on_nth)
  ultimately have "distinct (map ((!) xs) (map (\<lambda>i. (p + i) mod length xs) [0..<r]))"
    by (simp only: distinct_map)
  then show ?thesis by (simp add: comp_def)
qed

section \<open>Fallible pure code\<close>

text \<open>Sequencing of computations that stop at the first error.\<close>

definition bindE :: "'e + 'a \<Rightarrow> ('a \<Rightarrow> 'e + 'b) \<Rightarrow> 'e + 'b" where
  "bindE r f = (case r of Inl e \<Rightarrow> Inl e | Inr a \<Rightarrow> f a)"

lemma bindE_simps [simp]: "bindE (Inl e) f = Inl e" "bindE (Inr a) f = f a"
  by (simp_all add: bindE_def)

lemma bindE_Inr_iff: "bindE r f = Inr b \<longleftrightarrow> (\<exists>a. r = Inr a \<and> f a = Inr b)"
  by (cases r) simp_all

lemma bindE_Inl_iff: "bindE r f = Inl e \<longleftrightarrow> r = Inl e \<or> (\<exists>a. r = Inr a \<and> f a = Inl e)"
  by (cases r) auto

text \<open>A loop over a list that stops at the first error.\<close>

fun mapE :: "('a \<Rightarrow> 'e + 'b) \<Rightarrow> 'a list \<Rightarrow> 'e + 'b list" where
  "mapE f [] = Inr []"
| "mapE f (x # xs) = bindE (f x) (\<lambda>y. bindE (mapE f xs) (\<lambda>ys. Inr (y # ys)))"

end
