(* ===== verification/Go_Runtime.thy ===== *)
theory Go_Runtime
  imports Canary_Prelude
begin

text \<open>
  The effects of Go code: sequential computations that thread a state, return a value, end the
  process (\<open>glog.Fatalf\<close>), panic, or never return. \<open>None\<close> is the computation that does not
  return, so that the unbounded loops of the program are \<^theory_text>\<open>partial_function (option)\<close> and a claim that a
  loop ends has to be proved. The theory also holds Go's error values with \<open>errors.Is\<close>, and a
  small calculus of specifications (\<open>gowp\<close>) with its rules.
\<close>

section \<open>Error values\<close>

text \<open>
  The errors the code distinguishes, by the package that defines them; \<open>KError\<close> is Sarama's
  protocol error code and \<open>Wrapped\<close> an error that wraps another one (\<open>Unwrap\<close>).
\<close>

datatype kerror = ErrNoError | ErrUnknownTopicOrPartition | OtherKError int

datatype goerror =
    EOF | ECONNRESET | EPIPE | ETIMEDOUT | ErrDeadlineExceeded | ErrNotExist
  | KErr kerror
  | ErrExpectedClusterSize
  | MaxAttemptsExceeded | BackoffDelayOverflow
  | ErrNoDataSamples
  | NewError string
  | Wrapped string goerror

text \<open>\<open>errors.Is\<close>: the target is the error itself or one that it wraps.\<close>

fun errors_Is :: "goerror \<Rightarrow> goerror \<Rightarrow> bool" where
  "errors_Is (Wrapped m e) target = (Wrapped m e = target \<or> errors_Is e target)"
| "errors_Is e target = (e = target)"

definition IsDisconnection :: "goerror option \<Rightarrow> bool" where
  "IsDisconnection err = (case err of None \<Rightarrow> False
     | Some e \<Rightarrow> errors_Is e EOF \<or> errors_Is e ECONNRESET \<or> errors_Is e EPIPE
         \<or> errors_Is e ETIMEDOUT \<or> errors_Is e ErrDeadlineExceeded)"

lemma errors_Is_refl [simp]: "errors_Is e e"
  by (cases e) simp_all

lemma IsDisconnection_None [simp]: "\<not> IsDisconnection None"
  by (simp add: IsDisconnection_def)

lemma IsDisconnection_Wrapped [simp]:
  "IsDisconnection (Some (Wrapped m e)) = IsDisconnection (Some e)"
  by (simp add: IsDisconnection_def)

section \<open>Computations\<close>

datatype crash = Fatal string | Panic gopanic

datatype ('a, 's) outcome = Returned 'a 's | Crashed crash 's

type_synonym ('s, 'a) go = "'s \<Rightarrow> ('a, 's) outcome option"

definition ret :: "'a \<Rightarrow> ('s, 'a) go" where
  "ret a s = Some (Returned a s)"

definition andthen :: "('s, 'a) go \<Rightarrow> ('a \<Rightarrow> ('s, 'b) go) \<Rightarrow> ('s, 'b) go" where
  "andthen m f s = (case m s of
       None \<Rightarrow> None
     | Some (Returned a s') \<Rightarrow> f a s'
     | Some (Crashed c s') \<Rightarrow> Some (Crashed c s'))"

definition crash :: "crash \<Rightarrow> ('s, 'a) go" where
  "crash c s = Some (Crashed c s)"

definition gets :: "('s \<Rightarrow> 'a) \<Rightarrow> ('s, 'a) go" where
  "gets f s = Some (Returned (f s) s)"

definition modify :: "('s \<Rightarrow> 's) \<Rightarrow> ('s, unit) go" where
  "modify f s = Some (Returned () (f s))"

definition checked :: "gopanic + 'a \<Rightarrow> ('s, 'a) go" where
  "checked r = (case r of Inl p \<Rightarrow> crash (Panic p) | Inr a \<Rightarrow> ret a)"

definition whenever :: "bool \<Rightarrow> ('s, unit) go \<Rightarrow> ('s, unit) go" where
  "whenever b m = (if b then m else ret ())"

fun for_each :: "('a \<Rightarrow> ('s, unit) go) \<Rightarrow> 'a list \<Rightarrow> ('s, unit) go" where
  "for_each f [] = ret ()"
| "for_each f (x # xs) = andthen (f x) (\<lambda>_. for_each f xs)"

lemma andthen_simps [simp]:
  "andthen (ret a) f = f a"
  "andthen (crash c) g = crash c"
  "andthen m ret = m"
  "andthen (andthen m f) h = andthen m (\<lambda>a. andthen (f a) h)"
  by (auto simp: andthen_def ret_def crash_def fun_eq_iff split: option.splits outcome.splits)

lemma andthen_eqs:
  "m s = None \<Longrightarrow> andthen m f s = None"
  "m s = Some (Returned a s') \<Longrightarrow> andthen m f s = f a s'"
  "m s = Some (Crashed c s') \<Longrightarrow> andthen m f s = Some (Crashed c s')"
  by (simp_all add: andthen_def)

lemma andthen_gets [simp]: "andthen (gets g) f s = f (g s) s"
  by (simp add: andthen_def gets_def)

lemma andthen_modify [simp]: "andthen (modify g) f s = f () (g s)"
  by (simp add: andthen_def modify_def)

lemma checked_simps [simp]: "checked (Inl p) = crash (Panic p)" "checked (Inr a) = ret a"
  by (simp_all add: checked_def)

lemma whenever_simps [simp]: "whenever True m = m" "whenever False m = ret ()"
  by (simp_all add: whenever_def)

lemma andthen_mono [partial_function_mono]:
  fixes m :: "('x \<Rightarrow> 'y option) \<Rightarrow> ('s, 'a) go"
    and g :: "('x \<Rightarrow> 'y option) \<Rightarrow> 'a \<Rightarrow> ('s, 'b) go"
  assumes "mono_option (\<lambda>f. m f s)" and "\<And>a s'. mono_option (\<lambda>f. g f a s')"
  shows "mono_option (\<lambda>f. andthen (m f) (g f) s)"
proof (rule monotoneI)
  fix x y :: "'x \<Rightarrow> 'y option" assume le: "fun_ord option_ord x y"
  from assms(1) le have m: "option_ord (m x s) (m y s)"
    by (rule monotoneD [of _ _ _ x y])
  have g: "option_ord (g x a s') (g y a s')" for a s'
    using assms(2) le by (rule monotoneD [of _ _ _ x y])
  show "option_ord (andthen (m x) (g x) s) (andthen (m y) (g y) s)"
  proof (cases "m x s = None")
    case True
    then show ?thesis by (simp add: andthen_def flat_ord_def)
  next
    case False
    with m have "m y s = m x s" by (auto simp: flat_ord_def)
    with False g show ?thesis
      by (auto simp: andthen_def flat_ord_def split: option.splits outcome.splits)
  qed
qed

lemma case_sum_go_mono [partial_function_mono]:
  assumes "\<And>x. r = Inl x \<Longrightarrow> mono_option (\<lambda>f. F f x s)" "\<And>x. r = Inr x \<Longrightarrow> mono_option (\<lambda>f. G f x s)"
  shows "mono_option (\<lambda>f. (case r of Inl x \<Rightarrow> F f x | Inr x \<Rightarrow> G f x) s)"
  using assms by (cases r) simp_all

lemma if_go_mono [partial_function_mono]:
  assumes "b \<Longrightarrow> mono_option (\<lambda>f. F f s)" "\<not> b \<Longrightarrow> mono_option (\<lambda>f. G f s)"
  shows "mono_option (\<lambda>f. (if b then F f else G f) s)"
  using assms by (cases b) simp_all

section \<open>Specifications\<close>

text \<open>
  \<open>gowp d m Q E s\<close>: run from \<open>s\<close>, a normal return satisfies \<open>Q\<close> and a crash satisfies \<open>E\<close>;
  \<open>d\<close> says whether the computation may also never return. With \<open>d = False\<close> it claims total
  correctness.
\<close>

definition gowp :: "bool \<Rightarrow> ('s, 'a) go \<Rightarrow> ('a \<Rightarrow> 's \<Rightarrow> bool) \<Rightarrow> (crash \<Rightarrow> 's \<Rightarrow> bool) \<Rightarrow> 's \<Rightarrow> bool"
  where "gowp d m Q E s = (case m s of
       None \<Rightarrow> d
     | Some (Returned a s') \<Rightarrow> Q a s'
     | Some (Crashed c s') \<Rightarrow> E c s')"

lemma gowp_ret [go_simps]: "gowp d (ret a) Q E s = Q a s"
  by (simp add: gowp_def ret_def)

lemma gowp_crash [go_simps]: "gowp d (crash c) Q E s = E c s"
  by (simp add: gowp_def crash_def)

lemma gowp_gets [go_simps]: "gowp d (gets f) Q E s = Q (f s) s"
  by (simp add: gowp_def gets_def)

lemma gowp_modify [go_simps]: "gowp d (modify f) Q E s = Q () (f s)"
  by (simp add: gowp_def modify_def)

lemma gowp_andthen [go_simps]:
  "gowp d (andthen m f) Q E s = gowp d m (\<lambda>a. gowp d (f a) Q E) E s"
  by (simp add: gowp_def andthen_def split: option.splits outcome.splits)

lemma gowp_checked [go_simps]:
  "gowp d (checked r) Q E s = (case r of Inl p \<Rightarrow> E (Panic p) s | Inr a \<Rightarrow> Q a s)"
  by (simp add: go_simps split: sum.splits)

lemma gowp_whenever [go_simps]:
  "gowp d (whenever b m) Q E s = (if b then gowp d m Q E s else Q () s)"
  by (simp add: go_simps)

lemma gowp_if [go_simps]:
  "gowp d (if b then m else n) Q E s = (if b then gowp d m Q E s else gowp d n Q E s)"
  by simp

lemma gowp_mono:
  assumes "gowp d m Q E s" and "\<And>a s'. Q a s' \<Longrightarrow> Q' a s'" and "\<And>c s'. E c s' \<Longrightarrow> E' c s'"
  shows "gowp d m Q' E' s"
  using assms by (simp add: gowp_def split: option.splits outcome.splits)

lemma gowp_conj:
  assumes "gowp d m Q E s" and "gowp d m Q' E' s"
  shows "gowp d m (\<lambda>a s. Q a s \<and> Q' a s) (\<lambda>c s. E c s \<and> E' c s) s"
  using assms by (simp add: gowp_def split: option.splits outcome.splits)

lemma gowp_ReturnedD: "gowp d m Q E s \<Longrightarrow> m s = Some (Returned a s') \<Longrightarrow> Q a s'"
  by (simp add: gowp_def)

lemma gowp_CrashedD: "gowp d m Q E s \<Longrightarrow> m s = Some (Crashed c s') \<Longrightarrow> E c s'"
  by (simp add: gowp_def)

lemma gowp_total: "gowp False m Q E s \<Longrightarrow> \<exists>r. m s = Some r"
  by (simp add: gowp_def split: option.splits)

lemma gowp_returns:
  "gowp False m Q (\<lambda>_ _. False) s \<Longrightarrow> \<exists>a s'. m s = Some (Returned a s') \<and> Q a s'"
  by (auto simp: gowp_def split: option.splits outcome.splits)

lemma returns_gowp:
  "m s = Some (Returned a s') \<Longrightarrow> Q a s' \<Longrightarrow> gowp d m Q E s"
  by (simp add: gowp_def)

text \<open>The state a run ends in, and the way from a specification to a run.\<close>

fun final_state :: "('a, 's) outcome \<Rightarrow> 's" where
  "final_state (Returned a s) = s"
| "final_state (Crashed c s) = s"

lemma gowp_anyD:
  assumes "gowp d m (\<lambda>_. I) (\<lambda>_. I) s" and "m s = Some r"
  shows "I (final_state r)"
  using assms by (cases r) (simp_all add: gowp_def)

lemma gowp_crash_onlyD:
  assumes "gowp d m (\<lambda>_ _. True) (\<lambda>c _. C c) s" and "m s = Some (Crashed c s')"
  shows "C c"
  using assms by (simp add: gowp_def)

lemma gowp_for_each:
  assumes "I s"
    and "\<And>x s. x \<in> set xs \<Longrightarrow> I s \<Longrightarrow> gowp d (f x) (\<lambda>_. I) E s"
  shows "gowp d (for_each f xs) (\<lambda>_. I) E s"
  using assms
proof (induction xs arbitrary: s)
  case Nil
  then show ?case by (simp add: go_simps)
next
  case (Cons x xs)
  have "gowp d (f x) (\<lambda>_. I) E s" using Cons.prems by simp
  then have "gowp d (f x) (\<lambda>_. gowp d (for_each f xs) (\<lambda>_. I) E) E s"
  proof (rule gowp_mono)
    fix a s' assume "I s'"
    then show "gowp d (for_each f xs) (\<lambda>_. I) E s'"
      by (rule Cons.IH) (simp add: Cons.prems(2))
  qed
  then show ?case by (simp add: go_simps)
qed

section \<open>Relations between the states before and after a run\<close>

text \<open>
  \<open>safe d C R m s\<close>: the run of \<open>m\<close> from \<open>s\<close> relates \<open>s\<close> by \<open>R\<close> to the state it ends in, however it
  ends, and a crash satisfies \<open>C\<close>; \<open>d\<close> as in \<open>gowp\<close>. For a preorder \<open>R\<close> the property composes along
  the structure of the code.
\<close>

definition safe :: "bool \<Rightarrow> (crash \<Rightarrow> bool) \<Rightarrow> ('s \<Rightarrow> 's \<Rightarrow> bool) \<Rightarrow> ('s, 'a) go \<Rightarrow> 's \<Rightarrow> bool" where
  "safe d C R m s = gowp d m (\<lambda>_. R s) (\<lambda>c s'. C c \<and> R s s') s"

lemma safe_cases:
  "(\<And>x. r = Some x \<Longrightarrow> safe d C R (f x) s) \<Longrightarrow> (r = None \<Longrightarrow> safe d C R g s) \<Longrightarrow>
     safe d C R (case r of None \<Rightarrow> g | Some x \<Rightarrow> f x) s"
  "(\<And>x. v = Inl x \<Longrightarrow> safe d C R (p x) s) \<Longrightarrow> (\<And>x. v = Inr x \<Longrightarrow> safe d C R (q x) s) \<Longrightarrow>
     safe d C R (case v of Inl x \<Rightarrow> p x | Inr x \<Rightarrow> q x) s"
  "(\<And>x y. w = (x, y) \<Longrightarrow> safe d C R (h x y) s) \<Longrightarrow> safe d C R (case w of (x, y) \<Rightarrow> h x y) s"
  "(b \<Longrightarrow> safe d C R k s) \<Longrightarrow> (\<not> b \<Longrightarrow> safe d C R l s) \<Longrightarrow> safe d C R (if b then k else l) s"
  by (auto split: option.splits sum.splits prod.splits)

lemma gowp_safeI:
  assumes "safe d C R m s" and "\<And>a s'. m s = Some (Returned a s') \<Longrightarrow> R s s' \<Longrightarrow> Q a s'"
    and "\<And>c s'. C c \<Longrightarrow> R s s' \<Longrightarrow> E c s'"
  shows "gowp d m Q E s"
  using assms by (auto simp: safe_def gowp_def split: option.splits outcome.splits)

lemma gowp_outcome:
  "gowp False m Q E s \<Longrightarrow>
     (\<exists>a s'. m s = Some (Returned a s') \<and> Q a s') \<or> (\<exists>c s'. m s = Some (Crashed c s') \<and> E c s')"
  by (auto simp: gowp_def split: option.splits outcome.splits)

lemma gowp_weaken: "gowp False m Q E s \<Longrightarrow> gowp d m Q E s"
  by (auto simp: gowp_def split: option.splits)

lemma safe_returnedD: "safe d C R m s \<Longrightarrow> m s = Some (Returned a s') \<Longrightarrow> R s s'"
  by (simp add: safe_def gowp_def)

lemma safe_finalD: "safe d C R m s \<Longrightarrow> m s = Some r \<Longrightarrow> R s (final_state r)"
  by (cases r) (simp_all add: safe_def gowp_def)

lemma safe_crashedD: "safe d C R m s \<Longrightarrow> m s = Some (Crashed c s') \<Longrightarrow> C c"
  by (simp add: safe_def gowp_def)

lemma safe_total: "safe False C R m s \<Longrightarrow> \<exists>r. m s = Some r"
  by (auto simp: safe_def intro: gowp_total)

lemma safe_runs: "safe False C R m s \<Longrightarrow> \<exists>r. m s = Some r \<and> R s (final_state r)"
  by (frule safe_total) (auto dest: safe_finalD)

lemma safe_ends: "safe False C R m s \<Longrightarrow> \<exists>r. m s = Some r \<and> (\<forall>c s'. r = Crashed c s' \<longrightarrow> C c)"
  by (frule safe_total) (auto dest: safe_crashedD)

lemma gowp_also:
  "gowp d m Q E s \<Longrightarrow> safe True (\<lambda>_. True) R m s \<Longrightarrow>
     gowp d m (\<lambda>a s'. Q a s' \<and> R s s') (\<lambda>c s'. E c s' \<and> R s s') s"
  by (auto simp: safe_def gowp_def split: option.splits outcome.splits)

text \<open>The way a run that has returned went: its intermediate results and states.\<close>

lemma returned_iffs:
  "andthen m f s = Some (Returned b t) \<longleftrightarrow> (\<exists>a s'. m s = Some (Returned a s') \<and> f a s' = Some (Returned b t))"
  "ret a s = Some (Returned b t) \<longleftrightarrow> a = b \<and> s = t"
  "crash c s = Some (Returned b t) \<longleftrightarrow> False"
  "gets g s = Some (Returned b t) \<longleftrightarrow> g s = b \<and> s = t"
  "checked v s = Some (Returned b t) \<longleftrightarrow> v = Inr b \<and> s = t"
  "whenever w n s = Some (Returned u t) \<longleftrightarrow> w \<and> n s = Some (Returned u t) \<or> \<not> w \<and> s = t"
  by (auto simp: andthen_def ret_def crash_def gets_def checked_def whenever_def
      split: option.splits outcome.splits sum.splits)

lemma returned_case_iffs:
  "(case r of None \<Rightarrow> g | Some x \<Rightarrow> f x) s = Some (Returned b t) \<longleftrightarrow>
     r = None \<and> g s = Some (Returned b t) \<or> (\<exists>x. r = Some x \<and> f x s = Some (Returned b t))"
  "(case v of Inl x \<Rightarrow> p x | Inr y \<Rightarrow> q y) s = Some (Returned b t) \<longleftrightarrow>
     (\<exists>x. v = Inl x \<and> p x s = Some (Returned b t)) \<or> (\<exists>y. v = Inr y \<and> q y s = Some (Returned b t))"
  "(case w of (x, y) \<Rightarrow> h x y) s = Some (Returned b t) \<longleftrightarrow>
     (\<exists>x y. w = (x, y) \<and> h x y s = Some (Returned b t))"
  "(if c then k else l) s = Some (Returned b t) \<longleftrightarrow>
     c \<and> k s = Some (Returned b t) \<or> \<not> c \<and> l s = Some (Returned b t)"
  by (auto split: option.splits sum.splits prod.splits)

locale step_preorder =
  fixes R :: "'s \<Rightarrow> 's \<Rightarrow> bool"
  assumes refl: "R s s"
    and trans: "R s s' \<Longrightarrow> R s' s'' \<Longrightarrow> R s s''"
begin

lemma safe_ret: "safe d C R (ret a) s"
  by (simp add: safe_def go_simps refl)

lemma safe_crash: "C c \<Longrightarrow> safe d C R (crash c) s"
  by (simp add: safe_def go_simps refl)

lemma safe_gets: "safe d C R (gets f) s"
  by (simp add: safe_def go_simps refl)

lemma safe_checked: "(\<And>p. r = Inl p \<Longrightarrow> C (Panic p)) \<Longrightarrow> safe d C R (checked r) s"
  by (simp add: safe_def go_simps refl split: sum.splits)

lemma safe_modify: "R s (f s) \<Longrightarrow> safe d C R (modify f) s"
  by (simp add: safe_def go_simps)

lemma safe_andthen:
  assumes "safe d C R m s" and "\<And>a s'. m s = Some (Returned a s') \<Longrightarrow> R s s' \<Longrightarrow> safe d C R (f a) s'"
  shows "safe d C R (andthen m f) s"
proof (cases "m s")
  case None
  with assms show ?thesis by (simp add: safe_def gowp_def andthen_def)
next
  case (Some r)
  show ?thesis
  proof (cases r)
    case (Returned a s')
    with assms Some have "R s s'" "safe d C R (f a) s'" by (auto simp: safe_def gowp_def)
    then have "gowp d (f a) (\<lambda>_. R s) (\<lambda>c s'. C c \<and> R s s') s'"
      unfolding safe_def by (auto elim: gowp_mono intro: trans)
    with Some Returned show ?thesis by (simp add: safe_def gowp_def andthen_def)
  next
    case (Crashed c s')
    with assms Some show ?thesis by (simp add: safe_def gowp_def andthen_def)
  qed
qed

lemma safe_whenever: "(b \<Longrightarrow> safe d C R m s) \<Longrightarrow> safe d C R (whenever b m) s"
  by (cases b) (simp_all add: safe_ret)

lemma safe_for_each:
  "(\<And>x s'. x \<in> set xs \<Longrightarrow> R s s' \<Longrightarrow> safe d C R (f x) s') \<Longrightarrow> safe d C R (for_each f xs) s"
proof (induction xs arbitrary: s)
  case (Cons x xs)
  show ?case
    using Cons.prems refl trans by (auto intro!: safe_andthen Cons.IH)
qed (simp add: safe_ret)

lemmas safe_steps = safe_ret safe_crash safe_gets safe_checked safe_andthen safe_whenever safe_cases

end

interpretation anywhere: step_preorder "\<lambda>_ _. True"
  by unfold_locales simp_all

section \<open>Receivers\<close>

text \<open>
  A method runs on its receiver (\<open>self\<close>) and on the state of everything outside it (\<open>world\<close>).
  \<open>on_field\<close> runs a method of a component held in a field of another component's receiver.
\<close>

record ('c, 'w) ctx =
  self :: 'c
  world :: 'w

definition on_field ::
  "('c \<Rightarrow> 'd) \<Rightarrow> (('d \<Rightarrow> 'd) \<Rightarrow> 'c \<Rightarrow> 'c) \<Rightarrow> (('d, 'w) ctx, 'a) go \<Rightarrow> (('c, 'w) ctx, 'a) go" where
  "on_field get upd m s =
     map_option (map_outcome id (\<lambda>i. \<lparr>self = upd (\<lambda>_. self i) (self s), world = world i\<rparr>))
       (m \<lparr>self = get (self s), world = world s\<rparr>)"

lemma gowp_on_field [go_simps]:
  "gowp d (on_field get upd m) Q E s =
     gowp d m (\<lambda>a i. Q a \<lparr>self = upd (\<lambda>_. self i) (self s), world = world i\<rparr>)
              (\<lambda>c i. E c \<lparr>self = upd (\<lambda>_. self i) (self s), world = world i\<rparr>)
              \<lparr>self = get (self s), world = world s\<rparr>"
  by (simp add: gowp_def on_field_def split: option.splits outcome.splits)

lemma map_outcome_Returned: "map_outcome id f r = Returned a s' \<longleftrightarrow> (\<exists>i. r = Returned a i \<and> s' = f i)"
  by (cases r) auto

lemma on_field_returned:
  "on_field get upd m s = Some (Returned a s') \<longleftrightarrow>
     (\<exists>i. m \<lparr>self = get (self s), world = world s\<rparr> = Some (Returned a i)
        \<and> s' = \<lparr>self = upd (\<lambda>_. self i) (self s), world = world i\<rparr>)"
  by (auto simp: on_field_def map_outcome_Returned)

lemma safe_on_field:
  assumes "safe d C Q m \<lparr>self = get (self s), world = world s\<rparr>"
    and "\<And>i. Q \<lparr>self = get (self s), world = world s\<rparr> i \<Longrightarrow>
           R s \<lparr>self = upd (\<lambda>_. self i) (self s), world = world i\<rparr>"
  shows "safe d C R (on_field get upd m) s"
  using assms by (auto simp: safe_def go_simps elim!: gowp_mono)

lemma on_field_Returned:
  "m \<lparr>self = get (self s), world = world s\<rparr> = Some (Returned a i) \<Longrightarrow>
   on_field get upd m s = Some (Returned a \<lparr>self = upd (\<lambda>_. self i) (self s), world = world i\<rparr>)"
  by (simp add: on_field_def)

end
