(* ===== verification/Sarama_Api.thy ===== *)
theory Sarama_Api
  imports Go_Runtime
begin

text \<open>
  What the canary uses of the code outside the repository: the data it exchanges with the Sarama
  Kafka client, the operations it calls on it, the clock, and the Prometheus metrics registry.
  The operations are a record of functions over an environment \<open>'e\<close> of which nothing is known;
  every definition of the services takes that record as an argument. \<open>calls\<close> is a history
  variable: the external operations invoked so far, with their arguments.
\<close>

section \<open>Data exchanged with the Kafka client\<close>

type_synonym handle = nat

record broker =
  ID :: int
  Rack :: string

record partition_metadata =
  pm_ID :: int
  pm_Leader :: int
  pm_Replicas :: "int list"

record topic_metadata =
  tm_Err :: kerror
  tm_Name :: string
  tm_Partitions :: "partition_metadata list"

record topic_detail =
  td_NumPartitions :: int
  td_ReplicationFactor :: int
  td_ReplicaAssignment :: "(int \<times> int list) list"
  td_ConfigEntries :: "(string \<times> string) list"

record reassignment_status =
  AddingReplicas :: "int list"
  RemovingReplicas :: "int list"

record producer_message =
  msg_Topic :: string
  msg_Partition :: int
  msg_Value :: string

record consumer_message =
  cmsg_Partition :: int
  cmsg_Offset :: int
  cmsg_Value :: string

datatype scram_hash = SHA256 | SHA512

record sasl_config =
  sasl_Enable :: bool
  sasl_Version :: nat
  sasl_Mechanism :: string
  sasl_User :: string
  sasl_Password :: string
  sasl_SCRAM :: "scram_hash option"

datatype cert_pool = CertPool bool "string list" \<comment> \<open>built on the system pool?, PEM blocks added\<close>

record tls_config =
  tls_RootCAs :: "cert_pool option"
  tls_Certificates :: "(string \<times> string) list"
  tls_InsecureSkipVerify :: bool

record sarama_config =
  sc_Version :: string
  sc_ClientID :: string
  sc_ManualPartitioner :: bool
  sc_ReturnSuccesses :: bool
  sc_WaitForAll :: bool
  sc_RetryMax :: int
  sc_ConsumerReturnErrors :: bool
  sc_TLSEnable :: bool
  sc_TLSConfig :: "tls_config option"
  sc_SASL :: sasl_config

section \<open>External operations and their history\<close>

datatype call =
    NewClusterAdmin "string list"
  | DescribeCluster handle
  | DescribeTopics handle "string list"
  | CreateTopic handle string topic_detail
  | CreatePartitions handle string int "int list list"
  | AlterConfig handle string "(string \<times> string) list"
  | AlterPartitionReassignments handle string "int list list"
  | ListPartitionReassignments handle string "int list"
  | AdminClose handle
  | NewClient "string list"
  | ClientClose handle
  | RefreshMetadata handle string
  | GetPartitions handle string
  | GetLeader handle string int
  | NewSyncProducer handle
  | SendMessage handle producer_message
  | ProducerClose handle
  | NewConsumerGroup string handle
  | GroupConsume handle string
  | WaitReady duration
  | CancelContext nat
  | ContextErr nat
  | MarkMessage consumer_message
  | ConsumerGroupClose handle
  | BrokerOpen int
  | BrokerConnected int
  | BrokerClose int
  | Sleep duration

record 'e externals =
  x_MustRegister :: "string \<Rightarrow> (string \<times> string) list option \<Rightarrow> string list \<Rightarrow> gopanic option"
  x_now :: "'e \<Rightarrow> int \<times> 'e" \<comment> \<open>\<open>time.Now().UnixNano()\<close>\<close>
  x_sleep :: "duration \<Rightarrow> 'e \<Rightarrow> unit \<times> 'e"
  x_NewClusterAdmin :: "string list \<Rightarrow> sarama_config \<Rightarrow> 'e \<Rightarrow> (goerror + handle) \<times> 'e"
  x_DescribeCluster :: "handle \<Rightarrow> 'e \<Rightarrow> (broker list \<times> goerror option) \<times> 'e"
  x_DescribeTopics :: "handle \<Rightarrow> string list \<Rightarrow> 'e \<Rightarrow> (goerror + topic_metadata list) \<times> 'e"
  x_CreateTopic :: "handle \<Rightarrow> string \<Rightarrow> topic_detail \<Rightarrow> 'e \<Rightarrow> goerror option \<times> 'e"
  x_CreatePartitions :: "handle \<Rightarrow> string \<Rightarrow> int \<Rightarrow> int list list \<Rightarrow> 'e \<Rightarrow> goerror option \<times> 'e"
  x_AlterConfig :: "handle \<Rightarrow> string \<Rightarrow> (string \<times> string) list \<Rightarrow> 'e \<Rightarrow> goerror option \<times> 'e"
  x_AlterPartitionReassignments :: "handle \<Rightarrow> string \<Rightarrow> int list list \<Rightarrow> 'e \<Rightarrow> goerror option \<times> 'e"
  x_ListPartitionReassignments ::
    "handle \<Rightarrow> string \<Rightarrow> int list \<Rightarrow> 'e \<Rightarrow> (goerror + (string \<rightharpoonup> (int \<times> reassignment_status) list)) \<times> 'e"
  x_AdminClose :: "handle \<Rightarrow> 'e \<Rightarrow> goerror option \<times> 'e"
  x_NewClient :: "string list \<Rightarrow> sarama_config \<Rightarrow> 'e \<Rightarrow> (goerror + handle) \<times> 'e"
  x_ClientClose :: "handle \<Rightarrow> 'e \<Rightarrow> goerror option \<times> 'e"
  x_RefreshMetadata :: "handle \<Rightarrow> string \<Rightarrow> 'e \<Rightarrow> goerror option \<times> 'e"
  x_Partitions :: "handle \<Rightarrow> string \<Rightarrow> 'e \<Rightarrow> (goerror + int list) \<times> 'e"
  x_Leader :: "handle \<Rightarrow> string \<Rightarrow> int \<Rightarrow> 'e \<Rightarrow> (goerror + broker) \<times> 'e"
  x_NewSyncProducer :: "handle \<Rightarrow> 'e \<Rightarrow> (goerror + handle) \<times> 'e"
  x_NewConsumerGroup :: "string \<Rightarrow> handle \<Rightarrow> 'e \<Rightarrow> (goerror + handle) \<times> 'e"
  x_GroupConsume :: "handle \<Rightarrow> string \<Rightarrow> 'e \<Rightarrow> (bool \<times> goerror option) \<times> 'e" \<comment> \<open>was \<open>Setup\<close> called? and the error\<close>
  x_ContextCancelled :: "nat \<Rightarrow> 'e \<Rightarrow> bool \<times> 'e"
  x_WaitReady :: "duration \<Rightarrow> 'e \<Rightarrow> bool \<times> 'e" \<comment> \<open>did the timeout come first?\<close>
  x_CancelContext :: "nat \<Rightarrow> 'e \<Rightarrow> unit \<times> 'e"
  x_SendMessage :: "handle \<Rightarrow> producer_message \<Rightarrow> 'e \<Rightarrow> (goerror + int \<times> int) \<times> 'e"
  x_ProducerClose :: "handle \<Rightarrow> 'e \<Rightarrow> goerror option \<times> 'e"
  x_MarkMessage :: "consumer_message \<Rightarrow> 'e \<Rightarrow> unit \<times> 'e"
  x_ConsumerGroupClose :: "handle \<Rightarrow> 'e \<Rightarrow> goerror option \<times> 'e"
  x_BrokerOpen :: "int \<Rightarrow> sarama_config \<Rightarrow> 'e \<Rightarrow> goerror option \<times> 'e"
  x_BrokerConnected :: "int \<Rightarrow> 'e \<Rightarrow> (bool \<times> goerror option) \<times> 'e"
  x_BrokerClose :: "int \<Rightarrow> 'e \<Rightarrow> goerror option \<times> 'e"

section \<open>The world of a process\<close>

text \<open>
  A metric series is the name of a vector and its label values. \<open>counter\<close> holds the value of every
  series that exists (\<open>With(labels).Add(0)\<close> creates one), \<open>histogram\<close> the values observed. The two
  package-level record counters of \<open>services\<close> are 64-bit words.
\<close>

type_synonym labels = "(string \<times> string) list"
type_synonym series = "string \<times> labels"

record 'e world =
  env :: 'e
  counter :: "series \<rightharpoonup> nat"
  histogram :: "series \<Rightarrow> int list"
  calls :: "call list"
  RecordsProducedCounter :: u64
  RecordsConsumedCounter :: u64

type_synonym ('c, 'e, 'a) routine = "(('c, 'e world) ctx, 'a) go"

definition extern :: "call \<Rightarrow> ('e \<Rightarrow> 'a \<times> 'e) \<Rightarrow> ('c, 'e, 'a) routine" where
  "extern c f s = (case f (env (world s)) of (r, e) \<Rightarrow>
     Some (Returned r (s\<lparr>world := (world s)\<lparr>env := e, calls := calls (world s) @ [c]\<rparr>\<rparr>)))"

text \<open>\<open>util.NowInMilliseconds\<close>, with the division of Go (towards zero).\<close>

definition NowInMilliseconds :: "'e externals \<Rightarrow> ('c, 'e, int) routine" where
  "NowInMilliseconds api s = (case x_now api (env (world s)) of (t, e) \<Rightarrow>
     Some (Returned (t sdiv 1000000) (s\<lparr>world := (world s)\<lparr>env := e\<rparr>\<rparr>)))"

definition count_up :: "nat \<Rightarrow> series \<Rightarrow> 'e world \<Rightarrow> 'e world" where
  "count_up k m w = w\<lparr>counter := (counter w)(m \<mapsto> (case counter w m of None \<Rightarrow> k | Some n \<Rightarrow> n + k))\<rparr>"

definition metric_inc :: "string \<Rightarrow> labels \<Rightarrow> ('c, 'e, unit) routine" where
  "metric_inc name lbls = modify (\<lambda>s. s\<lparr>world := count_up 1 (name, lbls) (world s)\<rparr>)"

definition metric_init :: "string \<Rightarrow> labels \<Rightarrow> ('c, 'e, unit) routine" where
  "metric_init name lbls = modify (\<lambda>s. s\<lparr>world := count_up 0 (name, lbls) (world s)\<rparr>)"

definition metric_observe :: "string \<Rightarrow> labels \<Rightarrow> int \<Rightarrow> ('c, 'e, unit) routine" where
  "metric_observe name lbls v = modify (\<lambda>s. s\<lparr>world := (world s)
     \<lparr>histogram := (histogram (world s))((name, lbls) := histogram (world s) (name, lbls) @ [v])\<rparr>\<rparr>)"

text \<open>
  \<open>promauto\<close> registers a metric of a name, constant labels and names of variable labels, and panics if Prometheus refuses
  them (a label name it does not allow, or one that occurs twice), which is up to the library. Every metric of
  the program is registered once. A histogram has its first series made by its first observation; that this panics when
  the buckets of the configuration do not increase is not part of \<open>metric_observe\<close> (see \<open>observable\<close>).
\<close>

definition register :: "'e externals \<Rightarrow> (string \<times> string) list option \<Rightarrow> string \<times> string list \<Rightarrow> ('c, 'e, unit) routine" where
  "register api consts metric = (case x_MustRegister api (fst metric) consts (snd metric) of
       None \<Rightarrow> ret ()
     | Some p \<Rightarrow> crash (Panic p))"

definition set_self :: "('c \<Rightarrow> 'c) \<Rightarrow> ('c, 'e, unit) routine" where
  "set_self f = modify (\<lambda>s. s\<lparr>self := f (self s)\<rparr>)"

definition get_self :: "('c \<Rightarrow> 'a) \<Rightarrow> ('c, 'e, 'a) routine" where
  "get_self f = gets (\<lambda>s. f (self s))"

text \<open>The value of a series, 0 when it does not exist, and the calls a run adds.\<close>

definition counted :: "'e world \<Rightarrow> string \<Rightarrow> labels \<Rightarrow> nat" where
  "counted w name lbls = (case counter w (name, lbls) of None \<Rightarrow> 0 | Some n \<Rightarrow> n)"

lemma counted_count_up [simp]:
  "counted (count_up k m w) name lbls = counted w name lbls + (if m = (name, lbls) then k else 0)"
  by (simp add: counted_def count_up_def split: option.splits)

lemma count_up_frame [simp]:
  "env (count_up k m w) = env w" "calls (count_up k m w) = calls w"
  "histogram (count_up k m w) = histogram w"
  "RecordsProducedCounter (count_up k m w) = RecordsProducedCounter w"
  "RecordsConsumedCounter (count_up k m w) = RecordsConsumedCounter w"
  by (simp_all add: count_up_def)

lemma counted_frame [simp]:
  "counted (w\<lparr>env := e\<rparr>) name lbls = counted w name lbls"
  "counted (w\<lparr>calls := c\<rparr>) name lbls = counted w name lbls"
  "counted (w\<lparr>histogram := h\<rparr>) name lbls = counted w name lbls"
  "counted (w\<lparr>RecordsProducedCounter := p\<rparr>) name lbls = counted w name lbls"
  "counted (w\<lparr>RecordsConsumedCounter := p\<rparr>) name lbls = counted w name lbls"
  by (simp_all add: counted_def)

lemma gowp_extern [go_simps]:
  "gowp d (extern c f) Q E s = (case f (env (world s)) of (r, e) \<Rightarrow>
     Q r (s\<lparr>world := (world s)\<lparr>env := e, calls := calls (world s) @ [c]\<rparr>\<rparr>))"
  by (simp add: gowp_def extern_def split: prod.splits)

lemma gowp_Now [go_simps]:
  "gowp d (NowInMilliseconds api) Q E s = (case x_now api (env (world s)) of (t, e) \<Rightarrow>
     Q (t sdiv 1000000) (s\<lparr>world := (world s)\<lparr>env := e\<rparr>\<rparr>))"
  by (simp add: gowp_def NowInMilliseconds_def split: prod.splits)

lemma gowp_metric_inc [go_simps]:
  "gowp d (metric_inc n l) Q E s = Q () (s\<lparr>world := count_up 1 (n, l) (world s)\<rparr>)"
  by (simp add: metric_inc_def go_simps)

lemma gowp_metric_init [go_simps]:
  "gowp d (metric_init n l) Q E s = Q () (s\<lparr>world := count_up 0 (n, l) (world s)\<rparr>)"
  by (simp add: metric_init_def go_simps)

lemma gowp_metric_observe [go_simps]:
  "gowp d (metric_observe n l v) Q E s = Q () (s\<lparr>world := (world s)
     \<lparr>histogram := (histogram (world s))((n, l) := histogram (world s) (n, l) @ [v])\<rparr>\<rparr>)"
  by (simp add: metric_observe_def go_simps)

definition refused :: "'e externals \<Rightarrow> (string \<times> string) list option \<Rightarrow> (string \<times> string list) list \<Rightarrow> gopanic \<Rightarrow> bool" where
  "refused api consts metrics p \<longleftrightarrow> (\<exists>(name, vars)\<in>set metrics. x_MustRegister api name consts vars = Some p)"

definition all_registered :: "'e externals \<Rightarrow> (string \<times> string) list option \<Rightarrow> (string \<times> string list) list \<Rightarrow> bool" where
  "all_registered api consts metrics \<longleftrightarrow> (\<forall>(name, vars)\<in>set metrics. x_MustRegister api name consts vars = None)"

lemma gowp_registers:
  "gowp False (for_each (register api consts) metrics) (\<lambda>_ s'. s' = s \<and> all_registered api consts metrics)
     (\<lambda>cr s'. s' = s \<and> (\<exists>p. cr = Panic p \<and> refused api consts metrics p)) s"
  by (induction metrics) (auto simp: go_simps register_def all_registered_def refused_def split: option.splits elim!: gowp_mono)

text \<open>The first refusal, as an equation.\<close>

fun refusal :: "'e externals \<Rightarrow> (string \<times> string) list option \<Rightarrow> (string \<times> string list) list \<Rightarrow> gopanic option" where
  "refusal api consts [] = None"
| "refusal api consts (m # ms) = (case x_MustRegister api (fst m) consts (snd m) of
       None \<Rightarrow> refusal api consts ms
     | Some p \<Rightarrow> Some p)"

lemma refusal_refused: "refusal api consts ms = Some p \<Longrightarrow> refused api consts ms p"
  by (induction ms) (auto simp: refused_def split: option.splits)

lemma gowp_register_all:
  "gowp d (for_each (register api consts) ms) Q E s = (case refusal api consts ms of None \<Rightarrow> Q () s | Some p \<Rightarrow> E (Panic p) s)"
  by (induction ms) (auto simp: go_simps register_def split: option.splits)

lemma refused_mono: "refused api consts ms p \<Longrightarrow> set ms \<subseteq> set ns \<Longrightarrow> refused api consts ns p"
  by (auto simp: refused_def)

lemma registers_returned:
  "for_each (register api consts) metrics s = Some (Returned u s') \<longleftrightarrow> all_registered api consts metrics \<and> s' = s"
  by (induction metrics)
    (auto simp: returned_iffs returned_case_iffs register_def all_registered_def split: option.splits)

lemma gowp_set_self [go_simps]:
  "gowp d (set_self f) Q E s = Q () (s\<lparr>self := f (self s)\<rparr>)"
  by (simp add: set_self_def go_simps)

lemma gowp_get_self [go_simps]: "gowp d (get_self f) Q E s = Q (f (self s)) s"
  by (simp add: get_self_def go_simps)


section \<open>Relations between states\<close>

lemma safe_extern:
  "(\<And>r e. f (env (world s)) = (r, e) \<Longrightarrow> R s (s\<lparr>world := (world s)\<lparr>env := e, calls := calls (world s) @ [c]\<rparr>\<rparr>))
     \<Longrightarrow> safe d C R (extern c f) s"
  by (simp add: safe_def go_simps split: prod.splits)

lemma safe_Now:
  "(\<And>e. R s (s\<lparr>world := (world s)\<lparr>env := e\<rparr>\<rparr>)) \<Longrightarrow> safe d C R (NowInMilliseconds api) s"
  by (simp add: safe_def go_simps split: prod.splits)

lemma safe_register: "R s s \<Longrightarrow> (\<And>p. C (Panic p)) \<Longrightarrow> safe d C R (register api consts m) s"
  by (simp add: safe_def register_def go_simps split: option.splits)

lemma safe_metric_inc: "R s (s\<lparr>world := count_up 1 (n, l) (world s)\<rparr>) \<Longrightarrow> safe d C R (metric_inc n l) s"
  by (simp add: safe_def go_simps)

lemma safe_metric_init: "R s (s\<lparr>world := count_up 0 (n, l) (world s)\<rparr>) \<Longrightarrow> safe d C R (metric_init n l) s"
  by (simp add: safe_def go_simps)

lemma safe_metric_observe:
  "R s (s\<lparr>world := (world s)\<lparr>histogram := (histogram (world s))((n, l) := histogram (world s) (n, l) @ [v])\<rparr>\<rparr>)
     \<Longrightarrow> safe d C R (metric_observe n l v) s"
  by (simp add: safe_def go_simps)

lemma safe_set_self: "R s (s\<lparr>self := f (self s)\<rparr>) \<Longrightarrow> safe d C R (set_self f) s"
  by (simp add: safe_def go_simps)

lemma safe_get_self: "R s s \<Longrightarrow> safe d C R (get_self f) s"
  by (simp add: safe_def go_simps)

lemmas safe_world = safe_extern safe_Now safe_metric_inc safe_metric_init safe_metric_observe safe_register
  safe_set_self safe_get_self

text \<open>What a step that has returned tells about its result.\<close>

lemma extern_returned:
  "extern c f s = Some (Returned a s') \<Longrightarrow>
     f (env (world s)) = (a, env (world s')) \<and> self s' = self s
     \<and> calls (world s') = calls (world s) @ [c]
     \<and> (\<forall>n l. counted (world s') n l = counted (world s) n l)"
  by (auto simp: extern_def counted_def split: prod.splits)

lemma metric_inc_returned:
  "metric_inc n l s = Some (Returned a s') \<longleftrightarrow> s' = s\<lparr>world := count_up 1 (n, l) (world s)\<rparr>"
  by (auto simp: metric_inc_def modify_def)

lemma metric_init_returned:
  "metric_init n l s = Some (Returned a s') \<longleftrightarrow> s' = s\<lparr>world := count_up 0 (n, l) (world s)\<rparr>"
  by (auto simp: metric_init_def modify_def)

lemma get_self_returned: "get_self f s = Some (Returned a s') \<longleftrightarrow> a = f (self s) \<and> s' = s"
  by (auto simp: get_self_def gets_def)

lemmas metric_returned = metric_inc_returned metric_init_returned

lemma set_self_returned: "set_self f s = Some (Returned a s') \<longleftrightarrow> s' = s\<lparr>self := f (self s)\<rparr>"
  by (auto simp: set_self_def modify_def)

text \<open>\<open>adds P s s'\<close>: the history of \<open>s'\<close> extends that of \<open>s\<close>, and every call added satisfies \<open>P\<close>.\<close>

definition adds :: "(call \<Rightarrow> bool) \<Rightarrow> ('c, 'e world) ctx \<Rightarrow> ('c, 'e world) ctx \<Rightarrow> bool" where
  "adds P s s' = (\<exists>cs. calls (world s') = calls (world s) @ cs \<and> (\<forall>c\<in>set cs. P c))"

lemma adds_refl [simp]: "adds P s s"
  by (simp add: adds_def)

lemma adds_trans: "adds P s s' \<Longrightarrow> adds P s' s'' \<Longrightarrow> adds P s s''"
  by (auto simp: adds_def)

interpretation adds: step_preorder "adds P" for P
  by unfold_locales (auto intro: adds_trans)

lemma adds_same: "calls (world s') = calls (world s) \<Longrightarrow> adds P s s'"
  by (simp add: adds_def)

lemma adds_one: "calls (world s') = calls (world s) @ cs \<Longrightarrow> \<forall>c\<in>set cs. P c \<Longrightarrow> adds P s s'"
  by (simp add: adds_def)

lemma adds_mono: "adds P s s' \<Longrightarrow> (\<And>c. P c \<Longrightarrow> Q c) \<Longrightarrow> adds Q s s'"
  by (fastforce simp: adds_def)

end
