(* ===== verification/Topic_Assignment.thy ===== *)
theory Topic_Assignment
  imports Sarama_Api
begin

text \<open>
  The replica assignment of the canary topic, \<open>requestedAssignments\<close> of
  \<open>internal/services/topic.go\<close>: the brokers are sorted by ID, reordered so that racks alternate
  when every broker has one, and partition \<open>p\<close> gets the brokers at positions \<open>p\<close>, \<open>p + 1\<close>, ...
  of that order. The rack loop is the code's: passes over the rack names, each pass moving the
  head of every non-empty rack list into the next slot of the broker slice, until a pass moves
  nothing. Its reference is the transposition of the rack lists.
\<close>

section \<open>Model\<close>

definition go_max :: "int \<Rightarrow> int \<Rightarrow> int" where
  "go_max x y = (if x < y then y else x)"

definition go_min :: "int \<Rightarrow> int \<Rightarrow> int" where
  "go_min x y = (if x > y then y else x)"

text \<open>
  Broker IDs in a Kafka cluster are unique, and for distinct keys the (unstable) sort of the Go
  library has one possible result.
\<close>

definition sort_brokers :: "broker list \<Rightarrow> broker list" where
  "sort_brokers brokers = sort_key ID brokers"

text \<open>The rack map, the rack names in the order of their first appearance, and the counter.\<close>

definition rack_list :: "(string \<rightharpoonup> broker list) \<Rightarrow> string \<Rightarrow> broker list" where
  "rack_list m n = (case m n of None \<Rightarrow> [] | Some bs \<Rightarrow> bs)"

fun scan_racks :: "broker list \<Rightarrow> (string \<rightharpoonup> broker list) \<times> string list \<times> nat
    \<Rightarrow> (string \<rightharpoonup> broker list) \<times> string list \<times> nat" where
  "scan_racks [] acc = acc"
| "scan_racks (b # bs) (rackMap, rackNames, brokersWithRack) =
     (if Rack b \<noteq> '''' then
        let (rackMap, rackNames) =
              (if rackMap (Rack b) = None then (rackMap(Rack b \<mapsto> []), rackNames @ [Rack b])
               else (rackMap, rackNames))
        in scan_racks bs (rackMap(Rack b \<mapsto> rack_list rackMap (Rack b) @ [b]), rackNames,
             brokersWithRack + 1)
      else scan_racks bs (rackMap, rackNames, brokersWithRack))"

text \<open>One pass over the rack names; the flag is \<open>again\<close>.\<close>

fun rack_pass :: "string list \<Rightarrow> (string \<rightharpoonup> broker list) \<times> broker list \<times> nat
    \<Rightarrow> ((string \<rightharpoonup> broker list) \<times> broker list \<times> nat) \<times> bool" where
  "rack_pass [] s = (s, False)"
| "rack_pass (n # ns) (rackMap, brokers, index) =
     (case rack_list rackMap n of
        [] \<Rightarrow> rack_pass ns (rackMap, brokers, index)
      | h # t \<Rightarrow> (fst (rack_pass ns (rackMap(n \<mapsto> t), brokers[index := h], index + 1)), True))"

definition racks_left :: "string list \<Rightarrow> (string \<rightharpoonup> broker list) \<Rightarrow> nat" where
  "racks_left ns m = (\<Sum>n\<leftarrow>ns. length (rack_list m n))"

lemma rack_list_upd [simp]:
  "rack_list (m(n \<mapsto> bs)) k = (if k = n then bs else rack_list m k)"
  by (simp add: rack_list_def)

lemma rack_pass_shrinks:
  "rack_pass ns (m, bs, i) = ((m', bs', i'), again) \<Longrightarrow>
     (\<forall>k. length (rack_list m' k) \<le> length (rack_list m k))
     \<and> (again \<longrightarrow> (\<exists>k\<in>set ns. length (rack_list m' k) < length (rack_list m k)))"
proof (induction ns arbitrary: m bs i m' bs' i' again)
  case Nil
  then show ?case by simp
next
  case (Cons n ns)
  show ?case
  proof (cases "rack_list m n")
    case Nil
    with Cons show ?thesis by fastforce
  next
    case (Cons h t)
    obtain r where r: "rack_pass ns (m(n \<mapsto> t), bs[i := h], i + 1) = ((m', bs', i'), r)"
      using Cons.prems Cons by (cases "rack_pass ns (m(n \<mapsto> t), bs[i := h], i + 1)") auto
    have le: "length (rack_list m' k) \<le> length (rack_list (m(n \<mapsto> t)) k)" for k
      using Cons.IH [OF r] by blast
    have "length (rack_list m' n) < length (rack_list m n)"
      using le [of n] Cons by simp
    moreover have "length (rack_list m' k) \<le> length (rack_list m k)" for k
      using le [of k] Cons by (cases "k = n") simp_all
    ultimately show ?thesis by auto
  qed
qed

lemma racks_left_decreases:
  assumes "rack_pass ns (m, bs, i) = ((m', bs', i'), True)"
  shows "racks_left ns m' < racks_left ns m"
proof -
  from rack_pass_shrinks [OF assms] obtain k where
    le: "\<And>k. length (rack_list m' k) \<le> length (rack_list m k)" and
    k: "k \<in> set ns" "length (rack_list m' k) < length (rack_list m k)" by blast
  from k(1) obtain xs ys where "ns = xs @ k # ys" by (meson split_list)
  moreover have "(\<Sum>n\<leftarrow>zs. length (rack_list m' n)) \<le> (\<Sum>n\<leftarrow>zs. length (rack_list m n))" for zs
    by (rule sum_list_mono) (rule le)
  ultimately show ?thesis using k(2) 
    by (simp add: racks_left_def add_le_less_mono add_less_le_mono)
qed

function rack_loop :: "string list \<Rightarrow> (string \<rightharpoonup> broker list) \<times> broker list \<times> nat
    \<Rightarrow> (string \<rightharpoonup> broker list) \<times> broker list \<times> nat" where
  "rack_loop ns s = (case rack_pass ns s of (s', again) \<Rightarrow> if again then rack_loop ns s' else s')"
  by pat_completeness auto
termination
  by (relation "measure (\<lambda>(ns, m, _, _). racks_left ns m)") (auto dest: racks_left_decreases[OF sym])

declare rack_loop.simps [simp del]

definition rack_alternate :: "broker list \<Rightarrow> broker list" where
  "rack_alternate brokers =
     (case scan_racks brokers (Map.empty, [], 0) of (rackMap, rackNames, brokersWithRack) \<Rightarrow>
        if length brokers \<noteq> brokersWithRack then brokers
        else fst (snd (rack_loop rackNames (rackMap, brokers, 0))))"

definition requestedAssignments :: "nat \<Rightarrow> broker list \<Rightarrow> (int \<times> int list) list \<times> int" where
  "requestedAssignments currentPartitions brokers =
     (let brokersNumber = length brokers;
          partitions = nat (go_max (int currentPartitions) (int brokersNumber));
          replicationFactor = nat (go_min (int brokersNumber) 3);
          minISR = go_max 1 (int replicationFactor - 1);
          bs = rack_alternate (sort_brokers brokers)
      in (map (\<lambda>p. (int p, map (\<lambda>r. ID (bs ! ((p + r) mod brokersNumber))) [0..<replicationFactor]))
            [0..<partitions],
          minISR))"

section \<open>Transposition as the reference of the rack loop\<close>

definition heads :: "'a list list \<Rightarrow> 'a list" where
  "heads xss = map hd (filter (\<lambda>xs. xs \<noteq> []) xss)"

lemma heads_simps [simp]:
  "heads [] = []" "heads ([] # xss) = heads xss" "heads ((x # xs) # xss) = x # heads xss"
  by (simp_all add: heads_def)

lemma heads_eq_Nil [simp]: "heads xss = [] \<longleftrightarrow> (\<forall>xs\<in>set xss. xs = [])"
  by (auto simp: heads_def filter_empty_conv)

lemma transpose_columns:
  "concat (map (\<lambda>xs. case xs of [] \<Rightarrow> [] | h # t \<Rightarrow> [h]) xss) = heads xss"
  "concat (map (\<lambda>xs. case xs of [] \<Rightarrow> [] | h # t \<Rightarrow> [t]) xss) = map tl (filter (\<lambda>xs. xs \<noteq> []) xss)"
  by (induction xss) (auto split: list.splits)

lemma transpose_filter: "transpose (filter (\<lambda>xs. xs \<noteq> []) xss) = transpose xss"
  by (induction xss rule: transpose.induct)
    (simp_all add: transpose_columns heads_def)

lemma transpose_heads:
  "heads xss \<noteq> [] \<Longrightarrow> transpose xss = heads xss # transpose (map tl xss)"
proof (induction xss rule: transpose.induct)
  case 1
  then show ?case by simp
next
  case (2 xss)
  then show ?case by simp
next
  case (3 x xs xss)
  have "transpose (xs # map tl (filter (\<lambda>ys. ys \<noteq> []) xss)) = transpose (xs # map tl xss)"
  proof -
    have "filter (\<lambda>ys. ys \<noteq> []) (map tl (filter (\<lambda>ys. ys \<noteq> []) yss))
        = filter (\<lambda>ys. ys \<noteq> []) (map tl yss)" for yss :: "'a list list"
      by (induction yss) auto
    then have "filter (\<lambda>ys. ys \<noteq> []) (xs # map tl (filter (\<lambda>ys. ys \<noteq> []) xss))
        = filter (\<lambda>ys. ys \<noteq> []) (xs # map tl xss)" by simp
    then show ?thesis by (metis transpose_filter)
  qed
  then show ?case by (simp add: transpose_columns)
qed

lemma transpose_no_heads: "heads xss = [] \<Longrightarrow> transpose xss = []"
  by (induction xss rule: transpose.induct) simp_all

lemma size_map_tl: "heads xss \<noteq> [] \<Longrightarrow> (\<Sum>xs\<leftarrow>map tl xss. length xs) < (\<Sum>xs\<leftarrow>xss. length xs)"
proof (induction xss)
  case (Cons xs xss)
  have "(\<Sum>ys\<leftarrow>map tl xss. length ys) \<le> (\<Sum>ys\<leftarrow>xss. length ys)"
    by (simp add: comp_def sum_list_mono)
  with Cons show ?case by (cases xs) auto
qed simp

lemma mset_heads_tl:
  "mset (heads xss) + (\<Sum>xs\<leftarrow>map tl xss. mset xs) = (\<Sum>xs\<leftarrow>xss. mset xs)"
proof (induction xss)
  case (Cons xs xss)
  then show ?case by (cases xs) (auto simp: add_ac)
qed simp

lemma mset_concat_transpose: "mset (concat (transpose xss)) = mset (concat xss)"
proof (induction "\<Sum>xs\<leftarrow>xss. length xs" arbitrary: xss rule: less_induct)
  case less
  show ?case
  proof (cases "heads xss = []")
    case True
    then have "concat xss = []" by simp
    with transpose_no_heads [OF True] show ?thesis by simp
  next
    case False
    with less [OF size_map_tl] have "mset (concat (transpose (map tl xss))) = mset (concat (map tl xss))"
      by blast
    with False mset_heads_tl [of xss] show ?thesis
      by (simp add: transpose_heads mset_concat)
  qed
qed

lemma nth_concat_transpose_rect:
  assumes "\<forall>xs\<in>set xss. length xs = m" "i < m * length xss"
  shows "concat (transpose xss) ! i \<in> set (xss ! (i mod length xss))"
  using assms
proof (induction m arbitrary: xss i)
  case 0
  then show ?case by simp
next
  case (Suc m)
  from Suc.prems have ne: "xss \<noteq> []" "\<forall>xs\<in>set xss. xs \<noteq> []" by auto
  then have hds: "heads xss = map hd xss" by (simp add: heads_def)
  with ne have tr: "concat (transpose xss) = map hd xss @ concat (transpose (map tl xss))"
    by (simp add: transpose_heads)
  show ?case
  proof (cases "i < length xss")
    case True
    with ne tr show ?thesis by (simp add: nth_append)
  next
    case False
    let ?j = "i - length xss"
    have j: "?j < m * length (map tl xss)" using False Suc.prems(2) by simp
    have len: "\<forall>xs\<in>set (map tl xss). length xs = m" using Suc.prems(1) by auto
    have md: "?j mod length xss = i mod length xss" using False by (simp add: le_mod_geq)
    have lt: "i mod length xss < length xss" using ne by simp
    from Suc.IH [OF len j] have "concat (transpose (map tl xss)) ! ?j \<in> set (tl (xss ! (i mod length xss)))"
      using lt md by simp
    then show ?thesis using False tr
      by (simp add: nth_append) (metis list.sel(2) list.set_sel(2))
  qed
qed

section \<open>The rack map\<close>

text \<open>The elements of a list in the order of their first appearance.\<close>

definition firsts :: "'a list \<Rightarrow> 'a list" where
  "firsts xs = rev (remdups (rev xs))"

lemma firsts_snoc [simp]: "firsts (xs @ [x]) = (if x \<in> set xs then firsts xs else firsts xs @ [x])"
  by (simp add: firsts_def)

lemma firsts_Nil [simp]: "firsts [] = []"
  by (simp add: firsts_def)

lemma set_firsts [simp]: "set (firsts xs) = set xs"
  by (simp add: firsts_def)

lemma distinct_firsts [simp]: "distinct (firsts xs)"
  by (simp add: firsts_def)

definition racked :: "broker list \<Rightarrow> broker list" where
  "racked bs = filter (\<lambda>b. Rack b \<noteq> '''') bs"

definition in_rack :: "broker list \<Rightarrow> string \<Rightarrow> broker list" where
  "in_rack bs n = filter (\<lambda>b. Rack b = n) (racked bs)"

definition scanned :: "broker list \<Rightarrow> (string \<rightharpoonup> broker list) \<times> string list \<times> nat \<Rightarrow> bool" where
  "scanned bs acc \<longleftrightarrow> (case acc of (m, ns, k) \<Rightarrow>
     (\<forall>n. m n = (if n \<in> set ns then Some (in_rack bs n) else None))
     \<and> ns = firsts (map Rack (racked bs)) \<and> k = length (racked bs))"

lemma scanned_step:
  assumes "scanned pre (m, ns, k)" "Rack b \<noteq> ''''"
  shows "scanned (pre @ [b]) ((if m (Rack b) = None then m(Rack b \<mapsto> []) else m)
            (Rack b \<mapsto> rack_list (if m (Rack b) = None then m(Rack b \<mapsto> []) else m) (Rack b) @ [b]),
          (if m (Rack b) = None then ns @ [Rack b] else ns), k + 1)"
proof -
  have "in_rack pre (Rack b) = []" if "Rack b \<notin> set ns"
    using that assms(1) by (auto simp: scanned_def in_rack_def filter_empty_conv image_iff)
  with assms show ?thesis
    by (auto simp: scanned_def in_rack_def racked_def rack_list_def)
qed

lemma scan_racks_scanned:
  "scanned pre acc \<Longrightarrow> scanned (pre @ bs) (scan_racks bs acc)"
proof (induction bs arbitrary: pre acc)
  case Nil
  then show ?case by simp
next
  case (Cons b bs)
  obtain m ns k where acc: "acc = (m, ns, k)" by (cases acc)
  show ?case
  proof (cases "Rack b = ''''")
    case True
    with Cons.prems acc have "scanned (pre @ [b]) (m, ns, k)"
      by (simp add: scanned_def in_rack_def racked_def)
    from Cons.IH [OF this] True acc show ?thesis by simp
  next
    case False
    from Cons.IH [OF scanned_step [OF Cons.prems [unfolded acc] False]] False acc show ?thesis
      by (cases "m (Rack b)") simp_all
  qed
qed

lemma scan_racks_correct: "scanned bs (scan_racks bs (Map.empty, [], 0))"
  using scan_racks_scanned [of "[]" "(Map.empty, [], 0)" bs]
  by (simp add: scanned_def in_rack_def racked_def)

section \<open>The rack loop\<close>

definition put_at :: "'a list \<Rightarrow> nat \<Rightarrow> 'a list \<Rightarrow> 'a list" where
  "put_at xs i ys = take i xs @ ys @ drop (i + length ys) xs"

lemma put_at_Nil [simp]: "put_at xs i [] = xs"
  by (simp add: put_at_def)

lemma put_at_Cons:
  "i + length (y # ys) \<le> length xs \<Longrightarrow> put_at (xs[i := y]) (Suc i) ys = put_at xs i (y # ys)"
  by (simp add: put_at_def take_Suc_conv_app_nth)

lemma put_at_append:
  "i + length ys + length zs \<le> length xs \<Longrightarrow>
   put_at (put_at xs i ys) (i + length ys) zs = put_at xs i (ys @ zs)"
  by (simp add: put_at_def ac_simps)

lemma length_put_at [simp]: "i + length ys \<le> length xs \<Longrightarrow> length (put_at xs i ys) = length xs"
  by (simp add: put_at_def)

lemma put_at_all: "length ys = length xs \<Longrightarrow> put_at xs 0 ys = ys"
  by (simp add: put_at_def)

lemma rack_pass_heads:
  assumes "distinct ns" "i + length (heads (map (rack_list m) ns)) \<le> length bs"
  shows "\<exists>m'. rack_pass ns (m, bs, i)
      = ((m', put_at bs i (heads (map (rack_list m) ns)), i + length (heads (map (rack_list m) ns))),
         heads (map (rack_list m) ns) \<noteq> [])
    \<and> (\<forall>n. rack_list m' n = (if n \<in> set ns then tl (rack_list m n) else rack_list m n))"
  using assms
proof (induction ns arbitrary: m bs i)
  case Nil
  then show ?case by simp
next
  case (Cons n ns)
  show ?case
  proof (cases "rack_list m n")
    case Nil
    with Cons.IH [of i m bs] Cons.prems show ?thesis by auto
  next
    case (Cons h t)
    let ?m = "m(n \<mapsto> t)"
    have same: "map (rack_list ?m) ns = map (rack_list m) ns"
      using Cons.prems(1) by auto
    have fits: "i + length (h # heads (map (rack_list m) ns)) \<le> length bs"
      using Cons.prems(2) Cons by simp
    have pre: "distinct ns" "i + 1 + length (heads (map (rack_list ?m) ns)) \<le> length (bs[i := h])"
      using fits Cons.prems(1) by (simp_all only: same) simp_all
    from Cons.IH [OF pre, unfolded same] obtain m' where
      m': "rack_pass ns (?m, bs[i := h], i + 1)
        = ((m', put_at (bs[i := h]) (i + 1) (heads (map (rack_list m) ns)),
            i + 1 + length (heads (map (rack_list m) ns))), heads (map (rack_list m) ns) \<noteq> [])"
      "\<forall>k. rack_list m' k = (if k \<in> set ns then tl (rack_list ?m k) else rack_list ?m k)"
      by blast
    have "put_at (bs[i := h]) (i + 1) (heads (map (rack_list m) ns))
        = put_at bs i (h # heads (map (rack_list m) ns))"
      using put_at_Cons [OF fits] by simp
    with m' Cons Cons.prems(1) show ?thesis by auto
  qed
qed

lemma racks_left_transpose: "racks_left ns m = length (concat (transpose (map (rack_list m) ns)))"
  using arg_cong [OF mset_concat_transpose [of "map (rack_list m) ns"], of size]
  by (simp add: racks_left_def length_concat comp_def)

lemma rack_loop_transpose:
  assumes "distinct ns" "i + racks_left ns m \<le> length bs"
  shows "fst (snd (rack_loop ns (m, bs, i))) = put_at bs i (concat (transpose (map (rack_list m) ns)))"
  using assms(2)
proof (induction "racks_left ns m" arbitrary: m bs i rule: less_induct)
  case less
  let ?hs = "heads (map (rack_list m) ns)"
  note total = racks_left_transpose [of ns m]
  show ?case
  proof (cases "?hs = []")
    case True
    then have "transpose (map (rack_list m) ns) = []" by (rule transpose_no_heads)
    moreover from rack_pass_heads [OF assms(1), of i m bs] True less.prems
    obtain m' where "rack_pass ns (m, bs, i) = ((m', bs, i), False)" by auto
    ultimately show ?thesis by (simp add: rack_loop.simps [of ns])
  next
    case False
    have cat: "concat (transpose (map (rack_list m) ns))
        = ?hs @ concat (transpose (map (tl \<circ> rack_list m) ns))"
      using transpose_heads [OF False] by simp
    have fits: "i + length ?hs \<le> length bs" using less.prems total cat by simp
    from rack_pass_heads [OF assms(1) fits] False obtain m' where
      pass: "rack_pass ns (m, bs, i) = ((m', put_at bs i ?hs, i + length ?hs), True)"
      and m': "\<forall>n. rack_list m' n = (if n \<in> set ns then tl (rack_list m n) else rack_list m n)"
      by auto
    from m' have lists: "map (rack_list m') ns = map (tl \<circ> rack_list m) ns" by simp
    have left: "racks_left ns m' = length (concat (transpose (map (tl \<circ> rack_list m) ns)))"
      using racks_left_transpose [of ns m'] by (simp only: lists)
    have "fst (snd (rack_loop ns (m', put_at bs i ?hs, i + length ?hs)))
        = put_at (put_at bs i ?hs) (i + length ?hs) (concat (transpose (map (tl \<circ> rack_list m) ns)))"
      using less.hyps [OF racks_left_decreases [OF pass], of "i + length ?hs" "put_at bs i ?hs"]
        lists left less.prems total cat fits by simp
    also have "\<dots> = put_at bs i (concat (transpose (map (rack_list m) ns)))"
      using put_at_append [of i ?hs _ bs] cat less.prems total by simp
    finally show ?thesis using pass by (simp add: rack_loop.simps [of ns "(m, bs, i)"])
  qed
qed

section \<open>The order of the brokers\<close>

definition rack_order :: "broker list \<Rightarrow> broker list" where
  "rack_order bs = concat (transpose (map (in_rack bs) (firsts (map Rack bs))))"

lemma mset_filter_classes:
  "distinct ns \<Longrightarrow> mset (concat (map (\<lambda>n. filter (\<lambda>b. f b = n) bs) ns))
     = mset (filter (\<lambda>b. f b \<in> set ns) bs)"
proof (induction ns)
  case Nil
  then show ?case by simp
next
  case (Cons n ns)
  have "mset (filter (\<lambda>b. f b = n) bs) + mset (filter (\<lambda>b. f b \<in> set ns) bs)
      = mset (filter (\<lambda>b. f b \<in> set (n # ns)) bs)"
    using Cons.prems by (induction bs) auto
  with Cons show ?case by simp
qed

lemma racked_all [simp]: "\<forall>b\<in>set bs. Rack b \<noteq> '''' \<Longrightarrow> racked bs = bs"
  by (simp add: racked_def filter_id_conv)

lemma mset_rack_order:
  assumes "\<forall>b\<in>set bs. Rack b \<noteq> ''''"
  shows "mset (rack_order bs) = mset bs"
proof -
  have classes: "in_rack bs = (\<lambda>n. filter (\<lambda>b. Rack b = n) bs)"
    using assms by (simp add: in_rack_def fun_eq_iff)
  have "mset (rack_order bs) = mset (concat (map (in_rack bs) (firsts (map Rack bs))))"
    by (simp add: rack_order_def mset_concat_transpose)
  also have "\<dots> = mset (filter (\<lambda>b. Rack b \<in> set (firsts (map Rack bs))) bs)"
    using mset_filter_classes [of "firsts (map Rack bs)" Rack bs] by (simp only: classes) simp
  also have "filter (\<lambda>b. Rack b \<in> set (firsts (map Rack bs))) bs = bs"
    by (simp add: filter_id_conv)
  finally show ?thesis .
qed

lemma rack_alternate_eq:
  "rack_alternate bs = (if \<forall>b\<in>set bs. Rack b \<noteq> '''' then rack_order bs else bs)"
proof -
  obtain m ns k where scan: "scan_racks bs (Map.empty, [], 0) = (m, ns, k)"
    by (metis prod_cases3)
  with scan_racks_correct [of bs] have
    m: "\<forall>n. m n = (if n \<in> set ns then Some (in_rack bs n) else None)" and
    ns: "ns = firsts (map Rack (racked bs))" and k: "k = length (racked bs)"
    by (simp_all add: scanned_def)
  show ?thesis
  proof (cases "\<forall>b\<in>set bs. Rack b \<noteq> ''''")
    case True
    from m have lists: "map (rack_list m) ns = map (in_rack bs) ns"
      by (simp add: rack_list_def)
    moreover have "rack_order bs = concat (transpose (map (in_rack bs) ns))"
      using True ns by (simp add: rack_order_def)
    ultimately have order: "concat (transpose (map (rack_list m) ns)) = rack_order bs"
      by (simp only:)
    have len: "length (rack_order bs) = length bs"
      using mset_rack_order [OF True] by (rule mset_eq_length)
    have "racks_left ns m = length bs"
      using order len by (simp add: racks_left_transpose)
    then have "fst (snd (rack_loop ns (m, bs, 0))) = put_at bs 0 (rack_order bs)"
      using rack_loop_transpose [of ns 0 m bs] order ns by simp
    with True scan k len show ?thesis by (simp add: rack_alternate_def put_at_all)
  next
    case False
    then have "length (racked bs) < length bs"
      by (auto simp: racked_def intro: length_filter_less)
    then have "rack_alternate bs = bs" using scan k by (simp add: rack_alternate_def)
    with False show ?thesis by (simp only: if_False)
  qed
qed

definition ordered :: "broker list \<Rightarrow> broker list" where
  "ordered brokers = rack_alternate (sort_brokers brokers)"

lemma mset_ordered [simp]: "mset (ordered brokers) = mset brokers"
  by (simp add: ordered_def rack_alternate_eq mset_rack_order sort_brokers_def)

lemma set_ordered [simp]: "set (ordered brokers) = set brokers"
  using mset_ordered by (rule mset_eq_setD)

lemma length_ordered [simp]: "length (ordered brokers) = length brokers"
  using mset_ordered by (rule mset_eq_length)

lemma distinct_ordered: "distinct (map ID brokers) \<Longrightarrow> distinct (map ID (ordered brokers))"
  by (metis mset_eq_imp_distinct_iff mset_map mset_ordered)

definition replicas :: "broker list \<Rightarrow> nat \<Rightarrow> broker list" where
  "replicas brokers p = map (\<lambda>r. ordered brokers ! ((p + r) mod length brokers)) [0..<min (length brokers) 3]"

lemma requestedAssignments_eq:
  "requestedAssignments cur brokers =
     (map (\<lambda>p. (int p, map ID (replicas brokers p))) [0..<max cur (length brokers)],
      max 1 (int (min (length brokers) 3) - 1))"
  by (auto simp: requestedAssignments_def Let_def go_max_def go_min_def replicas_def ordered_def
      max_def min_def)

lemma length_replicas [simp]: "length (replicas brokers p) = min (length brokers) 3"
  by (simp add: replicas_def)

lemma replicas_distinct:
  assumes "distinct (map ID brokers)"
  shows "distinct (map ID (replicas brokers p))"
proof (cases "brokers = []")
  case False
  have "map ID (replicas brokers p)
      = map (\<lambda>r. map ID (ordered brokers) ! ((p + r) mod length (map ID (ordered brokers))))
          [0..<min (length brokers) 3]"
    using False by (auto simp: replicas_def)
  then show ?thesis
    using distinct_map_nth_mod [OF distinct_ordered [OF assms], of "min (length brokers) 3" p] False
    by simp
qed (simp add: replicas_def)

lemma replicas_subset: "set (replicas brokers p) \<subseteq> set brokers"
proof
  fix b assume "b \<in> set (replicas brokers p)"
  then obtain r where r: "r < min (length brokers) 3"
    and b: "b = ordered brokers ! ((p + r) mod length brokers)"
    by (auto simp: replicas_def)
  have "0 < length brokers" using r by linarith
  then have "(p + r) mod length brokers < length (ordered brokers)"
    using mod_less_divisor by (simp only: length_ordered)
  then have "b \<in> set (ordered brokers)" unfolding b by (rule nth_mem)
  then show "b \<in> set brokers" by simp
qed

lemma column_rotate:
  "map (\<lambda>p. ordered brokers ! ((p + r) mod length brokers)) [0..<length brokers] = rotate r (ordered brokers)"
  by (rule nth_equalityI) (simp_all add: nth_rotate add.commute)

lemma mset_rotate1: "mset (rotate1 xs) = mset xs"
  by (cases xs) simp_all

lemma mset_rotate [simp]: "mset (rotate n xs) = mset xs"
  by (induction n) (simp_all add: mset_rotate1)

section \<open>Properties\<close>

text \<open>
  C7: the assignment requested from a cluster whose broker IDs are distinct. There is one entry
  for each of the \<open>max currentPartitions brokers\<close> partitions, numbered from 0; every partition has
  exactly \<open>min brokers 3\<close> replicas, on pairwise different brokers of the cluster; and the minimum
  in-sync replica count is one less than that, but at least 1.
\<close>

theorem assignment_wellformed:
  assumes "distinct (map ID brokers)" "requestedAssignments cur brokers = (asg, minISR)"
  shows "map fst asg = map int [0..<max cur (length brokers)]
       \<and> (\<forall>(p, rs) \<in> set asg. length rs = min (length brokers) 3 \<and> distinct rs
             \<and> set rs \<subseteq> ID ` set brokers)
       \<and> minISR = max 1 (int (min (length brokers) 3) - 1)"
  using assms replicas_distinct [OF assms(1)] replicas_subset [of brokers]
  by (fastforce simp: requestedAssignments_eq comp_def simp del: distinct_map)

theorem assignment_wellformed_witness:
  "requestedAssignments 5 [\<lparr>ID = 2, Rack = ''''\<rparr>, \<lparr>ID = 0, Rack = ''''\<rparr>]
     = ([(0, [0, 2]), (1, [2, 0]), (2, [0, 2]), (3, [2, 0]), (4, [0, 2])], 1)
   \<and> length ([0, 2] :: int list) = min (length [\<lparr>ID = 2, Rack = ''''\<rparr>, \<lparr>ID = 0, Rack = ''''\<rparr>]) 3"
proof -
  let ?bs = "[\<lparr>ID = 2, Rack = ''''\<rparr>, \<lparr>ID = 0, Rack = ''''\<rparr>]"
  have r: "requestedAssignments 5 ?bs
      = ([(0, [0, 2]), (1, [2, 0]), (2, [0, 2]), (3, [2, 0]), (4, [0, 2])], 1)"
    by code_simp
  from assignment_wellformed [OF _ r] r show ?thesis by simp
qed

lemma mset_concat_columns:
  "mset (concat (map (\<lambda>p. map (g p) rs) ps)) = (\<Sum>r\<leftarrow>rs. mset (map (\<lambda>p. g p r) ps))"
proof (induction ps)
  case Nil
  then show ?case by (induction rs) simp_all
next
  case (Cons p ps)
  have "mset (map (g p) rs) + (\<Sum>r\<leftarrow>rs. M r) = (\<Sum>r\<leftarrow>rs. add_mset (g p r) (M r))" for M
    by (induction rs) (simp_all add: ac_simps)
  with Cons show ?case by simp
qed

lemma sum_list_const_mset: "(\<Sum>r\<leftarrow>[0..<k]. M) = repeat_mset k M"
  by (induction k) (simp_all add: ac_simps)

lemma replicas_column:
  "mset (map (\<lambda>p. ID (ordered brokers ! ((p + r) mod length brokers))) [0..<length brokers])
     = mset (map ID brokers)"
proof -
  have "map (\<lambda>p. ID (ordered brokers ! ((p + r) mod length brokers))) [0..<length brokers]
      = map ID (rotate r (ordered brokers))"
    by (simp flip: column_rotate)
  then show ?thesis by (metis mset_map mset_ordered mset_rotate)
qed

text \<open>
  C8: leadership and load are balanced. The preferred leaders (first replicas) of the first
  \<open>length brokers\<close> partitions are the brokers of the cluster, each exactly once, and over these
  partitions every broker holds exactly \<open>min brokers 3\<close> replicas. The partitions beyond these, when there are more
  partitions than brokers, repeat the replicas of the partitions \<open>length brokers\<close> before them.
\<close>

theorem assignment_balanced:
  assumes "brokers \<noteq> []" "requestedAssignments cur brokers = (asg, minISR)"
  shows "mset (map (\<lambda>e. hd (snd e)) (take (length brokers) asg)) = mset (map ID brokers)
       \<and> mset (concat (map snd (take (length brokers) asg)))
           = repeat_mset (min (length brokers) 3) (mset (map ID brokers))
       \<and> (\<forall>p. p + length brokers < length asg \<longrightarrow> snd (asg ! (p + length brokers)) = snd (asg ! p))"
proof -
  let ?n = "length brokers" and ?k = "min (length brokers) 3"
  have asg: "take ?n asg = map (\<lambda>p. (int p, map ID (replicas brokers p))) [0..<?n]"
    using assms(2) by (auto simp: requestedAssignments_eq take_map min_def)
  have "hd (map ID (replicas brokers p)) = ID (ordered brokers ! ((p + 0) mod ?n))" for p
    using assms(1) by (cases brokers) (auto simp: replicas_def upt_rec hd_map)
  then have leaders: "map (\<lambda>e. hd (snd e)) (take ?n asg)
      = map (\<lambda>p. ID (ordered brokers ! ((p + 0) mod ?n))) [0..<?n]"
    by (simp add: asg)
  have "map snd (take ?n asg)
      = map (\<lambda>p. map (\<lambda>r. ID (ordered brokers ! ((p + r) mod ?n))) [0..<?k]) [0..<?n]"
    by (simp add: asg replicas_def)
  then have "mset (concat (map snd (take ?n asg))) = repeat_mset ?k (mset (map ID brokers))"
    by (simp only: mset_concat_columns replicas_column sum_list_const_mset)
  moreover have "snd (asg ! (p + ?n)) = snd (asg ! p)" if "p + ?n < length asg" for p
  proof -
    have "(p + ?n + r) mod ?n = (p + r) mod ?n" for r
      using mod_add_self2 [of "p + r" ?n] by (simp add: ac_simps)
    then have "replicas brokers (p + ?n) = replicas brokers p" by (simp only: replicas_def)
    moreover have "asg = map (\<lambda>p. (int p, map ID (replicas brokers p))) [0..<max cur ?n]"
      using assms(2) by (simp add: requestedAssignments_eq)
    ultimately show ?thesis using that by (simp add: max_def split: if_split_asm)
  qed
  ultimately show ?thesis using leaders replicas_column [of brokers 0] by (simp only:) blast
qed

theorem assignment_balanced_witness:
  "mset (map (\<lambda>e. hd (snd e)) (take 2 [(0 :: int, [0 :: int, 2]), (1, [2, 0]), (2, [0, 2])])) = {#2, 0#}"
proof -
  have "requestedAssignments 3 [\<lparr>ID = 2, Rack = ''''\<rparr>, \<lparr>ID = 0, Rack = ''''\<rparr>]
      = ([(0, [0, 2]), (1, [2, 0]), (2, [0, 2])], 1)"
    by code_simp
  from assignment_balanced [OF _ this] show ?thesis by simp
qed

text \<open>
  The order in which a metadata response lists the brokers does not matter: two listings of the
  same cluster request the same assignment.
\<close>

theorem assignment_order_independent:
  assumes "distinct (map ID brokers)" "mset brokers = mset brokers'"
  shows "requestedAssignments cur brokers = requestedAssignments cur brokers'"
proof -
  have "sort_key ID brokers = sort_key ID brokers'"
  proof (rule sort_key_inj_key_eq)
    show "mset brokers = mset (sort_key ID brokers')" using assms(2) by simp
    show "inj_on ID (set brokers)" using assms(1) by (simp add: distinct_map)
    show "sorted (map ID (sort_key ID brokers'))" by simp
  qed
  moreover have "length brokers = length brokers'" using assms(2) by (rule mset_eq_length)
  ultimately show ?thesis by (simp add: requestedAssignments_def sort_brokers_def)
qed

theorem assignment_order_independent_witness:
  "requestedAssignments 0 [\<lparr>ID = 1, Rack = ''b''\<rparr>, \<lparr>ID = 0, Rack = ''a''\<rparr>]
     = requestedAssignments 0 [\<lparr>ID = 0, Rack = ''a''\<rparr>, \<lparr>ID = 1, Rack = ''b''\<rparr>]"
  by (rule assignment_order_independent) simp_all

text \<open>
  C25: the rack loop computes the reference: when every broker has a rack, the order is the
  transposition of the rack lists (racks in the order of their first broker), and otherwise the
  brokers stay sorted by ID, so that racks known for only some brokers have no effect.
\<close>

theorem rack_loop_is_transposition:
  "rack_alternate (sort_brokers brokers)
     = (let bs = sort_brokers brokers in
        if \<exists>b\<in>set brokers. Rack b = '''' then bs
        else concat (transpose (map (\<lambda>n. filter (\<lambda>b. Rack b = n) bs) (firsts (map Rack bs)))))"
proof -
  have set: "set (sort_brokers brokers) = set brokers" by (simp add: sort_brokers_def)
  show ?thesis
  proof (cases "\<exists>b\<in>set brokers. Rack b = ''''")
    case True
    with set have "\<not> (\<forall>b\<in>set (sort_brokers brokers). Rack b \<noteq> '''')" by auto
    with True show ?thesis by (simp only: rack_alternate_eq Let_def if_True if_False)
  next
    case False
    with set have all: "\<forall>b\<in>set (sort_brokers brokers). Rack b \<noteq> ''''" by auto
    then have "in_rack (sort_brokers brokers) = (\<lambda>n. filter (\<lambda>b. Rack b = n) (sort_brokers brokers))"
      by (simp add: in_rack_def fun_eq_iff)
    with all False show ?thesis by (simp add: rack_alternate_eq Let_def rack_order_def)
  qed
qed

text \<open>The example of the comment in the code, with the order that the code produces for it.\<close>

lemma rack_example:
  "map ID (rack_alternate (sort_brokers [\<lparr>ID = 0, Rack = ''rack1''\<rparr>, \<lparr>ID = 1, Rack = ''rack3''\<rparr>,
      \<lparr>ID = 2, Rack = ''rack3''\<rparr>, \<lparr>ID = 3, Rack = ''rack2''\<rparr>, \<lparr>ID = 4, Rack = ''rack2''\<rparr>, \<lparr>ID = 5, Rack = ''rack1''\<rparr>]))
     = [0, 1, 3, 5, 2, 4]"
  by code_simp

lemma length_concat_rect: "\<forall>xs\<in>set xss. length xs = m \<Longrightarrow> length (concat xss) = m * length xss"
  by (induction xss) simp_all

lemma ordered_rack:
  assumes racked: "\<forall>b\<in>set brokers. Rack b \<noteq> ''''"
    and even: "\<forall>b\<in>set brokers. length (filter (\<lambda>c. Rack c = Rack b) brokers) = m"
    and names: "names = firsts (map Rack (sort_brokers brokers))"
  shows "length brokers = m * length names"
    and "i < length brokers \<Longrightarrow> Rack (ordered brokers ! i) = names ! (i mod length names)"
proof -
  let ?sb = "sort_brokers brokers"
  let ?xss = "map (\<lambda>n. filter (\<lambda>b. Rack b = n) ?sb) names"
  have sb: "mset ?sb = mset brokers" by (simp add: sort_brokers_def)
  then have set: "set ?sb = set brokers" by (rule mset_eq_setD)
  have ord: "ordered brokers = concat (transpose ?xss)"
    using racked by (auto simp: ordered_def rack_loop_is_transposition Let_def names)
  have "length (filter (\<lambda>c. Rack c = r) ?sb) = length (filter (\<lambda>c. Rack c = r) brokers)" for r
    using sb by (metis mset_filter size_mset)
  then have lens: "\<forall>xs\<in>set ?xss. length xs = m"
    using even set by (auto simp: names)
  then have "length (concat ?xss) = m * length names"
    using length_concat_rect [of ?xss m] by simp
  moreover have "length (ordered brokers) = length (concat ?xss)"
    using mset_eq_length [OF mset_concat_transpose [of ?xss]] ord by simp
  ultimately show len: "length brokers = m * length names" by simp
  assume i: "i < length brokers"
  with len have k: "i mod length names < length names" by (cases names) simp_all
  have "ordered brokers ! i \<in> set (?xss ! (i mod length ?xss))"
    using nth_concat_transpose_rect [OF lens, of i] i len ord by simp
  with k show "Rack (ordered brokers ! i) = names ! (i mod length names)" by simp
qed

text \<open>
  C24: rack awareness. When every broker has a rack, all racks have the same number of brokers and
  there are at least as many racks as replicas, then no two replicas of any partition share a
  rack, also for the partitions whose replicas wrap around the end of the broker list.
\<close>

theorem replicas_spread_over_racks:
  assumes "\<forall>b\<in>set brokers. Rack b \<noteq> ''''"
    and "\<forall>b\<in>set brokers. length (filter (\<lambda>c. Rack c = Rack b) brokers) = m"
    and "min (length brokers) 3 \<le> card (Rack ` set brokers)"
    and "(p, rs) \<in> set (fst (requestedAssignments cur brokers))"
  shows "\<exists>bs. rs = map ID bs \<and> set bs \<subseteq> set brokers \<and> distinct (map Rack bs)"
proof -
  define names where "names = firsts (map Rack (sort_brokers brokers))"
  note ord = ordered_rack [OF assms(1,2) names_def]
  have "set names = Rack ` set brokers" by (simp add: names_def sort_brokers_def)
  then have card: "card (Rack ` set brokers) = length names"
    by (metis distinct_card distinct_firsts names_def)
  obtain q where rs: "rs = map ID (replicas brokers q)"
    using assms(4) by (auto simp: requestedAssignments_eq)
  have "distinct (map Rack (replicas brokers q))"
  proof (cases "brokers = []")
    case False
    have "Rack (ordered brokers ! ((q + r) mod length brokers)) = names ! ((q + r) mod length names)" for r
      using ord(2) [of "(q + r) mod length brokers"] ord(1) False
      by (metis dvd_triv_right length_greater_0_conv mod_less_divisor mod_mod_cancel)
    then have "map Rack (replicas brokers q)
        = map (\<lambda>r. names ! ((q + r) mod length names)) [0..<min (length brokers) 3]"
      by (simp add: replicas_def)
    moreover have "0 < length names" using False ord(1) by (cases names) auto
    ultimately show ?thesis
      using distinct_map_nth_mod [of names "min (length brokers) 3" q] assms(3) card
      by (simp add: names_def)
  qed (simp add: replicas_def)
  with rs replicas_subset [of brokers q] show ?thesis by blast
qed

theorem replicas_spread_over_racks_witness:
  "\<exists>bs :: broker list. [3, 4, 0] = map ID bs \<and> distinct (map Rack bs)"
proof -
  let ?bs = "map (\<lambda>(i, r). \<lparr>ID = i, Rack = r\<rparr>)
    [(0, ''r1''), (1, ''r2''), (2, ''r3''), (3, ''r2''), (4, ''r3''), (5, ''r1'')]"
  have r: "fst (requestedAssignments 6 ?bs) =
      [(0, [0, 1, 2]), (1, [1, 2, 5]), (2, [2, 5, 3]), (3, [5, 3, 4]), (4, [3, 4, 0]), (5, [4, 0, 1])]"
    by code_simp
  have "(4, [3, 4, 0]) \<in> set (fst (requestedAssignments 6 ?bs))" unfolding r by simp
  then have "\<exists>bs. [3, 4, 0 :: int] = map ID bs \<and> set bs \<subseteq> set ?bs \<and> distinct (map Rack bs)"
    by (rule replicas_spread_over_racks [of ?bs 2, rotated 3]) (simp_all add: card_insert_if)
  then show ?thesis by (elim ex_forward) (elim conjE, intro conjI)
qed

end
