(* ===== verification/Go_Strings.thy ===== *)
theory Go_Strings
  imports Canary_Prelude "HOL-Library.Char_ord" "HOL-Library.List_Lexorder"
begin

text \<open>
  The functions of Go's \<open>strings\<close> and \<open>strconv\<close> packages that the canary uses: \<open>Split\<close> at a
  one-byte separator, \<open>Itoa\<close>, \<open>Atoi\<close> with its syntax and range errors, \<open>ParseBool\<close>. A Go string
  is a sequence of bytes, here a list of \<open>char\<close>.
\<close>

section \<open>strings.Split\<close>

fun Split :: "char \<Rightarrow> string \<Rightarrow> string list" where
  "Split sep [] = [[]]"
| "Split sep (c # cs) =
     (if c = sep then [] # Split sep cs
      else (c # hd (Split sep cs)) # tl (Split sep cs))"

fun Join :: "char \<Rightarrow> string list \<Rightarrow> string" where
  "Join sep [] = []"
| "Join sep [s] = s"
| "Join sep (s # ss) = s @ sep # Join sep ss"

lemma Split_not_Nil [simp]: "Split sep s \<noteq> []"
  by (cases s) auto

lemma Split_no_sep: "sep \<notin> set s \<Longrightarrow> Split sep s = [s]"
  by (induction s) auto

lemma Split_append: "sep \<notin> set s \<Longrightarrow> Split sep (s @ sep # t) = s # Split sep t"
  by (induction s) auto

lemma Split_Join:
  "ss \<noteq> [] \<Longrightarrow> \<forall>s\<in>set ss. sep \<notin> set s \<Longrightarrow> Split sep (Join sep ss) = ss"
  by (induction sep ss rule: Join.induct) (auto simp: Split_no_sep Split_append)

lemma Join_Cons: "ss \<noteq> [] \<Longrightarrow> Join sep (s # ss) = s @ sep # Join sep ss"
  by (cases ss) simp_all

lemma Join_snoc: "ss \<noteq> [] \<Longrightarrow> Join sep (ss @ [t]) = Join sep ss @ sep # t"
  by (induction sep ss rule: Join.induct) auto

lemma Join_last: "s \<noteq> [] \<Longrightarrow> last (Join sep (ss @ [s])) = last s \<and> Join sep (ss @ [s]) \<noteq> []"
  by (cases "ss = []") (simp_all add: Join_snoc)

lemma Join_Split: "Join sep (Split sep s) = s"
proof (induction s)
  case (Cons c cs)
  obtain x xs where x: "Split sep cs = x # xs" by (cases "Split sep cs") auto
  with Cons show ?case by (cases xs) auto
qed simp

section \<open>strconv.Itoa and strconv.Atoi\<close>

definition digit_char :: "nat \<Rightarrow> char" where
  "digit_char d = char_of (48 + d)"

definition digit_val :: "char \<Rightarrow> nat option" where
  "digit_val c = (if 48 \<le> (of_char c :: nat) \<and> (of_char c :: nat) \<le> 57
     then Some (of_char c - 48) else None)"

fun show_nat :: "nat \<Rightarrow> string" where
  "show_nat n = (if n < 10 then [digit_char n] else show_nat (n div 10) @ [digit_char (n mod 10)])"

declare show_nat.simps [simp del]

definition Itoa :: "int \<Rightarrow> string" where
  "Itoa i = (if i < 0 then CHR ''-'' # show_nat (nat (- i)) else show_nat (nat i))"

datatype num_error = ErrSyntax | ErrRange

text \<open>\<open>ParseUint\<close> for base 10: the first non-digit or the first overflow decides.\<close>

fun scan_uint :: "nat \<Rightarrow> string \<Rightarrow> num_error + nat" where
  "scan_uint n [] = Inr n"
| "scan_uint n (c # cs) = (case digit_val c of
       None \<Rightarrow> Inl ErrSyntax
     | Some d \<Rightarrow> if 2 ^ 64 \<le> 10 * n + d then Inl ErrRange else scan_uint (10 * n + d) cs)"

definition ParseUint :: "string \<Rightarrow> num_error + nat" where
  "ParseUint s = (if s = [] then Inl ErrSyntax else scan_uint 0 s)"

text \<open>\<open>Atoi\<close> returns a value also with an error: 0 for bad syntax, the nearest bound out of range.\<close>

definition signed_result :: "bool \<Rightarrow> num_error + nat \<Rightarrow> int \<times> num_error option" where
  "signed_result neg r = (case r of
       Inl ErrSyntax \<Rightarrow> (0, Some ErrSyntax)
     | Inl ErrRange \<Rightarrow> (if neg then - (2 ^ 63) else 2 ^ 63 - 1, Some ErrRange)
     | Inr n \<Rightarrow> if \<not> neg \<and> 2 ^ 63 \<le> n then (2 ^ 63 - 1, Some ErrRange)
                else if neg \<and> 2 ^ 63 < n then (- (2 ^ 63), Some ErrRange)
                else (if neg then - int n else int n, None))"

definition Atoi :: "string \<Rightarrow> int \<times> num_error option" where
  "Atoi s = (case s of
       [] \<Rightarrow> (0, Some ErrSyntax)
     | c # cs \<Rightarrow> if c = CHR ''-'' then signed_result True (ParseUint cs)
                 else if c = CHR ''+'' then signed_result False (ParseUint cs)
                 else signed_result False (ParseUint s))"

lemma digit_val_char [simp]: "d < 10 \<Longrightarrow> digit_val (digit_char d) = Some d"
  by (simp add: digit_val_def digit_char_def)

lemma digit_char_not_sign: "d < 10 \<Longrightarrow> digit_char d \<noteq> CHR ''-'' \<and> digit_char d \<noteq> CHR ''+''"
proof -
  assume "d < 10"
  then have "digit_val (digit_char d) = Some d" by simp
  moreover have "digit_val CHR ''-'' = None" "digit_val CHR ''+'' = None"
    by (simp_all add: digit_val_def)
  ultimately show ?thesis by auto
qed

lemma scan_uint_snoc:
  "scan_uint k (cs @ [c]) = (case scan_uint k cs of Inl e \<Rightarrow> Inl e | Inr n \<Rightarrow> scan_uint n [c])"
  by (induction cs arbitrary: k) (auto split: option.splits)

lemma scan_uint_show_nat: "n < 2 ^ 64 \<Longrightarrow> scan_uint 0 (show_nat n) = Inr n"
proof (induction n rule: show_nat.induct)
  case (1 n)
  show ?case
  proof (cases "n < 10")
    case True
    then show ?thesis by (simp add: show_nat.simps [of n])
  next
    case False
    with 1 have "scan_uint 0 (show_nat (n div 10)) = Inr (n div 10)" by simp
    with False \<open>n < 2 ^ 64\<close> show ?thesis
      by (subst show_nat.simps) (simp add: scan_uint_snoc)
  qed
qed

lemma show_nat_Cons: "\<exists>d cs. d < 10 \<and> show_nat n = digit_char d # cs"
proof (induction n rule: show_nat.induct)
  case (1 n)
  show ?case
  proof (cases "n < 10")
    case True
    then show ?thesis by (auto simp: show_nat.simps [of n])
  next
    case False
    with 1 obtain d cs where "d < 10" "show_nat (n div 10) = digit_char d # cs" by blast
    with False show ?thesis by (subst show_nat.simps) auto
  qed
qed

lemma show_nat_digits: "c \<in> set (show_nat n) \<Longrightarrow> \<exists>d<10. c = digit_char d"
proof (induction n rule: show_nat.induct)
  case (1 n)
  show ?case
  proof (cases "n < 10")
    case True
    with 1 show ?thesis by (auto simp: show_nat.simps [of n])
  next
    case False
    have "n mod 10 < 10" by simp
    from False 1 have "c \<in> set (show_nat (n div 10)) \<or> c = digit_char (n mod 10)"
      by (auto simp: show_nat.simps [of n])
    with False 1 \<open>n mod 10 < 10\<close> show ?thesis by blast
  qed
qed

lemma ParseUint_show_nat: "n < 2 ^ 64 \<Longrightarrow> ParseUint (show_nat n) = Inr n"
  using scan_uint_show_nat [of n] show_nat_Cons [of n] by (auto simp: ParseUint_def)

lemma Atoi_Itoa:
  assumes "- (2 ^ 63) \<le> i" "i < 2 ^ 63"
  shows "Atoi (Itoa i) = (i, None)"
proof (cases "i < 0")
  case True
  with assms have "nat (- i) \<le> 2 ^ 63" by simp
  then have "ParseUint (show_nat (nat (- i))) = Inr (nat (- i))"
    by (intro ParseUint_show_nat) simp
  with True \<open>nat (- i) \<le> 2 ^ 63\<close> show ?thesis by (simp add: Atoi_def Itoa_def signed_result_def)
next
  case False
  with assms have lt: "nat i < 2 ^ 63" by simp
  then have "ParseUint (show_nat (nat i)) = Inr (nat i)" by (intro ParseUint_show_nat) simp
  moreover obtain d cs where d: "d < 10" "show_nat (nat i) = digit_char d # cs"
    using show_nat_Cons by blast
  ultimately show ?thesis using False lt digit_char_not_sign [OF d(1)]
    by (simp add: Atoi_def Itoa_def signed_result_def)
qed

lemma Itoa_inject: "- (2 ^ 63) \<le> i \<Longrightarrow> i < 2 ^ 63 \<Longrightarrow> - (2 ^ 63) \<le> j \<Longrightarrow> j < 2 ^ 63 \<Longrightarrow>
    Itoa i = Itoa j \<longleftrightarrow> i = j"
  by (metis Atoi_Itoa fst_conv)

section \<open>strconv.ParseBool and fmt's booleans\<close>

definition ParseBool :: "string \<Rightarrow> bool \<times> num_error option" where
  "ParseBool s =
     (if s \<in> set [''1'', ''t'', ''T'', ''true'', ''TRUE'', ''True''] then (True, None)
      else if s \<in> set [''0'', ''f'', ''F'', ''false'', ''FALSE'', ''False''] then (False, None)
      else (False, Some ErrSyntax))"

definition FormatBool :: "bool \<Rightarrow> string" where
  "FormatBool b = (if b then ''true'' else ''false'')"

lemma ParseBool_FormatBool [simp]: "ParseBool (FormatBool b) = (b, None)"
  by (cases b) (simp_all add: ParseBool_def FormatBool_def)

end
