(* ===== verification/Canary_Config.thy ===== *)
theory Canary_Config
  imports Go_Runtime Go_Strings "HOL-Library.AList"
begin

text \<open>
  The configuration of the tool, \<open>internal/config/canary_config.go\<close>: the environment variables and
  their defaults, the parsing of each kind of value, and the printing of a configuration with its
  secrets masked. The environment is a partial function from variable names to values;
  \<open>strconv.ParseFloat\<close> is an argument, since the program only hands its results on to Prometheus,
  and so is the formatting of float slices by \<open>fmt\<close>. A map of the source is an association list
  with distinct keys, a nil map is \<open>None\<close>.
\<close>

named_theorems config_consts \<open>names and defaults of the environment variables\<close>

section \<open>Environment variables and defaults\<close>

definition BootstrapServersEnvVar :: "string" where [config_consts]: "BootstrapServersEnvVar = ''KAFKA_BOOTSTRAP_SERVERS''"
definition BootstrapBackoffMaxAttemptsEnvVar :: "string" where [config_consts]: "BootstrapBackoffMaxAttemptsEnvVar = ''KAFKA_BOOTSTRAP_BACKOFF_MAX_ATTEMPTS''"
definition BootstrapBackoffScaleEnvVar :: "string" where [config_consts]: "BootstrapBackoffScaleEnvVar = ''KAFKA_BOOTSTRAP_BACKOFF_SCALE''"
definition TopicEnvVar :: "string" where [config_consts]: "TopicEnvVar = ''TOPIC''"
definition TopicConfigEnvVar :: "string" where [config_consts]: "TopicConfigEnvVar = ''TOPIC_CONFIG''"
definition ReconcileIntervalEnvVar :: "string" where [config_consts]: "ReconcileIntervalEnvVar = ''RECONCILE_INTERVAL_MS''"
definition ClientIDEnvVar :: "string" where [config_consts]: "ClientIDEnvVar = ''CLIENT_ID''"
definition ConsumerGroupIDEnvVar :: "string" where [config_consts]: "ConsumerGroupIDEnvVar = ''CONSUMER_GROUP_ID''"
definition ProducerLatencyBucketsEnvVar :: "string" where [config_consts]: "ProducerLatencyBucketsEnvVar = ''PRODUCER_LATENCY_BUCKETS''"
definition EndToEndLatencyBucketsEnvVar :: "string" where [config_consts]: "EndToEndLatencyBucketsEnvVar = ''ENDTOEND_LATENCY_BUCKETS''"
definition ExpectedClusterSizeEnvVar :: "string" where [config_consts]: "ExpectedClusterSizeEnvVar = ''EXPECTED_CLUSTER_SIZE''"
definition KafkaVersionEnvVar :: "string" where [config_consts]: "KafkaVersionEnvVar = ''KAFKA_VERSION''"
definition SaramaLogEnabledEnvVar :: "string" where [config_consts]: "SaramaLogEnabledEnvVar = ''SARAMA_LOG_ENABLED''"
definition VerbosityLogLevelEnvVar :: "string" where [config_consts]: "VerbosityLogLevelEnvVar = ''VERBOSITY_LOG_LEVEL''"
definition TLSEnabledEnvVar :: "string" where [config_consts]: "TLSEnabledEnvVar = ''TLS_ENABLED''"
definition TLSCACertEnvVar :: "string" where [config_consts]: "TLSCACertEnvVar = ''TLS_CA_CERT''"
definition TLSClientCertEnvVar :: "string" where [config_consts]: "TLSClientCertEnvVar = ''TLS_CLIENT_CERT''"
definition TLSClientKeyEnvVar :: "string" where [config_consts]: "TLSClientKeyEnvVar = ''TLS_CLIENT_KEY''"
definition TLSInsecureSkipVerifyEnvVar :: "string" where [config_consts]: "TLSInsecureSkipVerifyEnvVar = ''TLS_INSECURE_SKIP_VERIFY''"
definition SASLMechanismEnvVar :: "string" where [config_consts]: "SASLMechanismEnvVar = ''SASL_MECHANISM''"
definition SASLUserEnvVar :: "string" where [config_consts]: "SASLUserEnvVar = ''SASL_USER''"
definition SASLPasswordEnvVar :: "string" where [config_consts]: "SASLPasswordEnvVar = ''SASL_PASSWORD''"
definition ConnectionCheckIntervalEnvVar :: "string" where [config_consts]: "ConnectionCheckIntervalEnvVar = ''CONNECTION_CHECK_INTERVAL_MS''"
definition ConnectionCheckLatencyBucketsEnvVar :: "string" where [config_consts]: "ConnectionCheckLatencyBucketsEnvVar = ''CONNECTION_CHECK_LATENCY_BUCKETS''"
definition StatusCheckIntervalEnvVar :: "string" where [config_consts]: "StatusCheckIntervalEnvVar = ''STATUS_CHECK_INTERVAL_MS''"
definition StatusTimeWindowEnvVar :: "string" where [config_consts]: "StatusTimeWindowEnvVar = ''STATUS_TIME_WINDOW_MS''"
definition DynamicConfigFileEnvVar :: "string" where [config_consts]: "DynamicConfigFileEnvVar = ''DYNAMIC_CONFIG_FILE''"
definition DynamicConfigWatcherIntervalEnvVar :: "string" where [config_consts]: "DynamicConfigWatcherIntervalEnvVar = ''DYNAMIC_CONFIG_WATCHER_INTERVAL''"
definition ExporterTypeTracing :: "string" where [config_consts]: "ExporterTypeTracing = ''EXPORTER_TYPE_TRACING''"
definition PrometheusConsantLabelsEnvVar :: "string" where [config_consts]: "PrometheusConsantLabelsEnvVar = ''PROMETHEUS_CONSTANT_LABELS''"
definition BootstrapServersDefault :: "string" where [config_consts]: "BootstrapServersDefault = ''localhost:9092''"
definition BootstrapBackoffMaxAttemptsDefault :: "int" where [config_consts]: "BootstrapBackoffMaxAttemptsDefault = 10"
definition BootstrapBackoffScaleDefault :: "int" where [config_consts]: "BootstrapBackoffScaleDefault = 5000"
definition TopicDefault :: "string" where [config_consts]: "TopicDefault = ''__strimzi_canary''"
definition TopicConfigDefault :: "string" where [config_consts]: "TopicConfigDefault = ''''"
definition ReconcileIntervalDefault :: "int" where [config_consts]: "ReconcileIntervalDefault = 30000"
definition ClientIDDefault :: "string" where [config_consts]: "ClientIDDefault = ''strimzi-canary-client''"
definition ConsumerGroupIDDefault :: "string" where [config_consts]: "ConsumerGroupIDDefault = ''strimzi-canary-group''"
definition ProducerLatencyBucketsDefault :: "string" where [config_consts]: "ProducerLatencyBucketsDefault = ''2,5,10,20,50,100,200,400''"
definition EndToEndLatencyBucketsDefault :: "string" where [config_consts]: "EndToEndLatencyBucketsDefault = ''5,10,20,50,100,200,400,800''"
definition ExpectedClusterSizeDefault :: "int" where [config_consts]: "ExpectedClusterSizeDefault = -1"
definition KafkaVersionDefault :: "string" where [config_consts]: "KafkaVersionDefault = ''3.2.0''"
definition SaramaLogEnabledDefault :: "bool" where [config_consts]: "SaramaLogEnabledDefault = False"
definition VerbosityLogLevelDefault :: "int" where [config_consts]: "VerbosityLogLevelDefault = 0"
definition TLSEnabledDefault :: "bool" where [config_consts]: "TLSEnabledDefault = False"
definition TLSCACertDefault :: "string" where [config_consts]: "TLSCACertDefault = ''''"
definition TLSClientCertDefault :: "string" where [config_consts]: "TLSClientCertDefault = ''''"
definition TLSClientKeyDefault :: "string" where [config_consts]: "TLSClientKeyDefault = ''''"
definition TLSInsecureSkipVerifyDefault :: "bool" where [config_consts]: "TLSInsecureSkipVerifyDefault = False"
definition SASLMechanismDefault :: "string" where [config_consts]: "SASLMechanismDefault = ''''"
definition SASLUserDefault :: "string" where [config_consts]: "SASLUserDefault = ''''"
definition SASLPasswordDefault :: "string" where [config_consts]: "SASLPasswordDefault = ''''"
definition ConnectionCheckIntervalDefault :: "int" where [config_consts]: "ConnectionCheckIntervalDefault = 120000"
definition ConnectionCheckLatencyBucketsDefault :: "string" where [config_consts]: "ConnectionCheckLatencyBucketsDefault = ''100,200,400,800,1600''"
definition StatusCheckIntervalDefault :: "int" where [config_consts]: "StatusCheckIntervalDefault = 30000"
definition StatusTimeWindowDefault :: "int" where [config_consts]: "StatusTimeWindowDefault = 300000"
definition DynamicConfigFileDefault :: "string" where [config_consts]: "DynamicConfigFileDefault = ''''"
definition DynamicConfigWatcherIntervalDefault :: "int" where [config_consts]: "DynamicConfigWatcherIntervalDefault = 30000"
definition ExporterTypeTracingDefault :: "string" where [config_consts]: "ExporterTypeTracingDefault = ''''"
definition PrometheusConsantLabelsDefault :: "string" where [config_consts]: "PrometheusConsantLabelsDefault = ''''"

section \<open>The configuration\<close>

datatype go_float = Finite rat | PosInf | NegInf | NaN

type_synonym environ = "string \<rightharpoonup> string"
type_synonym float_parser = "string \<Rightarrow> goerror + go_float"

record dynamic_config =
  SaramaLogEnabled :: "bool option"
  VerbosityLogLevel :: "int option"

record canary_config =
  Dynamic :: dynamic_config
  BootstrapServers :: "string list"
  BootstrapBackoffMaxAttempts :: int
  BootstrapBackoffScale :: duration
  Topic :: string
  TopicConfig :: "(string \<times> string) list option"
  ReconcileInterval :: duration
  ClientID :: string
  ConsumerGroupID :: string
  ProducerLatencyBuckets :: "go_float list"
  EndToEndLatencyBuckets :: "go_float list"
  ExpectedClusterSize :: int
  KafkaVersion :: string
  DynamicConfigFile :: string
  TLSEnabled :: bool
  TLSCACert :: string
  TLSClientCert :: string
  TLSClientKey :: string
  TLSInsecureSkipVerify :: bool
  SASLMechanism :: string
  SASLUser :: string
  SASLPassword :: string
  ConnectionCheckInterval :: duration
  ConnectionCheckLatencyBuckets :: "go_float list"
  StatusCheckInterval :: duration
  StatusTimeWindow :: duration
  DynamicConfigWatcherInterval :: duration
  TracingExporter :: string
  PrometheusConstantLabels :: "(string \<times> string) list option"

section \<open>Reading the environment\<close>

definition lookupStringEnv :: "environ \<Rightarrow> string \<Rightarrow> string \<Rightarrow> string" where
  "lookupStringEnv getenv envVar defaultValue =
     (case getenv envVar of None \<Rightarrow> defaultValue | Some v \<Rightarrow> v)"

definition lookupIntEnv :: "environ \<Rightarrow> string \<Rightarrow> int \<Rightarrow> int" where
  "lookupIntEnv getenv envVar defaultValue =
     (case getenv envVar of None \<Rightarrow> defaultValue | Some v \<Rightarrow> fst (Atoi v))"

definition lookupBoolEnv :: "environ \<Rightarrow> string \<Rightarrow> bool \<Rightarrow> bool" where
  "lookupBoolEnv getenv envVar defaultValue =
     (case getenv envVar of None \<Rightarrow> defaultValue | Some v \<Rightarrow> fst (ParseBool v))"

definition latencyBuckets :: "float_parser \<Rightarrow> string \<Rightarrow> crash + go_float list" where
  "latencyBuckets ParseFloat bucketsConfig =
     mapE (\<lambda>s. case ParseFloat s of
             Inl err \<Rightarrow> Inl (Fatal (''Error parsing buckets configuration for '' @ bucketsConfig))
           | Inr f \<Rightarrow> Inr f)
       (Split CHR '','' bucketsConfig)"

text \<open>The loop over the pairs; only the last pair may be empty (a trailing semicolon).\<close>

fun kv_loop :: "string list \<Rightarrow> (string \<times> string) list \<Rightarrow> crash + (string \<times> string) list" where
  "kv_loop [] kvPairMap = Inr kvPairMap"
| "kv_loop (kvPair # rest) kvPairMap =
     (if rest = [] \<and> kvPair = [] then Inr kvPairMap
      else let kv = Split CHR ''='' kvPair in
        if length kv \<noteq> 2 \<or> kv ! 0 = [] then
          Inl (Panic (ExplicitPanic (''error parsing pair ['' @ kvPair @ '']: not a valid key-value pair'')))
        else kv_loop rest (AList.update (kv ! 0) (kv ! 1) kvPairMap))"

definition convertKVPairsToMap :: "string \<Rightarrow> crash + (string \<times> string) list option" where
  "convertKVPairsToMap kvPairsStr =
     (if kvPairsStr = [] then Inr None
      else bindE (kv_loop (Split CHR '';'' kvPairsStr) []) (\<lambda>m. Inr (Some m)))"

definition convertKVPairsToPrometheusLabels :: "string \<Rightarrow> crash + (string \<times> string) list option" where
  "convertKVPairsToPrometheusLabels kvPairsStr =
     bindE (convertKVPairsToMap kvPairsStr) (\<lambda>kvPairsMap. case kvPairsMap of
         None \<Rightarrow> Inr None
       | Some m \<Rightarrow> Inr (Some (fold (\<lambda>(key, value). AList.update key value) m [])))"

definition exporterTypeTracing :: "environ \<Rightarrow> crash + string" where
  "exporterTypeTracing getenv =
     (let exporterType = lookupStringEnv getenv ExporterTypeTracing ExporterTypeTracingDefault in
      if exporterType \<noteq> ''jaeger'' \<and> exporterType \<noteq> ''otlp'' \<and> exporterType \<noteq> '''' then
        Inl (Panic (ExplicitPanic (ExporterTypeTracing @
          '' env variable possible values are : '' @ [CHR 0x27, CHR 0x27] @ '' or '' @ [CHR 0x27] @ ''jaeger''
          @ [CHR 0x27] @ '' or '' @ [CHR 0x27] @ ''otlp'' @ [CHR 0x27])))
      else Inr exporterType)"

definition NewDynamicCanaryConfig :: "environ \<Rightarrow> dynamic_config" where
  "NewDynamicCanaryConfig getenv =
     \<lparr>SaramaLogEnabled = Some (lookupBoolEnv getenv SaramaLogEnabledEnvVar SaramaLogEnabledDefault),
      VerbosityLogLevel = Some (lookupIntEnv getenv VerbosityLogLevelEnvVar VerbosityLogLevelDefault)\<rparr>"

definition NewCanaryConfig :: "environ \<Rightarrow> float_parser \<Rightarrow> crash + canary_config" where
  "NewCanaryConfig getenv ParseFloat =
     (let str = lookupStringEnv getenv; int = lookupIntEnv getenv; boolean = lookupBoolEnv getenv in
      bindE (convertKVPairsToMap (str TopicConfigEnvVar TopicConfigDefault)) (\<lambda>topicConfig.
      bindE (latencyBuckets ParseFloat (str ProducerLatencyBucketsEnvVar ProducerLatencyBucketsDefault)) (\<lambda>producerBuckets.
      bindE (latencyBuckets ParseFloat (str EndToEndLatencyBucketsEnvVar EndToEndLatencyBucketsDefault)) (\<lambda>endToEndBuckets.
      bindE (latencyBuckets ParseFloat (str ConnectionCheckLatencyBucketsEnvVar ConnectionCheckLatencyBucketsDefault)) (\<lambda>connectionBuckets.
      bindE (exporterTypeTracing getenv) (\<lambda>exporter.
      bindE (convertKVPairsToPrometheusLabels (str PrometheusConsantLabelsEnvVar PrometheusConsantLabelsDefault)) (\<lambda>lbls.
      Inr \<lparr>Dynamic = NewDynamicCanaryConfig getenv,
        BootstrapServers = Split CHR '','' (str BootstrapServersEnvVar BootstrapServersDefault),
        BootstrapBackoffMaxAttempts = int BootstrapBackoffMaxAttemptsEnvVar BootstrapBackoffMaxAttemptsDefault,
        BootstrapBackoffScale = int BootstrapBackoffScaleEnvVar BootstrapBackoffScaleDefault,
        Topic = str TopicEnvVar TopicDefault,
        TopicConfig = topicConfig,
        ReconcileInterval = int ReconcileIntervalEnvVar ReconcileIntervalDefault,
        ClientID = str ClientIDEnvVar ClientIDDefault,
        ConsumerGroupID = str ConsumerGroupIDEnvVar ConsumerGroupIDDefault,
        ProducerLatencyBuckets = producerBuckets,
        EndToEndLatencyBuckets = endToEndBuckets,
        ExpectedClusterSize = int ExpectedClusterSizeEnvVar ExpectedClusterSizeDefault,
        KafkaVersion = str KafkaVersionEnvVar KafkaVersionDefault,
        DynamicConfigFile = str DynamicConfigFileEnvVar DynamicConfigFileDefault,
        TLSEnabled = boolean TLSEnabledEnvVar TLSEnabledDefault,
        TLSCACert = str TLSCACertEnvVar TLSCACertDefault,
        TLSClientCert = str TLSClientCertEnvVar TLSClientCertDefault,
        TLSClientKey = str TLSClientKeyEnvVar TLSClientKeyDefault,
        TLSInsecureSkipVerify = boolean TLSInsecureSkipVerifyEnvVar TLSInsecureSkipVerifyDefault,
        SASLMechanism = str SASLMechanismEnvVar SASLMechanismDefault,
        SASLUser = str SASLUserEnvVar SASLUserDefault,
        SASLPassword = str SASLPasswordEnvVar SASLPasswordDefault,
        ConnectionCheckInterval = int ConnectionCheckIntervalEnvVar ConnectionCheckIntervalDefault,
        ConnectionCheckLatencyBuckets = connectionBuckets,
        StatusCheckInterval = int StatusCheckIntervalEnvVar StatusCheckIntervalDefault,
        StatusTimeWindow = int StatusTimeWindowEnvVar StatusTimeWindowDefault,
        DynamicConfigWatcherInterval = int DynamicConfigWatcherIntervalEnvVar DynamicConfigWatcherIntervalDefault,
        TracingExporter = exporter,
        PrometheusConstantLabels = lbls\<rparr>)))))))"

section \<open>Printing\<close>

definition commaPad :: "string \<Rightarrow> string" where
  "commaPad s = (if 0 < length s then s @ '', '' else s)"

definition dynamic_String :: "dynamic_config \<Rightarrow> string" where
  "dynamic_String c =
     (let s = ''{'';
          s = (case SaramaLogEnabled c of None \<Rightarrow> s | Some b \<Rightarrow> s @ ''SaramaLogEnabled:'' @ FormatBool b);
          s = (case VerbosityLogLevel c of None \<Rightarrow> s
                | Some l \<Rightarrow> commaPad s @ ''VerbosityLogLevel:'' @ Itoa l)
      in s @ ''}'')"

text \<open>\<open>%s\<close> of a string slice and \<open>%v\<close> of a string map (sorted by key; a nil map prints as an empty one).\<close>

definition fmt_strings :: "string list \<Rightarrow> string" where
  "fmt_strings ss = ''['' @ Join CHR '' '' ss @ '']''"

definition fmt_map :: "(string \<times> string) list option \<Rightarrow> string" where
  "fmt_map m = ''map['' @ Join CHR '' ''
     (map (\<lambda>(k, v). k @ '':'' @ v) (sort_key fst (case m of None \<Rightarrow> [] | Some kvs \<Rightarrow> kvs))) @ '']''"

definition placeholder :: "string \<Rightarrow> string \<Rightarrow> string" where
  "placeholder value shown = (if value \<noteq> '''' then shown else '''')"

definition config_String :: "(go_float list \<Rightarrow> string) \<Rightarrow> string \<Rightarrow> canary_config \<Rightarrow> string" where
  "config_String fmt_floats SASLTypePlaintext c =
     (let caCert = placeholder (TLSCACert c) ''[CA cert]'';
          clientCert = placeholder (TLSClientCert c) ''[Client cert]'';
          clientKey = placeholder (TLSClientKey c) ''[Client key]'';
          (user, password) =
            (if SASLMechanism c = SASLTypePlaintext
             then (placeholder (SASLUser c) ''[SASL user]'', placeholder (SASLPassword c) ''[SASL password]'')
             else ('''', ''''))
      in ''{BootstrapServers:'' @ fmt_strings (BootstrapServers c)
       @ '', BootstrapBackoffMaxAttempts:'' @ Itoa (BootstrapBackoffMaxAttempts c)
       @ '', BootstrapBackoffScale:'' @ Itoa (BootstrapBackoffScale c)
       @ '', Topic:'' @ Topic c @ '', TopicConfig:'' @ fmt_map (TopicConfig c)
       @ '', ReconcileInterval:'' @ Itoa (ReconcileInterval c)
       @ '' ms, ClientID:'' @ ClientID c @ '', ConsumerGroupID:'' @ ConsumerGroupID c
       @ '', ProducerLatencyBuckets:'' @ fmt_floats (ProducerLatencyBuckets c)
       @ '', EndToEndLatencyBuckets:'' @ fmt_floats (EndToEndLatencyBuckets c)
       @ '', ExpectedClusterSize:'' @ Itoa (ExpectedClusterSize c)
       @ '', KafkaVersion:'' @ KafkaVersion c @ '',TLSEnabled:'' @ FormatBool (TLSEnabled c)
       @ '', TLSCACert:'' @ caCert @ '', TLSClientCert:'' @ clientCert @ '', TLSClientKey:'' @ clientKey
       @ '', TLSInsecureSkipVerify:'' @ FormatBool (TLSInsecureSkipVerify c)
       @ '',SASLMechanism:'' @ SASLMechanism c @ '', SASLUser:'' @ user @ '', SASLPassword:'' @ password
       @ '', ConnectionCheckInterval:'' @ Itoa (ConnectionCheckInterval c)
       @ '' ms, ConnectionCheckLatencyBuckets:'' @ fmt_floats (ConnectionCheckLatencyBuckets c)
       @ '', StatusCheckInterval:'' @ Itoa (StatusCheckInterval c)
       @ '' ms, StatusTimeWindow:'' @ Itoa (StatusTimeWindow c)
       @ '' ms,DynamicConfigFile: '' @ DynamicConfigFile c
       @ '', DynamicCanaryConfig: '' @ dynamic_String (Dynamic c)
       @ '', DynamicConfigWatcherInterval: '' @ Itoa (DynamicConfigWatcherInterval c) @ '' ms}'')"


section \<open>Properties\<close>

text \<open>The reference of the pair parser: the pieces, which are well formed, and what they assign.\<close>

definition pieces :: "string \<Rightarrow> string list" where
  "pieces s = (let ps = Split CHR '';'' s in if last ps = [] then butlast ps else ps)"

definition well_formed :: "string \<Rightarrow> bool" where
  "well_formed p \<longleftrightarrow> length (Split CHR ''='' p) = 2 \<and> Split CHR ''='' p ! 0 \<noteq> []"

definition not_a_pair :: "string \<Rightarrow> crash" where
  "not_a_pair p = Panic (ExplicitPanic (''error parsing pair ['' @ p @ '']: not a valid key-value pair''))"

definition assign :: "string list \<Rightarrow> (string \<times> string) list \<Rightarrow> (string \<times> string) list" where
  "assign ps m = fold (\<lambda>p. AList.update (Split CHR ''='' p ! 0) (Split CHR ''='' p ! 1)) ps m"

lemma kv_loop_reference:
  "ps \<noteq> [] \<Longrightarrow> kv_loop ps m =
     (case find (\<lambda>p. \<not> well_formed p) (if last ps = [] then butlast ps else ps) of
        Some p \<Rightarrow> Inl (not_a_pair p)
      | None \<Rightarrow> Inr (assign (if last ps = [] then butlast ps else ps) m))"
proof (induction ps m rule: kv_loop.induct)
  case (2 kvPair rest m)
  show ?case
  proof (cases "rest = []")
    case True
    then show ?thesis by (auto simp: well_formed_def not_a_pair_def assign_def Let_def)
  next
    case False
    with 2 show ?thesis by (auto simp: well_formed_def not_a_pair_def assign_def Let_def split: option.splits)
  qed
qed simp

lemma convertKVPairsToMap_reference:
  "s \<noteq> [] \<Longrightarrow> convertKVPairsToMap s = (case find (\<lambda>p. \<not> well_formed p) (pieces s) of
        Some p \<Rightarrow> Inl (not_a_pair p) | None \<Rightarrow> Inr (Some (assign (pieces s) [])))"
  by (auto simp: convertKVPairsToMap_def kv_loop_reference pieces_def Let_def split: option.splits)

lemma pieces_Nil [simp]: "pieces [] = []"
  by (simp add: pieces_def)

lemma find_None_iff_all: "find (\<lambda>p. \<not> P p) ps = None \<longleftrightarrow> (\<forall>p\<in>set ps. P p)"
  by (auto simp: find_None_iff)

lemma convertKVPairsToMap_accepts:
  "(\<exists>m. convertKVPairsToMap s = Inr m) \<longleftrightarrow> (\<forall>p\<in>set (pieces s). well_formed p)"
proof (cases "s = []")
  case True
  then show ?thesis by (simp add: convertKVPairsToMap_def)
next
  case False
  then show ?thesis
    by (auto simp: convertKVPairsToMap_reference find_None_iff_all [symmetric] split: option.splits)
qed

definition render :: "(string \<times> string) list \<Rightarrow> string" where
  "render kvs = Join CHR '';'' (map (\<lambda>(k, v). k @ ''='' @ v) kvs)"

definition clean :: "string \<times> string \<Rightarrow> bool" where
  "clean kv \<longleftrightarrow> fst kv \<noteq> [] \<and> set (fst kv) \<inter> {CHR ''='', CHR '';''} = {} \<and> set (snd kv) \<inter> {CHR ''='', CHR '';''} = {}"

lemma clean_pair:
  "clean (k, v) \<Longrightarrow> Split CHR ''='' (k @ CHR ''='' # v) = [k, v] \<and> CHR '';'' \<notin> set (k @ CHR ''='' # v)"
  by (auto simp: clean_def Split_append Split_no_sep)

lemma update_fresh: "k \<notin> fst ` set m \<Longrightarrow> AList.update k v m = m @ [(k, v)]"
  by (induction m) auto

lemma assign_pairs:
  "\<forall>kv\<in>set kvs. clean kv \<Longrightarrow> distinct (map fst m @ map fst kvs) \<Longrightarrow>
     assign (map (\<lambda>(k, v). k @ ''='' @ v) kvs) m = m @ kvs"
proof (induction kvs arbitrary: m)
  case (Cons kv kvs)
  obtain k v where kv: "kv = (k, v)" by (cases kv)
  with Cons.prems have "Split CHR ''='' (k @ CHR ''='' # v) = [k, v]" by (auto dest: clean_pair)
  moreover from Cons.prems kv have "AList.update k v m = m @ [(k, v)]"
    by (intro update_fresh) force
  ultimately have "assign (map (\<lambda>(k, v). k @ ''='' @ v) (kv # kvs)) m
      = assign (map (\<lambda>(k, v). k @ ''='' @ v) kvs) (m @ [(k, v)])"
    by (simp add: assign_def kv)
  also have "\<dots> = (m @ [(k, v)]) @ kvs"
    using Cons.prems kv by (intro Cons.IH) auto
  finally show ?case by (simp add: kv)
qed (simp add: assign_def)

lemma pieces_render:
  assumes "kvs \<noteq> []" "\<forall>kv\<in>set kvs. clean kv"
  shows "pieces (render kvs) = map (\<lambda>(k, v). k @ ''='' @ v) kvs"
    and "pieces (render kvs @ '';'') = map (\<lambda>(k, v). k @ ''='' @ v) kvs"
proof -
  let ?ps = "map (\<lambda>(k, v). k @ ''='' @ v) kvs"
  have sep: "\<forall>p\<in>set ?ps. CHR '';'' \<notin> set p" using assms by (fastforce dest: clean_pair)
  have "Split CHR '';'' (render kvs) = ?ps"
    unfolding render_def using assms(1) sep by (intro Split_Join) auto
  moreover have "last ?ps \<noteq> []" using assms(1) by (auto simp: last_map split: prod.splits)
  ultimately show "pieces (render kvs) = ?ps" by (simp add: pieces_def)
  have "render kvs @ '';'' = Join CHR '';'' (?ps @ [[]])"
    using assms(1) by (simp add: render_def Join_snoc)
  moreover have "Split CHR '';'' (Join CHR '';'' (?ps @ [[]])) = ?ps @ [[]]"
    using sep by (intro Split_Join) auto
  ultimately show "pieces (render kvs @ '';'') = ?ps" by (simp add: pieces_def)
qed

text \<open>
  Topic configurations and constant labels survive the environment. A non-empty list of
  pairs with distinct non-empty keys and no semicolon or equals sign in keys or values, printed as
  key=value pairs separated by semicolons, with or without a trailing semicolon, is read back as
  the same pairs, as a topic configuration and as Prometheus labels.
\<close>

theorem kv_pairs_round_trip:
  assumes "kvs \<noteq> []" "\<forall>kv\<in>set kvs. clean kv" "distinct (map fst kvs)" "tail = '''' \<or> tail = '';''"
  shows "convertKVPairsToMap (render kvs @ tail) = Inr (Some kvs)
       \<and> convertKVPairsToPrometheusLabels (render kvs @ tail) = Inr (Some kvs)"
proof -
  let ?ps = "map (\<lambda>(k, v). k @ ''='' @ v) kvs"
  from assms have ps: "pieces (render kvs @ tail) = ?ps" using pieces_render by auto
  have "\<forall>p\<in>set ?ps. well_formed p"
    using assms(2) by (auto simp: well_formed_def clean_def Split_append Split_no_sep)
  moreover from ps assms(1) have "render kvs @ tail \<noteq> []" by (auto dest: arg_cong [of _ _ pieces])
  ultimately have m: "convertKVPairsToMap (render kvs @ tail) = Inr (Some kvs)"
    using assms(2,3) assign_pairs [of kvs "[]"] ps
    by (simp add: convertKVPairsToMap_reference find_None_iff_all [THEN iffD2])
  have "fold (\<lambda>(key, value). AList.update key value) kvs m = m @ kvs" if "distinct (map fst m @ map fst kvs)" for m
    using that
  proof (induction kvs arbitrary: m)
    case (Cons kv kvs)
    then show ?case by (cases kv) (auto simp: update_fresh)
  qed simp
  from this [of "[]"] m assms(3) show ?thesis by (simp add: convertKVPairsToPrometheusLabels_def)
qed

theorem kv_pairs_round_trip_witness:
  "convertKVPairsToMap ''a=1;b=;'' = Inr (Some [(''a'', ''1''), (''b'', '''')])"
  using kv_pairs_round_trip [of "[(''a'', ''1''), (''b'', '''')]" "'';''"]
  by (simp add: render_def clean_def)


lemma bindE_accepts: "(\<exists>b. bindE r f = Inr b) \<longleftrightarrow> (\<exists>a. r = Inr a \<and> (\<exists>b. f a = Inr b))"
  by (auto simp: bindE_Inr_iff)

lemma bindE6_accepts:
  "(\<exists>x. bindE r1 (\<lambda>a. bindE r2 (\<lambda>b. bindE r3 (\<lambda>c. bindE r4 (\<lambda>d. bindE r5 (\<lambda>e. bindE r6 (\<lambda>f.
      Inr (g a b c d e f))))))) = Inr x) \<longleftrightarrow>
   (\<exists>a. r1 = Inr a) \<and> (\<exists>a. r2 = Inr a) \<and> (\<exists>a. r3 = Inr a) \<and> (\<exists>a. r4 = Inr a) \<and> (\<exists>a. r5 = Inr a) \<and> (\<exists>a. r6 = Inr a)"
  by (simp add: bindE_accepts)

lemma mapE_accepts: "(\<exists>ys. mapE f xs = Inr ys) \<longleftrightarrow> (\<forall>x\<in>set xs. \<exists>y. f x = Inr y)"
  by (induction xs) (auto simp: bindE_Inr_iff)

lemma latencyBuckets_accepts:
  "(\<exists>fs. latencyBuckets ParseFloat s = Inr fs) \<longleftrightarrow> (\<forall>p\<in>set (Split CHR '','' s). \<exists>x. ParseFloat p = Inr x)"
  by (auto simp: latencyBuckets_def mapE_accepts split: sum.splits) (metis sum.exhaust)+

lemma convertKVPairsToPrometheusLabels_accepts:
  "(\<exists>m. convertKVPairsToPrometheusLabels s = Inr m) \<longleftrightarrow> (\<forall>p\<in>set (pieces s). well_formed p)"
  unfolding convertKVPairsToMap_accepts [symmetric] convertKVPairsToPrometheusLabels_def
  by (cases "convertKVPairsToMap s") (auto split: option.splits)

lemma NewCanaryConfig_accepts:
  "(\<exists>c. NewCanaryConfig getenv ParseFloat = Inr c) \<longleftrightarrow>
      (\<exists>m. convertKVPairsToMap (lookupStringEnv getenv TopicConfigEnvVar TopicConfigDefault) = Inr m)
    \<and> (\<exists>f. latencyBuckets ParseFloat (lookupStringEnv getenv ProducerLatencyBucketsEnvVar ProducerLatencyBucketsDefault) = Inr f)
    \<and> (\<exists>f. latencyBuckets ParseFloat (lookupStringEnv getenv EndToEndLatencyBucketsEnvVar EndToEndLatencyBucketsDefault) = Inr f)
    \<and> (\<exists>f. latencyBuckets ParseFloat (lookupStringEnv getenv ConnectionCheckLatencyBucketsEnvVar ConnectionCheckLatencyBucketsDefault) = Inr f)
    \<and> (\<exists>e. exporterTypeTracing getenv = Inr e)
    \<and> (\<exists>m. convertKVPairsToPrometheusLabels (lookupStringEnv getenv PrometheusConsantLabelsEnvVar PrometheusConsantLabelsDefault) = Inr m)"
  unfolding NewCanaryConfig_def Let_def by (subst bindE6_accepts) blast

text \<open>
  C37: which environments the tool starts with. The configuration is accepted exactly when the
  three bucket lists parse, the topic configuration and the constant labels consist of key=value
  pairs, and the exporter is one of the known ones; no other value, whatever its form, is
  refused.
\<close>

theorem configuration_accepted_iff:
  "(\<exists>c. NewCanaryConfig getenv ParseFloat = Inr c) \<longleftrightarrow>
     (\<forall>p \<in> set (Split CHR '','' (lookupStringEnv getenv ProducerLatencyBucketsEnvVar ProducerLatencyBucketsDefault))
          \<union> set (Split CHR '','' (lookupStringEnv getenv EndToEndLatencyBucketsEnvVar EndToEndLatencyBucketsDefault))
          \<union> set (Split CHR '','' (lookupStringEnv getenv ConnectionCheckLatencyBucketsEnvVar ConnectionCheckLatencyBucketsDefault)).
        \<exists>x. ParseFloat p = Inr x)
     \<and> (\<forall>p \<in> set (pieces (lookupStringEnv getenv TopicConfigEnvVar TopicConfigDefault))
          \<union> set (pieces (lookupStringEnv getenv PrometheusConsantLabelsEnvVar PrometheusConsantLabelsDefault)).
        well_formed p)
     \<and> lookupStringEnv getenv ExporterTypeTracing ExporterTypeTracingDefault \<in> {'''', ''jaeger'', ''otlp''}"
proof -
  have exporter: "(\<exists>e. exporterTypeTracing getenv = Inr e) \<longleftrightarrow>
      lookupStringEnv getenv ExporterTypeTracing ExporterTypeTracingDefault \<in> {'''', ''jaeger'', ''otlp''}"
    by (auto simp: exporterTypeTracing_def Let_def)
  show ?thesis
    unfolding NewCanaryConfig_accepts convertKVPairsToMap_accepts latencyBuckets_accepts exporter convertKVPairsToPrometheusLabels_accepts
    by (simp only: ball_Un) blast
qed

theorem configuration_accepted_iff_witness:
  "\<exists>c. NewCanaryConfig [''TOPIC_CONFIG'' \<mapsto> ''a=1;''] (\<lambda>s. Inr (Finite 1)) = Inr c"
proof -
  let ?env = "[''TOPIC_CONFIG'' \<mapsto> ''a=1;'']"
  have "pieces (lookupStringEnv ?env TopicConfigEnvVar TopicConfigDefault) = [''a=1'']"
    "pieces (lookupStringEnv ?env PrometheusConsantLabelsEnvVar PrometheusConsantLabelsDefault) = []"
    "lookupStringEnv ?env ExporterTypeTracing ExporterTypeTracingDefault = ''''"
    by (simp_all add: lookupStringEnv_def config_consts pieces_def)
  moreover have "well_formed ''a=1''" by (simp add: well_formed_def)
  ultimately show ?thesis
    using configuration_accepted_iff [of ?env "\<lambda>s. Inr (Finite 1)"] by simp
qed

lemma Atoi_range: "- (2 ^ 63) \<le> fst (Atoi s) \<and> fst (Atoi s) < 2 ^ 63"
proof -
  have "- (2 ^ 63) \<le> fst (signed_result neg r) \<and> fst (signed_result neg r) < 2 ^ 63" for neg r
    by (auto simp: signed_result_def split: sum.splits num_error.splits)
  then show ?thesis by (simp add: Atoi_def split: list.splits)
qed

lemma Atoi_syntax: "snd (Atoi s) = Some ErrSyntax \<Longrightarrow> fst (Atoi s) = 0"
proof -
  have "snd (signed_result neg r) = Some ErrSyntax \<Longrightarrow> fst (signed_result neg r) = 0" for neg r
    by (auto simp: signed_result_def split: sum.splits num_error.splits if_splits)
  then show "snd (Atoi s) = Some ErrSyntax \<Longrightarrow> fst (Atoi s) = 0"
    by (auto simp: Atoi_def split: list.splits if_splits)
qed

text \<open>
  Integer settings. An unset variable gives the default. A set one never stops the tool: a
  canonical decimal numeral of a 64-bit integer is read exactly, every value read is a 64-bit
  integer, and text that is not a numeral silently becomes 0.
\<close>

theorem integer_setting:
  "lookupIntEnv getenv v d = (case getenv v of None \<Rightarrow> d | Some s \<Rightarrow> fst (Atoi s))
   \<and> (\<forall>s. getenv v = Some s \<longrightarrow> - (2 ^ 63) \<le> lookupIntEnv getenv v d \<and> lookupIntEnv getenv v d < 2 ^ 63
        \<and> (snd (Atoi s) = Some ErrSyntax \<longrightarrow> lookupIntEnv getenv v d = 0)
        \<and> (\<forall>i. - (2 ^ 63) \<le> i \<and> i < 2 ^ 63 \<and> s = Itoa i \<longrightarrow> lookupIntEnv getenv v d = i))"
  using Atoi_range Atoi_syntax by (auto simp: lookupIntEnv_def Atoi_Itoa)

theorem integer_setting_witness:
  "lookupIntEnv [''X'' \<mapsto> Itoa (-17)] ''X'' 5 = -17 \<and> lookupIntEnv [''X'' \<mapsto> ''5s''] ''X'' 5 = 0"
proof -
  have "snd (Atoi ''5s'') = Some ErrSyntax"
    by (simp add: Atoi_def ParseUint_def digit_val_def signed_result_def)
  then show ?thesis
    using integer_setting [of "[''X'' \<mapsto> Itoa (-17)]" "''X''" 5] integer_setting [of "[''X'' \<mapsto> ''5s'']" "''X''" 5]
    by (simp add: Atoi_Itoa)
qed

definition with_secrets :: "canary_config \<Rightarrow> string \<Rightarrow> string \<Rightarrow> string \<Rightarrow> string \<Rightarrow> string \<Rightarrow> canary_config" where
  "with_secrets c ca cert key user password =
     c\<lparr>TLSCACert := ca, TLSClientCert := cert, TLSClientKey := key, SASLUser := user, SASLPassword := password\<rparr>"

lemma with_secrets_fields:
  "TLSCACert (with_secrets c ca cert key user password) = ca"
  "TLSClientCert (with_secrets c ca cert key user password) = cert"
  "TLSClientKey (with_secrets c ca cert key user password) = key"
  "SASLUser (with_secrets c ca cert key user password) = user"
  "SASLPassword (with_secrets c ca cert key user password) = password"
  "BootstrapServers (with_secrets c ca cert key user password) = BootstrapServers c"
  "BootstrapBackoffMaxAttempts (with_secrets c ca cert key user password) = BootstrapBackoffMaxAttempts c"
  "BootstrapBackoffScale (with_secrets c ca cert key user password) = BootstrapBackoffScale c"
  "Topic (with_secrets c ca cert key user password) = Topic c"
  "TopicConfig (with_secrets c ca cert key user password) = TopicConfig c"
  "ReconcileInterval (with_secrets c ca cert key user password) = ReconcileInterval c"
  "ClientID (with_secrets c ca cert key user password) = ClientID c"
  "ConsumerGroupID (with_secrets c ca cert key user password) = ConsumerGroupID c"
  "ProducerLatencyBuckets (with_secrets c ca cert key user password) = ProducerLatencyBuckets c"
  "EndToEndLatencyBuckets (with_secrets c ca cert key user password) = EndToEndLatencyBuckets c"
  "ExpectedClusterSize (with_secrets c ca cert key user password) = ExpectedClusterSize c"
  "KafkaVersion (with_secrets c ca cert key user password) = KafkaVersion c"
  "TLSEnabled (with_secrets c ca cert key user password) = TLSEnabled c"
  "TLSInsecureSkipVerify (with_secrets c ca cert key user password) = TLSInsecureSkipVerify c"
  "SASLMechanism (with_secrets c ca cert key user password) = SASLMechanism c"
  "ConnectionCheckInterval (with_secrets c ca cert key user password) = ConnectionCheckInterval c"
  "ConnectionCheckLatencyBuckets (with_secrets c ca cert key user password) = ConnectionCheckLatencyBuckets c"
  "StatusCheckInterval (with_secrets c ca cert key user password) = StatusCheckInterval c"
  "StatusTimeWindow (with_secrets c ca cert key user password) = StatusTimeWindow c"
  "DynamicConfigFile (with_secrets c ca cert key user password) = DynamicConfigFile c"
  "Dynamic (with_secrets c ca cert key user password) = Dynamic c"
  "DynamicConfigWatcherInterval (with_secrets c ca cert key user password) = DynamicConfigWatcherInterval c"
  by (simp_all add: with_secrets_def)

text \<open>
  C39: the configuration is logged without its secrets. Certificates, keys, user and password
  reach the printed configuration only through whether they are empty: replacing them by any other
  values that are empty in the same places does not change a character of it.
\<close>

theorem printing_hides_secrets:
  assumes "list_all2 (\<lambda>x y. (x = '''') = (y = '''')) [ca, cert, key, user, password] [ca', cert', key', user', password']"
  shows "config_String fmt_floats plain (with_secrets c ca cert key user password)
       = config_String fmt_floats plain (with_secrets c ca' cert' key' user' password')"
proof -
  from assms have p: "placeholder ca = placeholder ca'" "placeholder cert = placeholder cert'"
    "placeholder key = placeholder key'" "placeholder user = placeholder user'"
    "placeholder password = placeholder password'"
    by (simp_all add: placeholder_def fun_eq_iff)
  show ?thesis
    unfolding config_String_def with_secrets_fields Let_def p ..
qed

text \<open>
  Two details of the printed form: without a Sarama flag the dynamic part begins with a stray
  comma, and a SCRAM user and password print as empty, not as placeholders.
\<close>

lemma dynamic_String_stray_comma:
  "dynamic_String \<lparr>SaramaLogEnabled = None, VerbosityLogLevel = Some l\<rparr> = ''{, VerbosityLogLevel:'' @ Itoa l @ ''}''"
  by (simp add: dynamic_String_def commaPad_def)

end
