(* ===== verification/Simulated_Cluster.thy ===== *)
theory Simulated_Cluster
  imports Sarama_Api Canary_Config
begin

text \<open>
  A small Kafka cluster that answers the external operations, used only to show that the
  hypotheses of the theorems can hold and to evaluate the services on concrete inputs. It has a
  clock, the brokers that are up, the partitions of the canary topic once it exists, a number of
  polls for which a reassignment stays in progress, and an error that every admin request reports
  when it is set. Nothing in the model of the program depends on it.
\<close>

record cluster =
  now_ns :: int
  brokers_up :: "broker list"
  kafka_topic :: "partition_metadata list option"
  moves_left :: nat
  failing :: "goerror option"

definition described :: "cluster \<Rightarrow> string \<Rightarrow> topic_metadata" where
  "described e name = (case kafka_topic e of
       None \<Rightarrow> \<lparr>tm_Err = ErrUnknownTopicOrPartition, tm_Name = name, tm_Partitions = []\<rparr>
     | Some ps \<Rightarrow> \<lparr>tm_Err = ErrNoError, tm_Name = name, tm_Partitions = ps\<rparr>)"

definition placed :: "int \<Rightarrow> int list \<Rightarrow> partition_metadata" where
  "placed p rs = \<lparr>pm_ID = p, pm_Leader = hd rs, pm_Replicas = rs\<rparr>"

definition moving :: "nat \<Rightarrow> reassignment_status" where
  "moving n = \<lparr>AddingReplicas = replicate (if n = 0 then 0 else 1) 0, RemovingReplicas = []\<rparr>"

definition or_failing :: "cluster \<Rightarrow> 'a \<times> cluster \<Rightarrow> (goerror + 'a) \<times> cluster" where
  "or_failing e r = (case failing e of Some err \<Rightarrow> (Inl err, e) | None \<Rightarrow> (Inr (fst r), snd r))"

definition unless_failing :: "cluster \<Rightarrow> cluster \<Rightarrow> goerror option \<times> cluster" where
  "unless_failing e e' = (case failing e of Some err \<Rightarrow> (Some err, e) | None \<Rightarrow> (None, e'))"

definition sim_api :: "cluster externals" where
  "sim_api = \<lparr>
     x_MustRegister = (\<lambda>name consts vars. None),
     x_now = (\<lambda>e. (now_ns e, e\<lparr>now_ns := now_ns e + 3000000\<rparr>)),
     x_sleep = (\<lambda>d e. ((), e\<lparr>now_ns := now_ns e + d, moves_left := moves_left e - 1\<rparr>)),
     x_NewClusterAdmin = (\<lambda>bs c e. (Inr 7, e)),
     x_DescribeCluster = (\<lambda>h e. ((brokers_up e, failing e), e)),
     x_DescribeTopics = (\<lambda>h ts e. or_failing e (map (described e) ts, e)),
     x_CreateTopic = (\<lambda>h t d e. unless_failing e
        (e\<lparr>kafka_topic := Some (map (\<lambda>(p, rs). placed p rs) (td_ReplicaAssignment d))\<rparr>)),
     x_CreatePartitions = (\<lambda>h t n rows e. unless_failing e
        (e\<lparr>kafka_topic := map_option (\<lambda>ps. ps @ map2 placed (map (\<lambda>i. int (length ps + i)) [0..<length rows]) rows)
                     (kafka_topic e)\<rparr>)),
     x_AlterConfig = (\<lambda>h t kvs e. unless_failing e e),
     x_AlterPartitionReassignments = (\<lambda>h t rows e. unless_failing e
        (e\<lparr>kafka_topic := map_option (\<lambda>ps. map2 (\<lambda>p rs. placed (pm_ID p) rs) ps rows) (kafka_topic e)\<rparr>)),
     x_ListPartitionReassignments = (\<lambda>h t ps e. or_failing e ([t \<mapsto> [(0, moving (moves_left e))]], e)),
     x_AdminClose = (\<lambda>h e. (None, e)),
     x_NewClient = (\<lambda>bs c e. or_failing e (9, e)),
     x_ClientClose = (\<lambda>h e. (None, e)),
     x_RefreshMetadata = (\<lambda>h t e. (failing e, e)),
     x_Partitions = (\<lambda>h t e. or_failing e
        (case kafka_topic e of None \<Rightarrow> [] | Some ps \<Rightarrow> map pm_ID ps, e)),
     x_Leader = (\<lambda>h t p e. or_failing e
        (\<lparr>ID = (case kafka_topic e of None \<Rightarrow> -1 | Some ps \<Rightarrow>
            (case find (\<lambda>q. pm_ID q = p) ps of None \<Rightarrow> -1 | Some q \<Rightarrow> pm_Leader q)), Rack = ''''\<rparr>, e)),
     x_NewSyncProducer = (\<lambda>c e. or_failing e (11, e)),
     x_NewConsumerGroup = (\<lambda>g c e. or_failing e (13, e)),
     x_GroupConsume = (\<lambda>h t e. ((failing e = None, failing e), e)),
     x_ContextCancelled = (\<lambda>i e. (True, e)),
     x_WaitReady = (\<lambda>d e. (failing e \<noteq> None, e)),
     x_CancelContext = (\<lambda>i e. ((), e)),
     x_SendMessage = (\<lambda>h m e. or_failing e ((msg_Partition m, 0), e)),
     x_ProducerClose = (\<lambda>h e. (None, e)),
     x_MarkMessage = (\<lambda>m e. ((), e)),
     x_ConsumerGroupClose = (\<lambda>h e. (None, e)),
     x_BrokerOpen = (\<lambda>b c e. (None, e)),
     x_BrokerConnected = (\<lambda>b e. ((b \<in> set (map ID (brokers_up e)), None), e)),
     x_BrokerClose = (\<lambda>b e. (None, e))\<rparr>"

lemmas cluster_defs = sim_api_def described_def placed_def moving_def or_failing_def unless_failing_def

definition start_world :: "cluster \<Rightarrow> cluster world" where
  "start_world e = \<lparr>env = e, counter = Map.empty, histogram = (\<lambda>_. []), calls = [],
     RecordsProducedCounter = 0, RecordsConsumedCounter = 0\<rparr>"

definition three_brokers :: cluster where
  "three_brokers = \<lparr>now_ns = 0, brokers_up = [\<lparr>ID = 0, Rack = ''''\<rparr>, \<lparr>ID = 1, Rack = ''''\<rparr>, \<lparr>ID = 2, Rack = ''''\<rparr>],
     kafka_topic = None, moves_left = 2, failing = None\<rparr>"

definition one_partition :: cluster where
  "one_partition = three_brokers\<lparr>kafka_topic := Some [placed 0 [0]]\<rparr>"

lemmas cluster_states = start_world_def three_brokers_def one_partition_def

definition sample_config :: canary_config where
  "sample_config = \<lparr>Dynamic = \<lparr>SaramaLogEnabled = Some False, VerbosityLogLevel = Some 0\<rparr>,
     BootstrapServers = [''kafka:9092''], BootstrapBackoffMaxAttempts = 3, BootstrapBackoffScale = 5000,
     Topic = ''canary'', TopicConfig = Some [(''retention.ms'', ''600000''), (''cleanup.policy'', ''compact'')],
     ReconcileInterval = 30000, ClientID = ''client'', ConsumerGroupID = ''group'',
     ProducerLatencyBuckets = [Finite 1], EndToEndLatencyBuckets = [Finite 1], ExpectedClusterSize = -1,
     KafkaVersion = ''3.2.0'', DynamicConfigFile = '''', TLSEnabled = False, TLSCACert = '''',
     TLSClientCert = '''', TLSClientKey = '''', TLSInsecureSkipVerify = False, SASLMechanism = '''',
     SASLUser = '''', SASLPassword = '''', ConnectionCheckInterval = 120000,
     ConnectionCheckLatencyBuckets = [Finite 1], StatusCheckInterval = 30000, StatusTimeWindow = 300000,
     DynamicConfigWatcherInterval = 30000, TracingExporter = '''', PrometheusConstantLabels = None\<rparr>"

text \<open>An environment from which this configuration is read.\<close>

definition sample_env :: environ where
  "sample_env = map_of [(BootstrapServersEnvVar, ''kafka:9092''), (BootstrapBackoffMaxAttemptsEnvVar, ''3''),
     (TopicEnvVar, ''canary''), (TopicConfigEnvVar, ''retention.ms=600000;cleanup.policy=compact''),
     (ClientIDEnvVar, ''client''), (ConsumerGroupIDEnvVar, ''group''), (ProducerLatencyBucketsEnvVar, ''1''),
     (EndToEndLatencyBucketsEnvVar, ''1''), (ConnectionCheckLatencyBucketsEnvVar, ''1'')]"

lemma sample_accepted: "NewCanaryConfig sample_env (\<lambda>_. Inr (Finite 1)) = Inr sample_config"
proof -
  have "Split CHR '';'' ''retention.ms=600000;cleanup.policy=compact'' = [''retention.ms=600000'', ''cleanup.policy=compact'']"
    using Split_Join [of "[''retention.ms=600000'', ''cleanup.policy=compact'']" "CHR '';''"] by (simp del: Split.simps)
  moreover have "Split CHR ''='' ''retention.ms=600000'' = [''retention.ms'', ''600000'']"
    "Split CHR ''='' ''cleanup.policy=compact'' = [''cleanup.policy'', ''compact'']"
    using Split_Join [of "[''retention.ms'', ''600000'']" "CHR ''=''"]
      Split_Join [of "[''cleanup.policy'', ''compact'']" "CHR ''=''"] by (simp_all del: Split.simps)
  ultimately have kv: "convertKVPairsToMap ''retention.ms=600000;cleanup.policy=compact''
      = Inr (Some [(''retention.ms'', ''600000''), (''cleanup.policy'', ''compact'')])"
    by (simp add: convertKVPairsToMap_def Let_def del: Split.simps)
  have none: "convertKVPairsToPrometheusLabels '''' = Inr None" by (simp add: convertKVPairsToPrometheusLabels_def convertKVPairsToMap_def)
  have n: "Atoi ''3'' = (3, None)" by (simp add: Atoi_def ParseUint_def signed_result_def digit_val_def)
  have b: "latencyBuckets (\<lambda>_. Inr (Finite 1)) ''1'' = Inr [Finite 1]" by (simp add: latencyBuckets_def)
  have s: "Split CHR '','' ''kafka:9092'' = [''kafka:9092'']" by (rule Split_no_sep) simp
  show ?thesis
    by (simp add: NewCanaryConfig_def NewDynamicCanaryConfig_def exporterTypeTracing_def lookupStringEnv_def lookupIntEnv_def
        lookupBoolEnv_def sample_env_def config_consts kv none n b s sample_config_def Let_def del: Split.simps)
qed

definition sample_sarama :: sarama_config where
  "sample_sarama = \<lparr>sc_Version = ''3.2.0'', sc_ClientID = ''client'', sc_ManualPartitioner = True,
     sc_ReturnSuccesses = True, sc_WaitForAll = True, sc_RetryMax = 0, sc_ConsumerReturnErrors = True,
     sc_TLSEnable = False, sc_TLSConfig = None,
     sc_SASL = \<lparr>sasl_Enable = False, sasl_Version = 0, sasl_Mechanism = '''', sasl_User = '''',
       sasl_Password = '''', sasl_SCRAM = None\<rparr>\<rparr>"

text \<open>What an evaluated run shows: the value returned and the requests made.\<close>

definition observed :: "('c, 'e, 'a) routine \<Rightarrow> ('c, 'e world) ctx \<Rightarrow> ('a \<times> call list) option" where
  "observed m s = (case m s of Some (Returned a s') \<Rightarrow> Some (a, calls (world s')) | _ \<Rightarrow> None)"

lemma observedD:
  "observed m s = Some (a, cs) \<Longrightarrow> \<exists>s'. m s = Some (Returned a s') \<and> calls (world s') = cs"
  by (auto simp: observed_def split: option.splits outcome.splits)

text \<open>The printed configuration does not show the secrets, for two sets of them.\<close>

theorem printing_hides_secrets_witness:
  "config_String (\<lambda>_. ''[]'') ''PLAIN'' (with_secrets sample_config ''ca'' ''cert'' ''key'' ''user'' ''secret'')
 = config_String (\<lambda>_. ''[]'') ''PLAIN'' (with_secrets sample_config ''other'' ''other'' ''other'' ''me'' ''password'')"
  by (rule printing_hides_secrets) simp

end
