(* ===== verification/Topic_Service.thy ===== *)
theory Topic_Service
  imports Topic_Assignment Canary_Config Simulated_Cluster
begin

text \<open>
  The topic service, \<open>internal/services/topic.go\<close>: creation and reassignment of the canary topic
  through the cluster admin client, which is opened lazily and closed on a disconnection. One
  definition per function of the source, on the service's state (\<open>topic_service\<close>) and the world;
  log output is left out, except that \<open>logTopicMetadata\<close> sorts the partitions in place. The loop
  that waits for a reassignment is a \<^theory_text>\<open>partial_function (option)\<close>.
\<close>

section \<open>State and results\<close>

record reconcile_result =
  Assignments :: "(int \<times> int list) list"
  Leaders :: "(int \<times> int) list"
  RefreshProducerMetadata :: bool

definition no_result :: reconcile_result where
  "no_result = \<lparr>Assignments = [], Leaders = [], RefreshProducerMetadata = False\<rparr>"

record topic_service =
  ts_canaryConfig :: canary_config
  ts_saramaConfig :: sarama_config
  ts_admin :: "handle option"
  ts_initialized :: bool

type_synonym ('e, 'a) topic_routine = "(topic_service, 'e, 'a) routine"

definition cleanupPolicy :: string where
  "cleanupPolicy = ''delete''"

definition topicCreationFailed :: string where
  "topicCreationFailed = ''strimzi_canary_topic_creation_failed_total''"

definition describeClusterError :: string where
  "describeClusterError = ''strimzi_canary_topic_describe_cluster_error_total''"

definition describeTopicError :: string where
  "describeTopicError = ''strimzi_canary_topic_describe_error_total''"

definition alterTopicAssignmentsError :: string where
  "alterTopicAssignmentsError = ''strimzi_canary_topic_alter_assignments_error_total''"

definition alterTopicConfigurationError :: string where
  "alterTopicConfigurationError = ''strimzi_canary_topic_alter_configuration_error_total''"

text \<open>The names of the metrics with those of their variable labels, and the service that the constructor returns.\<close>

definition topic_metrics :: "(string \<times> string list) list" where
  "topic_metrics = [(topicCreationFailed, [''topic'']), (describeClusterError, []), (describeTopicError, [''topic'']),
     (alterTopicAssignmentsError, [''topic'']), (alterTopicConfigurationError, [''topic''])]"

definition new_topic_service :: "canary_config \<Rightarrow> sarama_config \<Rightarrow> topic_service" where
  "new_topic_service canaryConfig saramaConfig =
     \<lparr>ts_canaryConfig = canaryConfig, ts_saramaConfig = saramaConfig, ts_admin = None,
      ts_initialized = False\<rparr>"

definition NewTopicService :: "'e externals \<Rightarrow> canary_config \<Rightarrow> sarama_config \<Rightarrow> ('c, 'e, topic_service) routine" where
  "NewTopicService api canaryConfig saramaConfig =
     andthen (for_each (register api (PrometheusConstantLabels canaryConfig)) topic_metrics) (\<lambda>_.
       ret (new_topic_service canaryConfig saramaConfig))"

section \<open>Requests to the admin client\<close>

text \<open>A call on the admin interface value; a nil interface panics.\<close>

definition with_admin :: "(handle \<Rightarrow> ('e, 'a) topic_routine) \<Rightarrow> ('e, 'a) topic_routine" where
  "with_admin f = andthen (get_self ts_admin) (\<lambda>admin. case admin of
       None \<Rightarrow> crash (Panic NilDereference)
     | Some h \<Rightarrow> f h)"

definition topic_name :: "('e, string) topic_routine" where
  "topic_name = get_self (\<lambda>ts. Topic (ts_canaryConfig ts))"

definition ensure_admin :: "'e externals \<Rightarrow> ('e, goerror option) topic_routine" where
  "ensure_admin api = andthen (get_self (\<lambda>ts. ts)) (\<lambda>ts. case ts_admin ts of
       Some h \<Rightarrow> ret None
     | None \<Rightarrow>
         andthen (extern (NewClusterAdmin (BootstrapServers (ts_canaryConfig ts)))
                   (x_NewClusterAdmin api (BootstrapServers (ts_canaryConfig ts)) (ts_saramaConfig ts)))
           (\<lambda>r. case r of
              Inl err \<Rightarrow> ret (Some err)
            | Inr h \<Rightarrow> andthen (set_self (ts_admin_update (\<lambda>_. Some h))) (\<lambda>_. ret None)))"

definition describeCanaryTopic :: "'e externals \<Rightarrow> ('e, goerror + topic_metadata) topic_routine" where
  "describeCanaryTopic api = andthen topic_name (\<lambda>topic.
     andthen (with_admin (\<lambda>h. extern (DescribeTopics h [topic]) (x_DescribeTopics api h [topic])))
       (\<lambda>r. case r of
          Inl err \<Rightarrow> andthen (metric_inc describeTopicError [(''topic'', topic)]) (\<lambda>_. ret (Inl err))
        | Inr metadata \<Rightarrow> andthen (checked (at_index metadata 0)) (\<lambda>m. ret (Inr m))))"

definition ts_Close :: "'e externals \<Rightarrow> ('e, unit) topic_routine" where
  "ts_Close api = andthen (get_self ts_admin) (\<lambda>admin. case admin of
       None \<Rightarrow> ret ()
     | Some h \<Rightarrow>
         andthen (extern (AdminClose h) (x_AdminClose api h)) (\<lambda>err. case err of
           Some e \<Rightarrow> crash (Fatal ''Error closing the Sarama cluster admin'')
         | None \<Rightarrow> set_self (ts_admin_update (\<lambda>_. None))))"

definition config_entries :: "canary_config \<Rightarrow> (string \<times> string) list" where
  "config_entries c = (case TopicConfig c of None \<Rightarrow> [] | Some kvs \<Rightarrow> kvs)"

definition alterTopicConfiguration :: "'e externals \<Rightarrow> ('e, goerror option) topic_routine" where
  "alterTopicConfiguration api = andthen topic_name (\<lambda>topic.
     andthen (get_self (\<lambda>ts. config_entries (ts_canaryConfig ts))) (\<lambda>topicConfig.
       if length topicConfig \<noteq> 0 then
         with_admin (\<lambda>h. extern (AlterConfig h topic topicConfig) (x_AlterConfig api h topic topicConfig))
       else ret None))"

definition create_detail :: "canary_config \<Rightarrow> (int \<times> int list) list \<Rightarrow> int \<Rightarrow> topic_detail" where
  "create_detail c assignments minISR =
     (let topicConfig = config_entries c;
          topicConfig = AList.update ''min.insync.replicas'' (Itoa minISR) topicConfig;
          topicConfig = AList.update ''cleanup.policy'' cleanupPolicy topicConfig
      in \<lparr>td_NumPartitions = -1, td_ReplicationFactor = -1,
          td_ReplicaAssignment = assignments, td_ConfigEntries = topicConfig\<rparr>)"

definition createTopic :: "'e externals \<Rightarrow> broker list
    \<Rightarrow> ('e, (int \<times> int list) list \<times> goerror option) topic_routine" where
  "createTopic api brokers =
     (case requestedAssignments 0 brokers of (assignments, minISR) \<Rightarrow>
        andthen (get_self ts_canaryConfig) (\<lambda>c.
        andthen (with_admin (\<lambda>h.
            extern (CreateTopic h (Topic c) (create_detail c assignments minISR))
              (x_CreateTopic api h (Topic c) (create_detail c assignments minISR))))
          (\<lambda>err. ret (assignments, err))))"

section \<open>Reassignment\<close>

definition ongoing :: "(string \<rightharpoonup> (int \<times> reassignment_status) list) \<Rightarrow> string \<Rightarrow> bool" where
  "ongoing reassignments topic =
     (\<exists>(p, status) \<in> set (case reassignments topic of None \<Rightarrow> [] | Some ps \<Rightarrow> ps).
        AddingReplicas status \<noteq> [] \<or> RemovingReplicas status \<noteq> [])"

partial_function (option) await_reassignments ::
  "'e externals \<Rightarrow> handle \<Rightarrow> string \<Rightarrow> int list \<Rightarrow> (topic_service, 'e world) ctx
     \<Rightarrow> (goerror option, (topic_service, 'e world) ctx) outcome option" where
  "await_reassignments api h topic partitions s =
     andthen (extern (ListPartitionReassignments h topic partitions)
                (x_ListPartitionReassignments api h topic partitions))
       (\<lambda>r. case r of
          Inl err \<Rightarrow> ret None
        | Inr reassignments \<Rightarrow>
            if ongoing reassignments topic then
              andthen (extern (Sleep (2000 * Millisecond)) (x_sleep api (2000 * Millisecond)))
                (\<lambda>_. await_reassignments api h topic partitions)
            else ret None) s"

declare await_reassignments.simps [code]

definition alterAssignments :: "'e externals \<Rightarrow> int list list \<Rightarrow> ('e, goerror option) topic_routine" where
  "alterAssignments api assignments = andthen topic_name (\<lambda>topic.
     andthen (with_admin (\<lambda>h. extern (AlterPartitionReassignments h topic assignments)
                                (x_AlterPartitionReassignments api h topic assignments)))
       (\<lambda>err. case err of
          Some e \<Rightarrow> ret (Some e)
        | None \<Rightarrow> with_admin (\<lambda>h. await_reassignments api h topic (map int [0..<length assignments]))))"

text \<open>The replica lists by partition number, as the admin requests take them.\<close>

definition replica_rows :: "(int \<times> int list) list \<Rightarrow> int list list" where
  "replica_rows assignmentsMap =
     map (\<lambda>i. case map_of assignmentsMap (int i) of None \<Rightarrow> [] | Some rs \<Rightarrow> rs) [0..<length assignmentsMap]"

text \<open>
  \<open>requestedAssignments\<close> returns at least \<open>currentPartitions\<close> entries, so the slice expressions of
  the source are within bounds and are \<open>take\<close> and \<open>drop\<close>.
\<close>

definition alterTopicAssignments :: "'e externals \<Rightarrow> nat \<Rightarrow> broker list
    \<Rightarrow> ('e, (int \<times> int list) list \<times> goerror option) topic_routine" where
  "alterTopicAssignments api currentPartitions brokers =
     (let brokersNumber = length brokers;
          assignmentsMap = fst (requestedAssignments currentPartitions brokers);
          assignments = replica_rows assignmentsMap
      in if currentPartitions < brokersNumber then
           andthen (alterAssignments api (take currentPartitions assignments)) (\<lambda>err. case err of
               Some e \<Rightarrow> ret (assignmentsMap, Some e)
             | None \<Rightarrow> andthen topic_name (\<lambda>topic.
                 andthen (with_admin (\<lambda>h.
                     extern (CreatePartitions h topic (int brokersNumber) (drop currentPartitions assignments))
                       (x_CreatePartitions api h topic (int brokersNumber) (drop currentPartitions assignments))))
                   (\<lambda>err. ret (assignmentsMap, err))))
         else
           andthen (alterAssignments api (take currentPartitions assignments))
             (\<lambda>err. ret (assignmentsMap, err)))"

section \<open>Reconciliation\<close>

definition isDynamicReassignmentEnabled :: "topic_service \<Rightarrow> bool" where
  "isDynamicReassignmentEnabled ts = (ExpectedClusterSize (ts_canaryConfig ts) = ExpectedClusterSizeDefault)"

definition currentAssignments :: "topic_metadata \<Rightarrow> (int \<times> int list) list" where
  "currentAssignments topicMetadata =
     fold (\<lambda>p. AList.update (pm_ID p) (pm_Replicas p)) (tm_Partitions topicMetadata) []"

definition currentLeaders :: "topic_metadata \<Rightarrow> (int \<times> int) list" where
  "currentLeaders topicMetadata =
     fold (\<lambda>p. AList.update (pm_ID p) (pm_Leader p)) (tm_Partitions topicMetadata) []"

text \<open>\<open>logTopicMetadata\<close> sorts the partitions of the metadata it is given.\<close>

definition logTopicMetadata :: "topic_metadata \<Rightarrow> topic_metadata" where
  "logTopicMetadata topicMetadata = topicMetadata\<lparr>tm_Partitions := sort_key pm_ID (tm_Partitions topicMetadata)\<rparr>"

definition init_topic_metrics :: "topic_metadata \<Rightarrow> ('e, unit) topic_routine" where
  "init_topic_metrics topicMetadata =
     (let lbls = [(''topic'', tm_Name topicMetadata)] in
      andthen (metric_init topicCreationFailed lbls) (\<lambda>_.
      andthen (metric_init describeClusterError []) (\<lambda>_.
      andthen (metric_init describeTopicError lbls) (\<lambda>_.
      andthen (metric_init alterTopicAssignmentsError lbls) (\<lambda>_.
      metric_init alterTopicConfigurationError lbls)))))"

text \<open>The end of \<open>reconcileTopic\<close>, reached on success only.\<close>

definition reconciled :: "reconcile_result \<Rightarrow> topic_metadata
    \<Rightarrow> ('e, reconcile_result \<times> goerror option) topic_routine" where
  "reconciled result topicMetadata =
     andthen (set_self (ts_initialized_update (\<lambda>_. True))) (\<lambda>_.
       ret (result\<lparr>Leaders := currentLeaders topicMetadata\<rparr>, None))"

definition reconcile_missing :: "'e externals \<Rightarrow> broker list \<Rightarrow> topic_metadata
    \<Rightarrow> ('e, reconcile_result \<times> goerror option) topic_routine" where
  "reconcile_missing api brokers topicMetadata = andthen (get_self (\<lambda>ts. ts)) (\<lambda>ts.
     if isDynamicReassignmentEnabled ts \<or> ExpectedClusterSize (ts_canaryConfig ts) = int (length brokers) then
       andthen (createTopic api brokers) (\<lambda>(assignments, err).
         let result = no_result\<lparr>Assignments := assignments\<rparr> in
         case err of
           Some e \<Rightarrow> andthen (metric_inc topicCreationFailed [(''topic'', tm_Name topicMetadata)])
                       (\<lambda>_. ret (result, Some e))
         | None \<Rightarrow> andthen (describeCanaryTopic api) (\<lambda>r. case r of
               Inl e \<Rightarrow> ret (result, Some e)
             | Inr topicMetadata \<Rightarrow> reconciled result topicMetadata))
     else ret (no_result, Some ErrExpectedClusterSize))"

definition reassign_existing :: "'e externals \<Rightarrow> broker list \<Rightarrow> topic_metadata
    \<Rightarrow> ('e, reconcile_result \<times> goerror option) topic_routine" where
  "reassign_existing api brokers topicMetadata = andthen (get_self (\<lambda>ts. ts)) (\<lambda>ts.
     if isDynamicReassignmentEnabled ts
        \<or> \<not> ts_initialized ts \<and> ExpectedClusterSize (ts_canaryConfig ts) = int (length brokers) then
       andthen (alterTopicAssignments api (length (tm_Partitions topicMetadata)) brokers) (\<lambda>(assignments, err).
         let result = no_result
               \<lparr>RefreshProducerMetadata := (length brokers \<noteq> length (tm_Partitions topicMetadata)),
                Assignments := assignments\<rparr> in
         case err of
           Some e \<Rightarrow> andthen (metric_inc alterTopicAssignmentsError [(''topic'', tm_Name topicMetadata)])
                       (\<lambda>_. ret (result, Some e))
         | None \<Rightarrow> reconciled result topicMetadata)
     else reconciled (no_result\<lparr>Assignments := currentAssignments topicMetadata\<rparr>) topicMetadata)"

text \<open>What is logged after a reassignment, on whether a leader election is needed; nothing else uses it.\<close>

definition isPreferredLeaderElectionNeeded :: "nat \<Rightarrow> topic_metadata \<Rightarrow> bool" where
  "isPreferredLeaderElectionNeeded brokersNumber metadata =
     (length (tm_Partitions metadata) = brokersNumber \<and> list_ex (\<lambda>p. pm_ID p \<noteq> pm_Leader p) (tm_Partitions metadata))"

definition reconcile_existing :: "'e externals \<Rightarrow> broker list \<Rightarrow> topic_metadata
    \<Rightarrow> ('e, reconcile_result \<times> goerror option) topic_routine" where
  "reconcile_existing api brokers topicMetadata =
     (let topicMetadata = logTopicMetadata topicMetadata in
      andthen (get_self ts_initialized) (\<lambda>initialized.
      andthen (if \<not> initialized then alterTopicConfiguration api else ret None) (\<lambda>err. case err of
          Some e \<Rightarrow> andthen (metric_inc alterTopicConfigurationError [(''topic'', tm_Name topicMetadata)])
                      (\<lambda>_. ret (no_result, Some e))
        | None \<Rightarrow> reassign_existing api brokers topicMetadata)))"

definition reconcileTopic :: "'e externals \<Rightarrow> ('e, reconcile_result \<times> goerror option) topic_routine" where
  "reconcileTopic api = andthen (ensure_admin api) (\<lambda>err. case err of
       Some e \<Rightarrow> ret (no_result, Some e)
     | None \<Rightarrow>
     andthen (with_admin (\<lambda>h. extern (DescribeCluster h) (x_DescribeCluster api h))) (\<lambda>(brokers, err). case err of
       Some e \<Rightarrow> andthen (metric_inc describeClusterError []) (\<lambda>_. ret (no_result, Some e))
     | None \<Rightarrow>
     andthen (describeCanaryTopic api) (\<lambda>r. case r of
       Inl e \<Rightarrow> ret (no_result, Some e)
     | Inr topicMetadata \<Rightarrow>
     andthen (get_self ts_initialized) (\<lambda>initialized.
     andthen (whenever (\<not> initialized) (init_topic_metrics topicMetadata)) (\<lambda>_.
       if tm_Err topicMetadata = ErrUnknownTopicOrPartition then reconcile_missing api brokers topicMetadata
       else if tm_Err topicMetadata = ErrNoError then reconcile_existing api brokers topicMetadata
       else andthen topic_name (\<lambda>topic.
         andthen (metric_inc describeTopicError [(''topic'', topic)]) (\<lambda>_.
           ret (no_result, Some (KErr (tm_Err topicMetadata))))))))))"

definition ts_Reconcile :: "'e externals \<Rightarrow> ('e, reconcile_result \<times> goerror option) topic_routine" where
  "ts_Reconcile api = andthen (reconcileTopic api) (\<lambda>(result, err).
     andthen (whenever (err \<noteq> None \<and> IsDisconnection err) (ts_Close api)) (\<lambda>_. ret (result, err)))"


section \<open>Rules\<close>

lemma gowp_with_admin [go_simps]:
  "gowp d (with_admin f) Q E s = (case ts_admin (self s) of
       None \<Rightarrow> E (Panic NilDereference) s | Some h \<Rightarrow> gowp d (f h) Q E s)"
  by (simp add: with_admin_def go_simps split: option.splits)

lemma gowp_topic_name [go_simps]:
  "gowp d topic_name Q E s = Q (Topic (ts_canaryConfig (self s))) s"
  by (simp add: topic_name_def go_simps)

text \<open>
  How the reassignment loop ends: after \<open>k\<close> sleeps, because the \<open>k + 1\<close>st listing fails or reports
  no ongoing move. The value is the environment it leaves.
\<close>

fun settled_after :: "'e externals \<Rightarrow> handle \<Rightarrow> string \<Rightarrow> int list \<Rightarrow> nat \<Rightarrow> 'e \<Rightarrow> 'e option" where
  "settled_after api h topic ps 0 e =
     (case x_ListPartitionReassignments api h topic ps e of
        (Inl _, e') \<Rightarrow> Some e'
      | (Inr m, e') \<Rightarrow> if ongoing m topic then None else Some e')"
| "settled_after api h topic ps (Suc k) e =
     (case x_ListPartitionReassignments api h topic ps e of
        (Inl _, e') \<Rightarrow> None
      | (Inr m, e') \<Rightarrow> if ongoing m topic
          then settled_after api h topic ps k (snd (x_sleep api (2000 * Millisecond) e')) else None)"

definition polls :: "handle \<Rightarrow> string \<Rightarrow> int list \<Rightarrow> nat \<Rightarrow> call list" where
  "polls h topic ps k =
     concat (replicate k [ListPartitionReassignments h topic ps, Sleep (2000 * Millisecond)])
       @ [ListPartitionReassignments h topic ps]"

lemma polls_Suc:
  "polls h topic ps (Suc k) =
     ListPartitionReassignments h topic ps # Sleep (2000 * Millisecond) # polls h topic ps k"
  by (simp add: polls_def)

definition after_polls :: "('c, 'e world) ctx \<Rightarrow> 'e \<Rightarrow> call list \<Rightarrow> ('c, 'e world) ctx" where
  "after_polls s e cs = s\<lparr>world := (world s)\<lparr>env := e, calls := calls (world s) @ cs\<rparr>\<rparr>"

lemma await_settled:
  "settled_after api h topic ps k (env (world s)) = Some e \<Longrightarrow>
   await_reassignments api h topic ps s = Some (Returned None (after_polls s e (polls h topic ps k)))"
proof (induction k arbitrary: s)
  case 0
  then show ?case
    by (subst await_reassignments.simps)
      (auto simp: andthen_def extern_def ret_def after_polls_def polls_def
         split: prod.splits sum.splits if_splits)
next
  case (Suc k)
  then obtain m e' where m: "x_ListPartitionReassignments api h topic ps (env (world s)) = (Inr m, e')"
    "ongoing m topic" "settled_after api h topic ps k (snd (x_sleep api (2000 * Millisecond) e')) = Some e"
    by (auto split: prod.splits sum.splits if_splits)
  let ?s = "s\<lparr>world := (world s)\<lparr>env := snd (x_sleep api (2000 * Millisecond) e'),
      calls := calls (world s) @ [ListPartitionReassignments h topic ps, Sleep (2000 * Millisecond)]\<rparr>\<rparr>"
  have "await_reassignments api h topic ps s = await_reassignments api h topic ps ?s"
    using m by (subst await_reassignments.simps) (simp add: andthen_def extern_def split: prod.splits)
  also have "\<dots> = Some (Returned None (after_polls ?s e (polls h topic ps k)))"
    using m by (intro Suc.IH) simp
  finally show ?case by (simp add: after_polls_def polls_Suc)
qed

lemma await_returns:
  "await_reassignments api h topic ps s = Some r \<Longrightarrow>
   \<exists>k e. settled_after api h topic ps k (env (world s)) = Some e"
proof (induction rule: await_reassignments.raw_induct [rotated, consumes 1])
  case (1 await api h topic ps s r)
  obtain x e where x: "x_ListPartitionReassignments api h topic ps (env (world s)) = (x, e)"
    by (cases "x_ListPartitionReassignments api h topic ps (env (world s))")
  show ?case
  proof (cases "\<exists>m. x = Inr m \<and> ongoing m topic")
    case False
    with x have "settled_after api h topic ps 0 (env (world s)) = Some e"
      by (auto split: sum.splits)
    then show ?thesis by blast
  next
    case True
    let ?s = "s\<lparr>world := (world s)\<lparr>env := snd (x_sleep api (2000 * Millisecond) e),
      calls := calls (world s) @ [ListPartitionReassignments h topic ps, Sleep (2000 * Millisecond)]\<rparr>\<rparr>"
    from x True 1(2) have "await api h topic ps ?s = Some r"
      by (auto simp: andthen_def extern_def split: prod.splits)
    from 1(1) [OF this] obtain k e' where
      "settled_after api h topic ps k (snd (x_sleep api (2000 * Millisecond) e)) = Some e'" by auto
    with x True have "settled_after api h topic ps (Suc k) (env (world s)) = Some e'" by auto
    then show ?thesis by blast
  qed
qed

lemma gowp_await [go_simps]:
  "gowp d (await_reassignments api h topic ps) Q E s =
     ((\<forall>k e. settled_after api h topic ps k (env (world s)) = Some e \<longrightarrow>
         Q None (after_polls s e (polls h topic ps k)))
      \<and> (d \<or> (\<exists>k e. settled_after api h topic ps k (env (world s)) = Some e)))"
proof (cases "await_reassignments api h topic ps s")
  case None
  then show ?thesis using await_settled [of api h topic ps _ s] by (auto simp: gowp_def)
next
  case (Some r)
  then obtain k e where k: "settled_after api h topic ps k (env (world s)) = Some e"
    using await_returns by blast
  then show ?thesis using await_settled [of api h topic ps _ s] by (fastforce simp: gowp_def)
qed


lemma replica_rows_requested:
  "replica_rows (fst (requestedAssignments cur brokers)) = map snd (fst (requestedAssignments cur brokers))"
proof -
  have "map_of (map (\<lambda>p. (int p, f p)) [0..<n]) (int i) = Some (f i)" if "i < n" for f :: "nat \<Rightarrow> int list" and n i
    using that by (intro map_of_is_SomeI) (auto simp: distinct_map inj_on_def comp_def)
  then show ?thesis by (auto simp: replica_rows_def requestedAssignments_eq comp_def)
qed

lemma length_requested [simp]:
  "length (fst (requestedAssignments cur brokers)) = max cur (length brokers)"
  by (simp add: requestedAssignments_eq)

lemmas topic_requests = alterTopicAssignments_def alterAssignments_def createTopic_def
  describeCanaryTopic_def ensure_admin_def alterTopicConfiguration_def ts_Close_def
lemmas topic_reconcile = ts_Reconcile_def reconcileTopic_def reconcile_missing_def
  reconcile_existing_def reassign_existing_def reconciled_def init_topic_metrics_def

section \<open>Properties\<close>

text \<open>
  C27: the wait for a reassignment. The loop returns exactly when, for some number \<open>k\<close> of pauses,
  the listing after them fails or reports no move in progress for the topic; then the result is
  no error, also when the listing failed, and the requests made are \<open>k\<close> times a listing and a
  pause of two seconds, then the last listing.
\<close>

theorem await_reassignments_exact:
  "await_reassignments api h topic partitions s = Some r \<longleftrightarrow>
     (\<exists>k e. settled_after api h topic partitions k (env (world s)) = Some e
        \<and> r = Returned None (after_polls s e (polls h topic partitions k)))"
  using await_returns await_settled by (metis option.inject)

text \<open>
  C6: the protocol of a scale up. With an open admin client, a returned \<open>alterTopicAssignments\<close>
  has first asked for a reassignment of the existing partitions only. If that failed, nothing
  else was requested and the error is reported. Otherwise the reassignment was polled until it
  had settled, and only then, when there are fewer partitions than brokers, the missing
  partitions were created, with the rows of the same requested assignment from the first missing
  partition on; with no missing partition there is no creation and no error.
\<close>

theorem scale_up_protocol:
  assumes admin: "ts_admin (self s) = Some h"
    and run: "alterTopicAssignments api cur brokers s = Some (Returned (asg, err) s')"
    and topic: "topic = Topic (ts_canaryConfig (self s))"
  shows "asg = fst (requestedAssignments cur brokers) \<and>
    (\<exists>cs. calls (world s') = calls (world s)
        @ AlterPartitionReassignments h topic (take cur (map snd asg)) # cs
      \<and> (cs = [] \<and> err \<noteq> None
         \<or> (\<exists>k e e'. settled_after api h topic (map int [0..<cur]) k e = Some e'
            \<and> cs = polls h topic (map int [0..<cur]) k
                @ (if cur < length brokers
                   then [CreatePartitions h topic (int (length brokers)) (drop cur (map snd asg))] else [])
            \<and> (cur < length brokers \<or> err = None \<and> env (world s') = e'))))"
proof -
  let ?post = "\<lambda>asg err s'. asg = fst (requestedAssignments cur brokers) \<and>
    (\<exists>cs. calls (world s') = calls (world s)
        @ AlterPartitionReassignments h topic (take cur (map snd asg)) # cs
      \<and> (cs = [] \<and> err \<noteq> None
         \<or> (\<exists>k e e'. settled_after api h topic (map int [0..<cur]) k e = Some e'
            \<and> cs = polls h topic (map int [0..<cur]) k
                @ (if cur < length brokers
                   then [CreatePartitions h topic (int (length brokers)) (drop cur (map snd asg))] else [])
            \<and> (cur < length brokers \<or> err = None \<and> env (world s') = e'))))"
  have "gowp True (alterTopicAssignments api cur brokers) (\<lambda>(asg, err). ?post asg err) (\<lambda>_ _. True) s"
    using admin topic
    by (auto simp: topic_requests go_simps replica_rows_requested Let_def after_polls_def
        split: prod.splits option.splits)
  from gowp_ReturnedD [OF this run, unfolded prod.case] show ?thesis .
qed

definition sample_ts :: topic_service where
  "sample_ts = (new_topic_service sample_config sample_sarama)\<lparr>ts_admin := Some 7\<rparr>"

theorem scale_up_protocol_witness:
  "\<exists>asg s'. alterTopicAssignments sim_api 1 (brokers_up one_partition) \<lparr>self = sample_ts, world = start_world one_partition\<rparr>
      = Some (Returned (asg, None) s')
    \<and> asg = [(0, [0, 1, 2]), (1, [1, 2, 0]), (2, [2, 0, 1])]
    \<and> calls (world s') = AlterPartitionReassignments 7 ''canary'' [[0, 1, 2]]
        # polls 7 ''canary'' [0] 2 @ [CreatePartitions 7 ''canary'' 3 [[1, 2, 0], [2, 0, 1]]]"
proof -
  let ?s = "\<lparr>self = sample_ts, world = start_world one_partition\<rparr>"
  have "observed (alterTopicAssignments sim_api 1 (brokers_up one_partition)) ?s
      = Some (([(0, [0, 1, 2]), (1, [1, 2, 0]), (2, [2, 0, 1])], None),
          AlterPartitionReassignments 7 ''canary'' [[0, 1, 2]]
        # polls 7 ''canary'' [0] 2 @ [CreatePartitions 7 ''canary'' 3 [[1, 2, 0], [2, 0, 1]]])"
    by code_simp
  from observedD [OF this] obtain s' where run: "alterTopicAssignments sim_api 1 (brokers_up one_partition) ?s
      = Some (Returned ([(0, [0, 1, 2]), (1, [1, 2, 0]), (2, [2, 0, 1])], None) s')"
    and cs: "calls (world s') = AlterPartitionReassignments 7 ''canary'' [[0, 1, 2]]
        # polls 7 ''canary'' [0] 2 @ [CreatePartitions 7 ''canary'' 3 [[1, 2, 0], [2, 0, 1]]]" by blast
  have "ts_admin (self ?s) = Some 7" by (simp add: sample_ts_def)
  from scale_up_protocol [OF this run refl] run cs show ?thesis by auto
qed


lemma map_of_config_update:
  "map_of (AList.update ''cleanup.policy'' cleanupPolicy (AList.update ''min.insync.replicas'' v kvs))
     = (map_of kvs)(''min.insync.replicas'' \<mapsto> v, ''cleanup.policy'' \<mapsto> ''delete'')"
  by (simp add: update_conv' cleanupPolicy_def)

text \<open>
  The configuration a topic is created with. \<open>createTopic\<close> makes one request, with the requested
  assignment of an empty topic for the described brokers; whatever the user's topic configuration,
  \<open>cleanup.policy\<close> is \<open>delete\<close> and \<open>min.insync.replicas\<close> is one less than the replication factor
  but at least 1, and every other entry is the user's.
\<close>

theorem create_topic_config:
  assumes "ts_admin (self s) = Some h"
    and run: "createTopic api brokers s = Some (Returned (asg, err) s')"
    and "c = ts_canaryConfig (self s)"
  shows "\<exists>d. calls (world s') = calls (world s) @ [CreateTopic h (Topic c) d]
    \<and> td_ReplicaAssignment d = asg \<and> asg = fst (requestedAssignments 0 brokers)
    \<and> map_of (td_ConfigEntries d) = (map_of (config_entries c))
         (''min.insync.replicas'' \<mapsto> Itoa (max 1 (int (min (length brokers) 3) - 1)),
          ''cleanup.policy'' \<mapsto> ''delete'')"
proof -
  let ?post = "\<lambda>asg err s'. \<exists>d. calls (world s') = calls (world s) @ [CreateTopic h (Topic c) d]
    \<and> td_ReplicaAssignment d = asg \<and> asg = fst (requestedAssignments 0 brokers)
    \<and> map_of (td_ConfigEntries d) = (map_of (config_entries c))
         (''min.insync.replicas'' \<mapsto> Itoa (max 1 (int (min (length brokers) 3) - 1)),
          ''cleanup.policy'' \<mapsto> ''delete'')"
  have "gowp True (createTopic api brokers) (\<lambda>(asg, err). ?post asg err) (\<lambda>_ _. True) s"
    using assms by (auto simp: createTopic_def go_simps create_detail_def map_of_config_update
        requestedAssignments_eq Let_def split: prod.splits)
  from gowp_ReturnedD [OF this run, unfolded prod.case] show ?thesis .
qed

theorem create_topic_config_witness:
  "\<exists>asg s' d. createTopic sim_api (brokers_up three_brokers) \<lparr>self = sample_ts, world = start_world three_brokers\<rparr>
      = Some (Returned (asg, None) s')
    \<and> calls (world s') = [CreateTopic 7 ''canary'' d]
    \<and> map_of (td_ConfigEntries d) ''cleanup.policy'' = Some ''delete''
    \<and> map_of (td_ConfigEntries d) ''min.insync.replicas'' = Some ''2''
    \<and> map_of (td_ConfigEntries d) ''retention.ms'' = Some ''600000''"
proof -
  let ?s = "\<lparr>self = sample_ts, world = start_world three_brokers\<rparr>"
  have "map_option (snd \<circ> fst) (observed (createTopic sim_api (brokers_up three_brokers)) ?s) = Some None"
    by code_simp
  then obtain asg s' where run: "createTopic sim_api (brokers_up three_brokers) ?s = Some (Returned (asg, None) s')"
    by (auto simp: observed_def split: option.splits outcome.splits)
  have ts: "ts_admin (self ?s) = Some 7" "calls (world ?s) = []" "Topic (ts_canaryConfig (self ?s)) = ''canary''"
    "map_of (config_entries (ts_canaryConfig (self ?s))) ''retention.ms'' = Some ''600000''"
    "length (brokers_up three_brokers) = 3"
    by (simp_all add: sample_ts_def new_topic_service_def sample_config_def start_world_def three_brokers_def
        config_entries_def)
  have two: "Itoa (max 1 (int (min 3 3) - 1)) = ''2''" by code_simp
  from create_topic_config [OF ts(1) run refl] obtain d where d:
    "calls (world s') = calls (world ?s) @ [CreateTopic 7 (Topic (ts_canaryConfig (self ?s))) d]"
    "map_of (td_ConfigEntries d) = (map_of (config_entries (ts_canaryConfig (self ?s))))
         (''min.insync.replicas'' \<mapsto> Itoa (max 1 (int (min (length (brokers_up three_brokers)) 3) - 1)),
          ''cleanup.policy'' \<mapsto> ''delete'')" by blast
  from d(2) two ts(4) have "map_of (td_ConfigEntries d) ''cleanup.policy'' = Some ''delete''"
    "map_of (td_ConfigEntries d) ''min.insync.replicas'' = Some ''2''"
    "map_of (td_ConfigEntries d) ''retention.ms'' = Some ''600000''"
    by (simp_all add: ts(5))
  with run d(1) ts show ?thesis by auto
qed

text \<open>Requests that change the topic or its placement.\<close>

fun changes_topic :: "call \<Rightarrow> bool" where
  "changes_topic (CreateTopic h t d) = True"
| "changes_topic (CreatePartitions h t n rows) = True"
| "changes_topic (AlterPartitionReassignments h t rows) = True"
| "changes_topic _ = False"

text \<open>
  A run of the topic service that keeps its configuration, does not go back to uninitialized and
  only makes requests that satisfy \<open>P\<close>. The premises of a rule below are the requests of the
  operation.
\<close>

definition only :: "(call \<Rightarrow> bool) \<Rightarrow> (topic_service, 'e world) ctx \<Rightarrow> (topic_service, 'e world) ctx \<Rightarrow> bool" where
  "only P s s' \<longleftrightarrow> adds P s s' \<and> ts_canaryConfig (self s') = ts_canaryConfig (self s)
     \<and> (ts_initialized (self s) \<longrightarrow> ts_initialized (self s'))"

interpretation only: step_preorder "only P" for P
  by unfold_locales (auto simp: only_def intro: adds_trans)

lemma only_intros:
  "P c \<Longrightarrow> only P s (s\<lparr>world := (world s)\<lparr>env := e, calls := calls (world s) @ [c]\<rparr>\<rparr>)"
  "only P s (s\<lparr>world := count_up k m (world s)\<rparr>)"
  "only P s (s\<lparr>self := ts_admin_update f (self s)\<rparr>)"
  "only P s (s\<lparr>self := ts_initialized_update (\<lambda>_. True) (self s)\<rparr>)"
  "(\<And>c. c \<in> set cs \<Longrightarrow> P c) \<Longrightarrow> only P s (after_polls s e cs)"
  by (auto simp: only_def adds_def after_polls_def)

lemma safe_with_admin:
  assumes "step_preorder R" and "ts_admin (self s) = None \<Longrightarrow> C (Panic NilDereference)"
    and "\<And>h. ts_admin (self s) = Some h \<Longrightarrow> safe d C R (f h) s"
  shows "safe d C R (with_admin f) s"
  using assms step_preorder.refl [OF assms(1)]
  by (auto simp: safe_def go_simps split: option.splits)

lemma with_admin_returned:
  "with_admin f s = Some (Returned a s') \<Longrightarrow> \<exists>h. ts_admin (self s) = Some h \<and> f h s = Some (Returned a s')"
  by (simp add: with_admin_def get_self_def crash_def split: option.splits)

lemma safe_topic_name: "R s s \<Longrightarrow> safe d C R topic_name s"
  by (simp add: safe_def go_simps)

lemma safe_await:
  assumes "\<And>k e. R s (after_polls s e (polls h topic ps k))"
    and "d \<or> (\<exists>k e. settled_after api h topic ps k (env (world s)) = Some e)"
  shows "safe d C R (await_reassignments api h topic ps) s"
  using assms by (simp add: safe_def go_simps)

lemmas only_rules = only.safe_steps safe_world safe_with_admin [OF only.step_preorder_axioms]
  safe_topic_name only_intros only.refl

lemma only_describe: "(\<And>h t. P (DescribeTopics h t)) \<Longrightarrow> safe d (\<lambda>_. True) (only P) (describeCanaryTopic api) s"
  unfolding describeCanaryTopic_def by (intro only_rules) simp_all


lemma only_parts:
  "(\<And>bs. P (NewClusterAdmin bs)) \<Longrightarrow> safe d (\<lambda>_. True) (only P) (ensure_admin api) s"
  "(\<And>h. P (AdminClose h)) \<Longrightarrow> safe d (\<lambda>_. True) (only P) (ts_Close api) s"
  "(\<And>h t kvs. P (AlterConfig h t kvs)) \<Longrightarrow> safe d (\<lambda>_. True) (only P) (alterTopicConfiguration api) s"
  "(\<And>h t det. P (CreateTopic h t det)) \<Longrightarrow> safe d (\<lambda>_. True) (only P) (createTopic api brokers) s"
  "safe d (\<lambda>_. True) (only P) (init_topic_metrics m) s"
  "safe d (\<lambda>_. True) (only P) (reconciled result m) s"
  unfolding ensure_admin_def ts_Close_def alterTopicConfiguration_def createTopic_def
    init_topic_metrics_def reconciled_def Let_def
  by (intro only_rules; simp)+

text \<open>
  The partition is compared with its leader, not with its preferred leader: a topic led by the
  preferred leader of its only partition is said to need an election when the broker is not number 0.
\<close>

lemma election_of_preferred_leader:
  "isPreferredLeaderElectionNeeded 1 \<lparr>tm_Err = e, tm_Name = n, tm_Partitions = [\<lparr>pm_ID = 0, pm_Leader = 1, pm_Replicas = [1]\<rparr>]\<rparr>"
  by (simp add: isPreferredLeaderElectionNeeded_def)

lemma reconcile_missing_static:
  assumes "\<not> isDynamicReassignmentEnabled (self s)"
    and "ExpectedClusterSize (ts_canaryConfig (self s)) \<noteq> int (length brokers)"
  shows "reconcile_missing api brokers m s = ret (no_result, Some ErrExpectedClusterSize) s"
  using assms by (simp add: reconcile_missing_def get_self_def)

lemma reassign_existing_static:
  assumes "\<not> isDynamicReassignmentEnabled (self s)"
    and "ts_initialized (self s) \<or> ExpectedClusterSize (ts_canaryConfig (self s)) \<noteq> int (length brokers)"
  shows "reassign_existing api brokers m s = reconciled (no_result\<lparr>Assignments := currentAssignments m\<rparr>) m s"
  using assms by (auto simp: reassign_existing_def get_self_def)

definition static_ts :: topic_service where
  "static_ts = new_topic_service (sample_config\<lparr>ExpectedClusterSize := 2\<rparr>) sample_sarama"

lemma safe_eq: "m s = m' s \<Longrightarrow> safe d C R m' s \<Longrightarrow> safe d C R m s"
  by (simp add: safe_def gowp_def)

text \<open>
  C11: a cluster of unexpected size is left alone. With an expected cluster size set (dynamic
  reassignment off), a reconcile during which the described cluster has another number of brokers
  always ends, and never creates the topic, adds partitions or moves replicas, on any path,
  failures included.
\<close>

theorem unexpected_size_leaves_topic_alone:
  assumes static: "ExpectedClusterSize (ts_canaryConfig (self s)) \<noteq> ExpectedClusterSizeDefault"
    and size: "\<forall>h e. int (length (fst (fst (x_DescribeCluster api h e)))) \<noteq> ExpectedClusterSize (ts_canaryConfig (self s))"
  shows "\<exists>r cs. ts_Reconcile api s = Some r \<and> calls (world (final_state r)) = calls (world s) @ cs
    \<and> (\<forall>c\<in>set cs. \<not> changes_topic c)"
proof -
  let ?P = "\<lambda>c. \<not> changes_topic c"
  let ?same = "\<lambda>s'. ts_canaryConfig (self s') = ts_canaryConfig (self s)"
  have missing: "safe False (\<lambda>_. True) (only ?P) (reconcile_missing api bs m) s'"
    if "?same s'" "int (length bs) \<noteq> ExpectedClusterSize (ts_canaryConfig (self s))" for bs m s'
    using that static by (intro safe_eq [OF reconcile_missing_static] only.safe_ret)
      (simp_all add: isDynamicReassignmentEnabled_def)
  have existing: "safe False (\<lambda>_. True) (only ?P) (reassign_existing api bs m) s'"
    if "?same s'" "int (length bs) \<noteq> ExpectedClusterSize (ts_canaryConfig (self s))" for bs m s'
    using that static by (intro safe_eq [OF reassign_existing_static] only_parts)
      (simp_all add: isDynamicReassignmentEnabled_def)
  have others: "int (length bs) \<noteq> ExpectedClusterSize (ts_canaryConfig (self s))"
    if "with_admin (\<lambda>h. extern (DescribeCluster h) (x_DescribeCluster api h)) s1 = Some (Returned (bs, err) s2)"
    for s1 bs err s2
    using that size by (auto dest!: with_admin_returned extern_returned) (metis fst_conv)
  have "safe False (\<lambda>_. True) (only ?P) (ts_Reconcile api) s"
    unfolding ts_Reconcile_def reconcileTopic_def reconcile_existing_def Let_def
    by (intro only_rules only_parts only_describe missing existing) (auto simp: only_def dest: others)
  from safe_runs [OF this] show ?thesis by (auto simp: only_def adds_def)
qed


theorem unexpected_size_leaves_topic_alone_witness:
  "\<exists>r cs. ts_Reconcile (sim_api\<lparr>x_DescribeCluster := \<lambda>h e. ((brokers_up three_brokers, None), e)\<rparr>)
      \<lparr>self = static_ts, world = start_world one_partition\<rparr> = Some r
    \<and> calls (world (final_state r)) = cs \<and> (\<forall>c\<in>set cs. \<not> changes_topic c)"
  using unexpected_size_leaves_topic_alone
    [of "\<lparr>self = static_ts, world = start_world one_partition\<rparr>"
        "sim_api\<lparr>x_DescribeCluster := \<lambda>h e. ((brokers_up three_brokers, None), e)\<rparr>"]
  by (simp add: static_ts_def new_topic_service_def sample_config_def ExpectedClusterSizeDefault_def
      start_world_def three_brokers_def)

lemma set_polls: "set (polls h topic ps k) \<subseteq> {ListPartitionReassignments h topic ps, Sleep (2000 * Millisecond)}"
  by (induction k) (auto simp: polls_def)

text \<open>Every wait ends, from any environment.\<close>

definition moves_settle :: "'e externals \<Rightarrow> bool" where
  "moves_settle api = (\<forall>h topic ps e. \<exists>k e'. settled_after api h topic ps k e = Some e')"

lemma only_alter:
  assumes "d \<or> moves_settle api"
    and "\<And>h t rows. P (AlterPartitionReassignments h t rows)" "\<And>h t n rows. P (CreatePartitions h t n rows)"
    and "\<And>h t ps. P (ListPartitionReassignments h t ps)" "\<And>x. P (Sleep x)"
  shows "safe d (\<lambda>_. True) (only P) (alterTopicAssignments api cur brokers) s"
proof -
  have poll: "P c" if "c \<in> set (polls h topic ps k)" for c h topic ps k
    using that set_polls assms(4,5) by fastforce
  show ?thesis
    unfolding alterTopicAssignments_def alterAssignments_def Let_def
    using assms by (intro only_rules safe_await) (auto simp: moves_settle_def dest: poll)
qed

text \<open>Requests that only an uninitialized service makes, in dynamic mode and otherwise.\<close>

fun after_startup :: "bool \<Rightarrow> call \<Rightarrow> bool" where
  "after_startup dynamic (AlterConfig h t kvs) = False"
| "after_startup dynamic (AlterPartitionReassignments h t rows) = dynamic"
| "after_startup dynamic (CreatePartitions h t n rows) = dynamic"
| "after_startup dynamic _ = True"

text \<open>
  C28: what happens at start-up only. Once a reconcile has succeeded the service stays
  initialized, no later reconcile sends the configured topic configuration again, and with an
  expected cluster size set no later reconcile moves replicas or adds partitions.
\<close>

theorem startup_work_is_not_repeated:
  assumes "ts_initialized (self s)" and "ts_Reconcile api s = Some r"
  shows "ts_initialized (self (final_state r)) \<and> (\<exists>cs. calls (world (final_state r)) = calls (world s) @ cs
    \<and> (\<forall>c\<in>set cs. after_startup (isDynamicReassignmentEnabled (self s)) c))"
proof -
  let ?P = "after_startup (isDynamicReassignmentEnabled (self s))"
  let ?same = "\<lambda>s'. ts_canaryConfig (self s') = ts_canaryConfig (self s) \<and> ts_initialized (self s')"
  have missing: "safe True (\<lambda>_. True) (only ?P) (reconcile_missing api bs m) s'" if "?same s'" for bs m s'
    unfolding reconcile_missing_def Let_def
    by (intro only_rules only_parts only_describe) simp_all
  have existing: "safe True (\<lambda>_. True) (only ?P) (reassign_existing api bs m) s'" if "?same s'" for bs m s'
  proof (cases "isDynamicReassignmentEnabled (self s)")
    case True
    then show ?thesis unfolding reassign_existing_def Let_def
      by (intro only_rules only_parts only_alter) simp_all
  next
    case False
    with that show ?thesis
      by (intro safe_eq [OF reassign_existing_static] only_parts) (simp_all add: isDynamicReassignmentEnabled_def)
  qed
  have "safe True (\<lambda>_. True) (only ?P) (ts_Reconcile api) s"
    unfolding ts_Reconcile_def reconcileTopic_def reconcile_existing_def Let_def
    using assms(1)
    by (intro only_rules only_parts only_describe missing existing)
      (auto simp: only_def get_self_returned)
  from safe_finalD [OF this assms(2)] assms(1) show ?thesis by (auto simp: only_def adds_def)
qed


theorem startup_work_is_not_repeated_witness:
  "\<exists>r. ts_Reconcile sim_api \<lparr>self = static_ts\<lparr>ts_initialized := True\<rparr>, world = start_world one_partition\<rparr> = Some r
    \<and> ts_initialized (self (final_state r))
    \<and> (\<exists>cs. calls (world (final_state r)) = cs \<and> cs \<noteq> [] \<and> (\<forall>c\<in>set cs. after_startup False c))"
proof -
  let ?s = "\<lparr>self = static_ts\<lparr>ts_initialized := True\<rparr>, world = start_world one_partition\<rparr>"
  have "map_option snd (observed (ts_Reconcile sim_api) ?s)
      = Some [NewClusterAdmin [''kafka:9092''], DescribeCluster 7, DescribeTopics 7 [''canary'']]"
    by code_simp
  then obtain a s' where run: "ts_Reconcile sim_api ?s = Some (Returned a s')"
    and cs: "calls (world s') = [NewClusterAdmin [''kafka:9092''], DescribeCluster 7, DescribeTopics 7 [''canary'']]"
    by (auto simp: observed_def split: option.splits outcome.splits)
  have st: "ts_initialized (self ?s)" "\<not> isDynamicReassignmentEnabled (self ?s)" "calls (world ?s) = []"
    by (simp_all add: static_ts_def new_topic_service_def sample_config_def isDynamicReassignmentEnabled_def
        ExpectedClusterSizeDefault_def start_world_def)
  from startup_work_is_not_repeated [OF st(1) run] run cs st(2,3) show ?thesis by auto
qed

text \<open>
  A run that keeps an open admin client and does not close it. \<open>answers_topics\<close>: the cluster answers a
  describe request for one topic with metadata for it, as Kafka documents.
\<close>

definition keeps_admin :: "(topic_service, 'e world) ctx \<Rightarrow> (topic_service, 'e world) ctx \<Rightarrow> bool" where
  "keeps_admin s s' \<longleftrightarrow> adds (\<lambda>c. \<forall>h. c \<noteq> AdminClose h) s s'
     \<and> (\<forall>h. ts_admin (self s) = Some h \<longrightarrow> ts_admin (self s') = Some h)"

definition answers_topics :: "'e externals \<Rightarrow> bool" where
  "answers_topics api = (\<forall>h t e. case fst (x_DescribeTopics api h [t] e) of
       Inl _ \<Rightarrow> True | Inr ms \<Rightarrow> ms \<noteq> [] \<and> (\<forall>m\<in>set ms. tm_Name m = t))"

interpretation kept: step_preorder keeps_admin
  by unfold_locales (auto simp: keeps_admin_def intro: adds_trans)

lemma kept_intros:
  "\<forall>h. c \<noteq> AdminClose h \<Longrightarrow> keeps_admin s (s\<lparr>world := (world s)\<lparr>env := e, calls := calls (world s) @ [c]\<rparr>\<rparr>)"
  "keeps_admin s (s\<lparr>world := count_up k m (world s)\<rparr>)"
  "ts_admin (self s) = None \<Longrightarrow> keeps_admin s (s\<lparr>self := ts_admin_update f (self s)\<rparr>)"
  "keeps_admin s (s\<lparr>self := ts_initialized_update g (self s)\<rparr>)"
  "keeps_admin s (after_polls s e (polls h topic ps k))"
  using set_polls [of h topic ps k] by (auto simp: keeps_admin_def adds_def after_polls_def)

lemmas kept_rules = kept.safe_steps safe_world safe_with_admin [OF kept.step_preorder_axioms]
  safe_topic_name safe_await kept_intros kept.refl

lemma ensure_admin_returned:
  "ensure_admin api s = Some (Returned None s') \<Longrightarrow> ts_admin (self s') \<noteq> None"
  by (auto simp: ensure_admin_def returned_iffs returned_case_iffs get_self_returned set_self_returned)

lemma topic_name_returned: "topic_name s = Some (Returned t s') \<longleftrightarrow> t = Topic (ts_canaryConfig (self s)) \<and> s' = s"
  by (simp add: topic_name_def get_self_returned)

lemma answers_topicsD:
  "answers_topics api \<Longrightarrow> x_DescribeTopics api h [t] e = (Inr ms, e') \<Longrightarrow>
     ms \<noteq> [] \<and> (\<forall>m\<in>set ms. tm_Name m = t)"
  unfolding answers_topics_def
  by (drule spec [of _ h], drule spec [of _ t], drule spec [of _ e]) simp

lemma kept_describe:
  "ts_admin (self s) \<noteq> None \<Longrightarrow> answers_topics api \<Longrightarrow> safe d C keeps_admin (describeCanaryTopic api) s"
  unfolding describeCanaryTopic_def
  by (intro kept_rules)
    (auto simp: at_index_def topic_name_returned dest!: with_admin_returned extern_returned
      split: if_split_asm, drule (1) answers_topicsD, simp)

lemma kept_parts:
  "safe d C keeps_admin (ensure_admin api) s"
  "ts_admin (self s) \<noteq> None \<Longrightarrow> safe d C keeps_admin (alterTopicConfiguration api) s"
  "ts_admin (self s) \<noteq> None \<Longrightarrow> safe d C keeps_admin (createTopic api brokers) s"
  "safe d C keeps_admin (init_topic_metrics m) s"
  "safe d C keeps_admin (reconciled result m) s"
  unfolding ensure_admin_def alterTopicConfiguration_def createTopic_def
    init_topic_metrics_def reconciled_def Let_def
  by (intro kept_rules; auto simp: keeps_admin_def get_self_returned topic_name_returned
      dest!: extern_returned)+

lemma kept_alter:
  "d \<or> moves_settle api \<Longrightarrow> ts_admin (self s) \<noteq> None \<Longrightarrow>
     safe d C keeps_admin (alterTopicAssignments api cur brokers) s"
  unfolding alterTopicAssignments_def alterAssignments_def Let_def
  by (intro kept_rules) (auto simp: keeps_admin_def get_self_returned topic_name_returned moves_settle_def)

lemma reconcileTopic_keeps:
  assumes "d \<or> moves_settle api" "answers_topics api"
  shows "safe d (\<lambda>_. False) keeps_admin (reconcileTopic api) s"
  unfolding reconcileTopic_def reconcile_missing_def reconcile_existing_def reassign_existing_def Let_def
  using assms
  by (intro kept_rules kept_parts kept_alter kept_describe)
    (auto simp: keeps_admin_def get_self_returned topic_name_returned dest!: ensure_admin_returned)

lemma sim_answers: "answers_topics sim_api"
  by (simp add: answers_topics_def cluster_defs split: option.splits)

text \<open>
  The life of the admin client. A reconcile that reports a disconnection leaves the service
  without an admin client, and if it had one, closing it is the last request made. In every other
  case the client it had is kept and none is closed.
\<close>

theorem admin_lifecycle:
  assumes answers: "answers_topics api"
    and run: "ts_Reconcile api s = Some (Returned (result, err) s')"
  shows "if IsDisconnection err
    then ts_admin (self s') = None
      \<and> (\<forall>h. ts_admin (self s) = Some h \<longrightarrow> last (calls (world s')) = AdminClose h)
    else (\<forall>h. ts_admin (self s) = Some h \<longrightarrow> ts_admin (self s') = Some h)
      \<and> adds (\<lambda>c. \<forall>h. c \<noteq> AdminClose h) s s'"
proof -
  from run obtain s1 where run1: "reconcileTopic api s = Some (Returned (result, err) s1)"
    and close: "whenever (err \<noteq> None \<and> IsDisconnection err) (ts_Close api) s1 = Some (Returned () s')"
    by (auto simp: ts_Reconcile_def returned_iffs)
  from answers have "safe True (\<lambda>_. False) keeps_admin (reconcileTopic api) s"
    by (intro reconcileTopic_keeps) simp_all
  from safe_returnedD [OF this run1] close show ?thesis
    by (auto simp: keeps_admin_def ts_Close_def returned_iffs returned_case_iffs get_self_returned
        set_self_returned dest!: extern_returned split: if_splits)
qed

theorem admin_lifecycle_witness:
  "\<exists>result s'. ts_Reconcile sim_api \<lparr>self = sample_ts, world = start_world (three_brokers\<lparr>failing := Some EOF\<rparr>)\<rparr>
      = Some (Returned (result, Some EOF) s')
    \<and> ts_admin (self s') = None \<and> last (calls (world s')) = AdminClose 7"
proof -
  let ?s = "\<lparr>self = sample_ts, world = start_world (three_brokers\<lparr>failing := Some EOF\<rparr>)\<rparr>"
  have "map_option (snd \<circ> fst) (observed (ts_Reconcile sim_api) ?s) = Some (Some EOF)"
    by code_simp
  then obtain result s' where run: "ts_Reconcile sim_api ?s = Some (Returned (result, Some EOF) s')"
    by (auto simp: observed_def split: option.splits outcome.splits)
  from admin_lifecycle [OF sim_answers run] run show ?thesis
    by (auto simp: IsDisconnection_def sample_ts_def)
qed

lemma reconcile_safe:
  assumes "moves_settle api" and "answers_topics api"
  shows "safe False (\<lambda>c. c = Fatal ''Error closing the Sarama cluster admin'') (\<lambda>_ _. True) (ts_Reconcile api) s"
proof -
  have "safe False (\<lambda>_. False) keeps_admin (reconcileTopic api) s"
    using assms by (intro reconcileTopic_keeps) simp_all
  then have "safe False (\<lambda>c. c = Fatal ''Error closing the Sarama cluster admin'') (\<lambda>_ _. True) (reconcileTopic api) s"
    unfolding safe_def by (rule gowp_mono) simp_all
  then show ?thesis
    unfolding ts_Reconcile_def ts_Close_def
    by (intro anywhere.safe_steps safe_world) simp_all
qed

text \<open>
  Reconciling ends and does not panic. If every reassignment settles and the cluster answers
  describe requests with metadata for the topic, a reconcile returns, whatever fails on the way,
  unless the admin client cannot be closed after a disconnection, which is fatal.
\<close>

theorem reconcile_ends_without_panic:
  assumes "moves_settle api" and "answers_topics api"
  shows "\<exists>r. ts_Reconcile api s = Some r
    \<and> (\<forall>c s'. r = Crashed c s' \<longrightarrow> c = Fatal ''Error closing the Sarama cluster admin'')"
  by (rule safe_ends [OF reconcile_safe [OF assms]])

lemma sim_settles: "moves_settle sim_api"
proof -
  have "\<exists>k e'. settled_after sim_api h t ps k e = Some e'" for h t ps e
  proof (induction "moves_left e" arbitrary: e)
    case 0
    then have "settled_after sim_api h t ps 0 e = Some e"
      by (auto simp: cluster_defs ongoing_def split: option.splits)
    then show ?case by blast
  next
    case (Suc n)
    let ?e = "snd (x_sleep sim_api (2000 * Millisecond) e)"
    from Suc.hyps(2) have "n = moves_left ?e" by (simp add: sim_api_def)
    from Suc.hyps(1) [OF this] obtain k e' where k: "settled_after sim_api h t ps k ?e = Some e'" by blast
    show ?case
    proof (cases "failing e")
      case None
      with k Suc.hyps(2) have "settled_after sim_api h t ps (Suc k) e = Some e'"
        by (simp add: cluster_defs ongoing_def)
      then show ?thesis by blast
    next
      case (Some err)
      then have "settled_after sim_api h t ps 0 e = Some e" by (simp add: cluster_defs)
      then show ?thesis by blast
    qed
  qed
  then show ?thesis by (simp add: moves_settle_def)
qed

theorem reconcile_ends_without_panic_witness:
  "\<exists>r. ts_Reconcile sim_api \<lparr>self = new_topic_service sample_config sample_sarama, world = start_world one_partition\<rparr> = Some r"
  using reconcile_ends_without_panic [OF sim_settles sim_answers] by blast


section \<open>The result of a successful reconcile, and the accounting of failures\<close>

lemma ensure_admin_facts:
  "ensure_admin api s = Some (Returned err s') \<Longrightarrow>
     ts_canaryConfig (self s') = ts_canaryConfig (self s)
     \<and> (\<forall>n l. counted (world s') n l = counted (world s) n l)
     \<and> (err \<noteq> None \<longrightarrow> ts_admin (self s) = None \<and> ts_admin (self s') = None
         \<and> calls (world s') = calls (world s) @ [NewClusterAdmin (BootstrapServers (ts_canaryConfig (self s)))])"
  by (auto simp: ensure_admin_def returned_iffs returned_case_iffs get_self_returned set_self_returned
      dest!: extern_returned)

lemma reconciled_returned:
  "reconciled result m s = Some (Returned (r, e) s') \<longleftrightarrow>
     r = result\<lparr>Leaders := currentLeaders m\<rparr> \<and> e = None \<and> s' = s\<lparr>self := ts_initialized_update (\<lambda>_. True) (self s)\<rparr>"
  by (auto simp: reconciled_def returned_iffs set_self_returned)

definition topic_errors :: "'e world \<Rightarrow> string \<Rightarrow> nat" where
  "topic_errors w t = counted w topicCreationFailed [(''topic'', t)] + counted w describeClusterError []
     + counted w describeTopicError [(''topic'', t)] + counted w alterTopicAssignmentsError [(''topic'', t)]
     + counted w alterTopicConfigurationError [(''topic'', t)]"

lemma topic_errors_eq:
  "(\<And>n l. counted w' n l = counted w n l) \<Longrightarrow> topic_errors w' t = topic_errors w t"
  by (simp add: topic_errors_def)

lemma topic_errors_count_up:
  "topic_errors (count_up k (n, l) w) t = topic_errors w t +
     (if (n, l) \<in> {(topicCreationFailed, [(''topic'', t)]), (describeClusterError, []),
        (describeTopicError, [(''topic'', t)]), (alterTopicAssignmentsError, [(''topic'', t)]),
        (alterTopicConfigurationError, [(''topic'', t)])} then k else 0)"
  by (auto simp: topic_errors_def topicCreationFailed_def describeClusterError_def describeTopicError_def
      alterTopicAssignmentsError_def alterTopicConfigurationError_def)

text \<open>Pieces that touch no error counter, or one exactly when they fail.\<close>

definition quiet :: "string \<Rightarrow> (topic_service, 'e world) ctx \<Rightarrow> (topic_service, 'e world) ctx \<Rightarrow> bool" where
  "quiet t s s' \<longleftrightarrow> topic_errors (world s') t = topic_errors (world s) t
     \<and> ts_canaryConfig (self s') = ts_canaryConfig (self s)"

interpretation quiet: step_preorder "quiet t" for t
  by unfold_locales (auto simp: quiet_def)

lemma quiet_intros:
  "quiet t s (s\<lparr>world := (world s)\<lparr>env := e, calls := cs\<rparr>\<rparr>)"
  "quiet t s (s\<lparr>world := count_up 0 nl (world s)\<rparr>)"
  "quiet t s (s\<lparr>self := ts_admin_update f (self s)\<rparr>)"
  "quiet t s (s\<lparr>self := ts_initialized_update g (self s)\<rparr>)"
  "quiet t s (after_polls s e cs)"
  by (cases nl; auto simp: quiet_def after_polls_def topic_errors_count_up intro: topic_errors_eq)+

lemmas quiet_rules = quiet.safe_steps safe_world safe_with_admin [OF quiet.step_preorder_axioms]
  safe_topic_name safe_await quiet_intros quiet.refl

lemma quiet_parts:
  "safe True (\<lambda>_. True) (quiet t) (ensure_admin api) s"
  "safe True (\<lambda>_. True) (quiet t) (with_admin (\<lambda>h. extern (c h) (f h))) s"
  "safe True (\<lambda>_. True) (quiet t) (alterTopicConfiguration api) s"
  "safe True (\<lambda>_. True) (quiet t) (createTopic api brokers) s"
  "safe True (\<lambda>_. True) (quiet t) (init_topic_metrics m) s"
  "safe True (\<lambda>_. True) (quiet t) (alterTopicAssignments api k brokers) s"
  "safe True (\<lambda>_. True) (quiet t) (ts_Close api) s"
  unfolding ensure_admin_def alterTopicConfiguration_def createTopic_def init_topic_metrics_def
    alterTopicAssignments_def alterAssignments_def ts_Close_def Let_def
  by (intro quiet_rules; simp)+

lemmas quiet_returned = quiet_parts [THEN safe_returnedD]

lemma describe_counts:
  "describeCanaryTopic api s = Some (Returned r s') \<Longrightarrow> t = Topic (ts_canaryConfig (self s)) \<Longrightarrow>
     topic_errors (world s') t = topic_errors (world s) t + (case r of Inl _ \<Rightarrow> 1 | Inr _ \<Rightarrow> 0)
     \<and> ts_canaryConfig (self s') = ts_canaryConfig (self s)
     \<and> (answers_topics api \<longrightarrow> (\<forall>m. r = Inr m \<longrightarrow> tm_Name m = t))"
  by (auto simp: describeCanaryTopic_def returned_iffs returned_case_iffs topic_name_returned metric_returned
      topic_errors_count_up at_index_Inr_iff intro!: topic_errors_eq
      dest!: with_admin_returned extern_returned dest: answers_topicsD)

text \<open>One reconcile: the errors counted, and whether it failed for a reason that is counted.\<close>

definition accounted :: "string \<Rightarrow> (topic_service, 'e world) ctx \<Rightarrow> goerror option \<Rightarrow> (topic_service, 'e world) ctx \<Rightarrow> bool" where
  "accounted t s err s' \<longleftrightarrow>
     topic_errors (world s') t = topic_errors (world s) t + 1 \<and> err \<noteq> None
     \<or> topic_errors (world s') t = topic_errors (world s) t \<and> (err = None \<or> err = Some ErrExpectedClusterSize)"

lemma reassign_accounted:
  assumes "reassign_existing api bs m s = Some (Returned (result, err) s')" "tm_Name m = t"
  shows "accounted t s err s'"
  using assms
  by (auto simp: reassign_existing_def accounted_def returned_iffs returned_case_iffs get_self_returned
      reconciled_returned metric_returned topic_errors_count_up Let_def quiet_def
      dest!: quiet_returned(6) [of _ _ _ _ _ _ t] intro: topic_errors_eq)


lemma existing_accounted:
  assumes "reconcile_existing api bs m s = Some (Returned (result, err) s')" "tm_Name m = t"
  shows "accounted t s err s'"
proof -
  let ?m = "logTopicMetadata m"
  from assms(1) obtain err1 s1 where
    alter: "(if \<not> ts_initialized (self s) then alterTopicConfiguration api else ret None) s = Some (Returned err1 s1)"
    and rest: "(case err1 of Some e \<Rightarrow> andthen (metric_inc alterTopicConfigurationError [(''topic'', tm_Name ?m)])
                      (\<lambda>_. ret (no_result, Some e))
        | None \<Rightarrow> reassign_existing api bs ?m) s1 = Some (Returned (result, err) s')"
    by (auto simp: reconcile_existing_def Let_def returned_iffs get_self_returned)
  have q: "quiet t s s1"
    using alter quiet_returned(3) by (auto simp: returned_case_iffs returned_iffs quiet.refl)
  show ?thesis
  proof (cases err1)
    case None
    with rest have "accounted t s1 err s'" by (intro reassign_accounted) (auto simp: logTopicMetadata_def assms)
    with q show ?thesis by (simp add: accounted_def quiet_def)
  next
    case (Some e)
    with rest q assms(2) show ?thesis
      by (auto simp: accounted_def quiet_def returned_iffs metric_returned topic_errors_count_up logTopicMetadata_def)
  qed
qed

lemma missing_accounted:
  assumes "reconcile_missing api bs m s = Some (Returned (result, err) s')" "tm_Name m = t"
    "Topic (ts_canaryConfig (self s)) = t"
  shows "accounted t s err s'"
  using assms
  by (auto simp: reconcile_missing_def accounted_def returned_iffs returned_case_iffs get_self_returned
      reconciled_returned metric_returned topic_errors_count_up Let_def quiet_def
      dest!: quiet_returned(4) [of _ _ _ _ _ t] describe_counts [where t = t]
      split: sum.splits)

lemma quiet_whenever:
  "whenever b (init_topic_metrics m) s = Some (Returned u s') \<Longrightarrow> quiet t s s'"
  using quiet_returned(5) by (auto simp: returned_iffs quiet.refl)

lemma reconcileTopic_accounted:
  assumes answers: "answers_topics api"
    and run: "reconcileTopic api s = Some (Returned (result, err) s')"
    and topic: "t = Topic (ts_canaryConfig (self s))"
  shows "accounted t s err s' \<or> topic_errors (world s') t = topic_errors (world s) t
    \<and> ts_admin (self s') = None
    \<and> calls (world s') = calls (world s) @ [NewClusterAdmin (BootstrapServers (ts_canaryConfig (self s)))]"
proof -
  from run obtain err1 s1 where opened: "ensure_admin api s = Some (Returned err1 s1)"
    by (auto simp: reconcileTopic_def returned_iffs)
  show ?thesis
  proof (cases err1)
    case (Some e)
    with run opened ensure_admin_facts [OF opened] show ?thesis
      by (auto simp: reconcileTopic_def returned_iffs intro: topic_errors_eq)
  next
    case None
    have q1: "quiet t s s1" using quiet_returned(1) [OF opened] .
    from run opened None obtain bs err2 s2 where
      descr: "with_admin (\<lambda>h. extern (DescribeCluster h) (x_DescribeCluster api h)) s1 = Some (Returned (bs, err2) s2)"
      by (auto simp: reconcileTopic_def returned_iffs)
    have q2: "quiet t s s2"
      using quiet.trans [OF q1 quiet_returned(2) [OF descr]] .
    show ?thesis
    proof (cases err2)
      case (Some e)
      with run opened None descr q2 show ?thesis
        by (auto simp: reconcileTopic_def returned_iffs metric_returned accounted_def quiet_def topic_errors_count_up)
    next
      case None
      from run opened \<open>err1 = None\<close> descr None obtain r s3 where
        topics: "describeCanaryTopic api s2 = Some (Returned r s3)"
        by (auto simp: reconcileTopic_def returned_iffs)
      from q2 topic have t2: "t = Topic (ts_canaryConfig (self s2))" by (simp add: quiet_def)
      note d = describe_counts [OF topics t2]
      show ?thesis
      proof (cases r)
        case (Inl e)
        with run opened \<open>err1 = None\<close> descr None topics d q2 show ?thesis
          by (auto simp: reconcileTopic_def returned_iffs accounted_def quiet_def)
      next
        case (Inr m)
        with d answers have m: "tm_Name m = t" by blast
        from run opened \<open>err1 = None\<close> descr None topics Inr obtain s4 where
          w: "whenever (\<not> ts_initialized (self s3)) (init_topic_metrics m) s3 = Some (Returned () s4)"
          and rest: "(if tm_Err m = ErrUnknownTopicOrPartition then reconcile_missing api bs m
            else if tm_Err m = ErrNoError then reconcile_existing api bs m
            else andthen topic_name (\<lambda>topic. andthen (metric_inc describeTopicError [(''topic'', topic)]) (\<lambda>_.
              ret (no_result, Some (KErr (tm_Err m)))))) s4 = Some (Returned (result, err) s')"
          by (auto simp: reconcileTopic_def returned_iffs get_self_returned)
        from d Inr q2 have "quiet t s s3" by (simp add: quiet_def)
        from quiet.trans [OF this quiet_whenever [OF w]] have q4: "quiet t s s4" .
        then have t4: "Topic (ts_canaryConfig (self s4)) = t" using topic by (simp add: quiet_def)
        from rest consider
          (missing) "reconcile_missing api bs m s4 = Some (Returned (result, err) s')"
        | (existing) "reconcile_existing api bs m s4 = Some (Returned (result, err) s')"
        | (other) "s' = s4\<lparr>world := count_up 1 (describeTopicError, [(''topic'', t)]) (world s4)\<rparr>" "err \<noteq> None"
          by (auto simp: returned_case_iffs returned_iffs topic_name_returned metric_returned t4)
        then have "accounted t s4 err s'"
        proof cases
          case missing
          then show ?thesis by (rule missing_accounted [OF _ m t4])
        next
          case existing
          then show ?thesis by (rule existing_accounted [OF _ m])
        next
          case other
          then show ?thesis by (simp add: accounted_def topic_errors_count_up)
        qed
        with q4 show ?thesis by (auto simp: accounted_def quiet_def)
      qed
    qed
  qed
qed

text \<open>
  C29: failures are counted once. A reconcile adds one to exactly one of the service's error
  counters when it fails, and none when it succeeds; the only failures that are not counted are
  an unexpected cluster size and an admin client that could not be created, when nothing else was
  requested.
\<close>

theorem failures_are_counted_once:
  assumes answers: "answers_topics api"
    and run: "ts_Reconcile api s = Some (Returned (result, err) s')"
    and topic: "t = Topic (ts_canaryConfig (self s))"
  shows "topic_errors (world s') t = topic_errors (world s) t + 1 \<and> err \<noteq> None
    \<or> topic_errors (world s') t = topic_errors (world s) t
      \<and> (err = None \<or> err = Some ErrExpectedClusterSize
         \<or> calls (world s') = calls (world s) @ [NewClusterAdmin (BootstrapServers (ts_canaryConfig (self s)))])"
proof -
  from run obtain s1 where run1: "reconcileTopic api s = Some (Returned (result, err) s1)"
    and close: "whenever (err \<noteq> None \<and> IsDisconnection err) (ts_Close api) s1 = Some (Returned () s')"
    by (auto simp: ts_Reconcile_def returned_iffs)
  have "quiet t s1 s'"
    using close quiet_returned(7) by (auto simp: returned_iffs quiet.refl)
  moreover have "s' = s1" if "ts_admin (self s1) = None"
    using close that by (auto simp: ts_Close_def returned_iffs returned_case_iffs get_self_returned)
  ultimately show ?thesis
    using reconcileTopic_accounted [OF answers run1 topic] by (auto simp: accounted_def quiet_def)
qed

theorem failures_are_counted_once_witness:
  "\<exists>result s'. ts_Reconcile sim_api \<lparr>self = sample_ts, world = start_world (three_brokers\<lparr>failing := Some EOF\<rparr>)\<rparr>
      = Some (Returned (result, Some EOF) s') \<and> topic_errors (world s') ''canary'' = 1"
proof -
  let ?s = "\<lparr>self = sample_ts, world = start_world (three_brokers\<lparr>failing := Some EOF\<rparr>)\<rparr>"
  have "observed (ts_Reconcile sim_api) ?s = Some ((no_result, Some EOF), [DescribeCluster 7, AdminClose 7])"
    by code_simp
  from observedD [OF this] obtain s' where run: "ts_Reconcile sim_api ?s = Some (Returned (no_result, Some EOF) s')"
    and cs: "calls (world s') = [DescribeCluster 7, AdminClose 7]" by blast
  have t: "Topic (ts_canaryConfig (self ?s)) = ''canary''" "topic_errors (world ?s) ''canary'' = 0"
    by (simp_all add: sample_ts_def new_topic_service_def sample_config_def topic_errors_def counted_def start_world_def)
  from failures_are_counted_once [OF sim_answers run refl] run cs t show ?thesis
    by auto
qed


text \<open>What a reconcile in dynamic mode returns on success.\<close>

definition good_result :: "'e externals \<Rightarrow> broker list \<Rightarrow> nat \<Rightarrow> topic_metadata \<Rightarrow> reconcile_result \<Rightarrow> bool" where
  "good_result api bs k m result \<longleftrightarrow>
     Assignments result = fst (requestedAssignments k bs) \<and> Leaders result = currentLeaders m
     \<and> (RefreshProducerMetadata result \<longrightarrow> k \<noteq> length bs)"

lemma existing_success:
  assumes "reconcile_existing api bs m s = Some (Returned (result, None) s')"
    and "isDynamicReassignmentEnabled (self s)"
  shows "good_result api bs (length (tm_Partitions m)) (logTopicMetadata m) result \<and> ts_initialized (self s')"
proof -
  let ?m = "logTopicMetadata m"
  from assms(1) obtain s1 where
    alter: "(if \<not> ts_initialized (self s) then alterTopicConfiguration api else ret None) s = Some (Returned None s1)"
    and rest: "reassign_existing api bs ?m s1 = Some (Returned (result, None) s')"
    by (auto simp: reconcile_existing_def Let_def returned_iffs get_self_returned returned_case_iffs)
  have "quiet (Topic (ts_canaryConfig (self s))) s s1"
    using alter quiet_returned(3) by (auto simp: returned_case_iffs returned_iffs quiet.refl)
  with assms(2) have dyn: "isDynamicReassignmentEnabled (self s1)"
    by (simp add: quiet_def isDynamicReassignmentEnabled_def)
  have asg: "fst a = fst (requestedAssignments k brokers)"
    if "alterTopicAssignments api k brokers t = Some (Returned a t')" for a k brokers t t'
    using that by (auto simp: alterTopicAssignments_def Let_def returned_iffs returned_case_iffs)
  have len: "length (tm_Partitions ?m) = length (tm_Partitions m)" by (simp add: logTopicMetadata_def)
  from rest dyn show ?thesis
    by (auto simp: reassign_existing_def returned_iffs returned_case_iffs get_self_returned reconciled_returned
        good_result_def Let_def len no_result_def dest: asg)
qed

lemma missing_success:
  assumes "reconcile_missing api bs m s = Some (Returned (result, None) s')"
  shows "\<exists>m'. good_result api bs 0 m' result \<and> ts_initialized (self s')"
proof -
  have asg: "a = fst (requestedAssignments 0 bs)"
    if "createTopic api bs t = Some (Returned (a, err) t')" for a err t t'
    using that by (auto simp: createTopic_def returned_iffs returned_case_iffs)
  from assms show ?thesis
    by (auto simp: reconcile_missing_def returned_iffs returned_case_iffs get_self_returned reconciled_returned
        good_result_def Let_def no_result_def dest!: asg)
qed

text \<open>The steps of a reconcile that succeeds.\<close>

lemma reconcile_path:
  assumes "ts_Reconcile api s = Some (Returned (result, None) s')"
  shows "\<exists>s1 s2 s3 s4 bs m. ensure_admin api s = Some (Returned None s1)
    \<and> with_admin (\<lambda>h. extern (DescribeCluster h) (x_DescribeCluster api h)) s1 = Some (Returned (bs, None) s2)
    \<and> describeCanaryTopic api s2 = Some (Returned (Inr m) s3)
    \<and> whenever (\<not> ts_initialized (self s3)) (init_topic_metrics m) s3 = Some (Returned () s4)
    \<and> (tm_Err m = ErrUnknownTopicOrPartition \<and> reconcile_missing api bs m s4 = Some (Returned (result, None) s')
       \<or> tm_Err m = ErrNoError \<and> reconcile_existing api bs m s4 = Some (Returned (result, None) s'))"
proof -
  from assms have "reconcileTopic api s = Some (Returned (result, None) s')"
    by (auto simp: ts_Reconcile_def returned_iffs)
  then obtain s1 s2 s3 s4 bs m where
    "ensure_admin api s = Some (Returned None s1)"
    "with_admin (\<lambda>h. extern (DescribeCluster h) (x_DescribeCluster api h)) s1 = Some (Returned (bs, None) s2)"
    "describeCanaryTopic api s2 = Some (Returned (Inr m) s3)"
    "whenever (\<not> ts_initialized (self s3)) (init_topic_metrics m) s3 = Some (Returned () s4)"
    "tm_Err m = ErrUnknownTopicOrPartition \<and> reconcile_missing api bs m s4 = Some (Returned (result, None) s')
       \<or> tm_Err m = ErrNoError \<and> reconcile_existing api bs m s4 = Some (Returned (result, None) s')"
    by (auto simp: reconcileTopic_def returned_iffs returned_case_iffs get_self_returned)
  then show ?thesis by blast
qed

lemma reconcile_result:
  assumes "isDynamicReassignmentEnabled (self s)"
    and run: "ts_Reconcile api s = Some (Returned (result, None) s')"
  shows "ts_initialized (self s') \<and> (\<exists>bs k m h e e'. x_DescribeCluster api h e = ((bs, None), e')
    \<and> good_result api bs k m result)"
proof -
  from reconcile_path [OF run] obtain s1 s2 s3 s4 bs m where
    opened: "ensure_admin api s = Some (Returned None s1)" and
    descr: "with_admin (\<lambda>h. extern (DescribeCluster h) (x_DescribeCluster api h)) s1 = Some (Returned (bs, None) s2)" and
    topics: "describeCanaryTopic api s2 = Some (Returned (Inr m) s3)" and
    w: "whenever (\<not> ts_initialized (self s3)) (init_topic_metrics m) s3 = Some (Returned () s4)" and
    rest: "reconcile_missing api bs m s4 = Some (Returned (result, None) s')
        \<or> reconcile_existing api bs m s4 = Some (Returned (result, None) s')"
    by blast
  let ?t = "Topic (ts_canaryConfig (self s2))"
  have "quiet ?t s s2"
    using quiet.trans [OF quiet_returned(1) [OF opened] quiet_returned(2) [OF descr]] .
  moreover have "quiet ?t s3 s4" using quiet_whenever [OF w] .
  ultimately have dyn: "isDynamicReassignmentEnabled (self s4)"
    using assms(1) describe_counts [OF topics refl] by (simp add: quiet_def isDynamicReassignmentEnabled_def)
  have "\<exists>h e e'. x_DescribeCluster api h e = ((bs, None), e')"
    using descr by (auto dest!: with_admin_returned extern_returned)
  moreover have "\<exists>k m'. good_result api bs k m' result \<and> ts_initialized (self s')"
    using rest existing_success [OF _ dyn] missing_success by blast
  ultimately show ?thesis by blast
qed

text \<open>The steps before the last leave the configuration and the flag.\<close>

definition same_mode :: "(topic_service, 'e world) ctx \<Rightarrow> (topic_service, 'e world) ctx \<Rightarrow> bool" where
  "same_mode s s' \<longleftrightarrow> ts_canaryConfig (self s') = ts_canaryConfig (self s) \<and> ts_initialized (self s') = ts_initialized (self s)
     \<and> (\<exists>cs. calls (world s') = calls (world s) @ cs)"

interpretation same_mode: step_preorder same_mode
  by unfold_locales (auto simp: same_mode_def)

lemma same_mode_intros:
  "same_mode s (s\<lparr>world := (world s)\<lparr>env := e, calls := calls (world s) @ [c]\<rparr>\<rparr>)"
  "same_mode s (s\<lparr>world := count_up k nl (world s)\<rparr>)"
  "same_mode s (s\<lparr>self := ts_admin_update f (self s)\<rparr>)"
  "same_mode s (after_polls s e cs)"
  by (auto simp: same_mode_def after_polls_def)

lemmas same_mode_rules = same_mode.safe_steps safe_world safe_with_admin [OF same_mode.step_preorder_axioms]
  safe_topic_name safe_await same_mode_intros same_mode.refl

lemma same_mode_parts:
  "safe True (\<lambda>_. True) same_mode (ensure_admin api) s"
  "safe True (\<lambda>_. True) same_mode (with_admin (\<lambda>h. extern (c h) (f h))) s"
  "safe True (\<lambda>_. True) same_mode (alterTopicConfiguration api) s"
  "safe True (\<lambda>_. True) same_mode (createTopic api brokers) s"
  "safe True (\<lambda>_. True) same_mode (init_topic_metrics m) s"
  "safe True (\<lambda>_. True) same_mode (alterTopicAssignments api k brokers) s"
  "safe True (\<lambda>_. True) same_mode (describeCanaryTopic api) s"
  unfolding ensure_admin_def alterTopicConfiguration_def createTopic_def init_topic_metrics_def
    alterTopicAssignments_def alterAssignments_def describeCanaryTopic_def Let_def
  by (intro same_mode_rules; simp)+

lemmas same_mode_returned = same_mode_parts [THEN safe_returnedD]

text \<open>Whether a reconcile of the service reassigns when there are the brokers \<open>bs\<close>.\<close>

definition reassigns :: "topic_service \<Rightarrow> broker list \<Rightarrow> bool" where
  "reassigns ts bs \<longleftrightarrow> isDynamicReassignmentEnabled ts
     \<or> \<not> ts_initialized ts \<and> ExpectedClusterSize (ts_canaryConfig ts) = int (length bs)"

lemma reassigns_same_mode: "same_mode s s' \<Longrightarrow> reassigns (self s') bs = reassigns (self s) bs"
  by (simp add: same_mode_def reassigns_def isDynamicReassignmentEnabled_def)

lemma existing_returned:
  assumes "reconcile_existing api bs m s = Some (Returned (result, None) s')"
  shows "ts_initialized (self s') \<and> Leaders result = currentLeaders (logTopicMetadata m)
    \<and> (if reassigns (self s) bs
       then Assignments result = fst (requestedAssignments (length (tm_Partitions m)) bs)
         \<and> (RefreshProducerMetadata result \<longleftrightarrow> length bs \<noteq> length (tm_Partitions m))
       else Assignments result = currentAssignments (logTopicMetadata m) \<and> \<not> RefreshProducerMetadata result)
    \<and> (\<exists>cs. calls (world s') = calls (world s) @ cs)"
proof -
  let ?m = "logTopicMetadata m"
  from assms obtain s1 where
    alter: "(if \<not> ts_initialized (self s) then alterTopicConfiguration api else ret None) s = Some (Returned None s1)"
    and rest: "reassign_existing api bs ?m s1 = Some (Returned (result, None) s')"
    by (auto simp: reconcile_existing_def Let_def returned_iffs get_self_returned returned_case_iffs)
  have "same_mode s s1"
    using alter same_mode_returned(3) by (auto simp: returned_case_iffs returned_iffs same_mode.refl)
  note mode = this reassigns_same_mode [OF this, of bs]
  have alters: "fst a = fst (requestedAssignments k brokers) \<and> same_mode t t'"
    if "alterTopicAssignments api k brokers t = Some (Returned a t')" for a k brokers t t'
    using that same_mode_returned(6) [OF that] by (auto simp: alterTopicAssignments_def Let_def returned_iffs returned_case_iffs)
  have len: "length (tm_Partitions ?m) = length (tm_Partitions m)" by (simp add: logTopicMetadata_def)
  show ?thesis
  proof (cases "reassigns (self s) bs")
    case True
    with rest mode(2) obtain t1 where t1: "alterTopicAssignments api (length (tm_Partitions ?m)) bs s1 = Some (Returned (Assignments result, None) t1)"
      "Leaders result = currentLeaders ?m" "RefreshProducerMetadata result \<longleftrightarrow> length bs \<noteq> length (tm_Partitions ?m)"
      "s' = t1\<lparr>self := ts_initialized_update (\<lambda>_. True) (self t1)\<rparr>"
      by (auto simp: reassign_existing_def reassigns_def returned_iffs returned_case_iffs get_self_returned reconciled_returned Let_def no_result_def)
    with alters [OF t1(1)] mode(1) True len show ?thesis by (auto simp: same_mode_def)
  next
    case False
    with rest mode show ?thesis
      by (auto simp: reassign_existing_def reassigns_def returned_iffs returned_case_iffs get_self_returned reconciled_returned
          Let_def no_result_def same_mode_def)
  qed
qed

lemma missing_returned:
  assumes "reconcile_missing api bs m s = Some (Returned (result, None) s')"
  shows "ts_initialized (self s') \<and> Assignments result = fst (requestedAssignments 0 bs) \<and> \<not> RefreshProducerMetadata result
    \<and> (isDynamicReassignmentEnabled (self s) \<or> ExpectedClusterSize (ts_canaryConfig (self s)) = int (length bs))
    \<and> (\<exists>t t' m'. describeCanaryTopic api t = Some (Returned (Inr m') t') \<and> world s' = world t' \<and> Leaders result = currentLeaders m')
    \<and> (\<exists>cs. calls (world s') = calls (world s) @ cs)"
proof -
  have asg: "a = fst (requestedAssignments 0 bs) \<and> same_mode t t'"
    if "createTopic api bs t = Some (Returned (a, err) t')" for a err t t'
    using that same_mode_returned(4) [OF that] by (auto simp: createTopic_def returned_iffs returned_case_iffs)
  from assms obtain t1 t2 m' where t: "createTopic api bs s = Some (Returned (Assignments result, None) t1)"
    "describeCanaryTopic api t1 = Some (Returned (Inr m') t2)" "Leaders result = currentLeaders m'"
    "\<not> RefreshProducerMetadata result" "s' = t2\<lparr>self := ts_initialized_update (\<lambda>_. True) (self t2)\<rparr>"
    and size: "isDynamicReassignmentEnabled (self s) \<or> ExpectedClusterSize (ts_canaryConfig (self s)) = int (length bs)"
    by (auto simp: reconcile_missing_def returned_iffs returned_case_iffs get_self_returned reconciled_returned Let_def no_result_def)
  from asg [OF t(1)] same_mode_returned(7) [OF t(2)] have "\<exists>cs. calls (world s') = calls (world s) @ cs"
    using t(5) by (auto simp: same_mode_def)
  moreover have "world s' = world t2" "ts_initialized (self s')" using t(5) by simp_all
  ultimately show ?thesis using asg [OF t(1)] t(2-4) size by blast
qed

text \<open>The way of a successful reconcile, with the mode of the service it starts from.\<close>

lemma reconcile_way:
  assumes "ts_Reconcile api s = Some (Returned (result, None) s')"
  shows "\<exists>h bs m s1 s2 s3 s4. ensure_admin api s = Some (Returned None s1) \<and> ts_admin (self s1) = Some h
    \<and> x_DescribeCluster api h (env (world s1)) = ((bs, None), env (world s2)) \<and> calls (world s2) = calls (world s1) @ [DescribeCluster h]
    \<and> describeCanaryTopic api s2 = Some (Returned (Inr m) s3) \<and> same_mode s s1 \<and> self s2 = self s1 \<and> same_mode s3 s4 \<and> same_mode s s4
    \<and> (tm_Err m = ErrUnknownTopicOrPartition \<and> reconcile_missing api bs m s4 = Some (Returned (result, None) s')
       \<or> tm_Err m = ErrNoError \<and> reconcile_existing api bs m s4 = Some (Returned (result, None) s'))"
proof -
  from reconcile_path [OF assms] obtain s1 s2 s3 s4 bs m where
    path: "ensure_admin api s = Some (Returned None s1)"
    "with_admin (\<lambda>h. extern (DescribeCluster h) (x_DescribeCluster api h)) s1 = Some (Returned (bs, None) s2)"
    "describeCanaryTopic api s2 = Some (Returned (Inr m) s3)"
    "whenever (\<not> ts_initialized (self s3)) (init_topic_metrics m) s3 = Some (Returned () s4)"
    and rest: "tm_Err m = ErrUnknownTopicOrPartition \<and> reconcile_missing api bs m s4 = Some (Returned (result, None) s')
       \<or> tm_Err m = ErrNoError \<and> reconcile_existing api bs m s4 = Some (Returned (result, None) s')" by blast
  have mode: "same_mode s s1" "same_mode s1 s2" "same_mode s2 s3" "same_mode s3 s4"
    using same_mode_returned(1) [OF path(1)] same_mode_returned(2) [OF path(2)] same_mode_returned(7) [OF path(3)] path(4)
      same_mode_returned(5) [of m s3] by (auto simp: returned_iffs same_mode.refl)
  from path(2) obtain h where h: "ts_admin (self s1) = Some h" "x_DescribeCluster api h (env (world s1)) = ((bs, None), env (world s2))"
    "calls (world s2) = calls (world s1) @ [DescribeCluster h]" "self s2 = self s1"
    by (auto simp: extern_def dest!: with_admin_returned split: prod.splits)
  from mode have "same_mode s s4" by (blast intro: same_mode.trans)
  with path(1,3) h mode(1,4) rest show ?thesis by blast
qed

lemma reconcile_describes:
  assumes "ts_Reconcile api s = Some (Returned (result, None) s')"
  shows "\<exists>as h bs. calls (world s')
    = calls (world s) @ as @ [DescribeCluster h, DescribeTopics h [Topic (ts_canaryConfig (self s))]] @ bs"
proof -
  from reconcile_way [OF assms] obtain h bs m s1 s2 s3 s4 where
    h: "ts_admin (self s1) = Some h" "self s2 = self s1" and cluster: "calls (world s2) = calls (world s1) @ [DescribeCluster h]"
    and topic: "describeCanaryTopic api s2 = Some (Returned (Inr m) s3)" and mode: "same_mode s s1" "same_mode s3 s4"
    and rest: "reconcile_missing api bs m s4 = Some (Returned (result, None) s') \<or> reconcile_existing api bs m s4 = Some (Returned (result, None) s')"
    by blast
  from rest obtain cs where "calls (world s') = calls (world s4) @ cs"
    using missing_returned [of api bs m s4 result s'] existing_returned [of api bs m s4 result s'] by blast
  moreover from topic h mode(1) have "calls (world s3) = calls (world s2) @ [DescribeTopics h [Topic (ts_canaryConfig (self s))]]"
    by (auto simp: describeCanaryTopic_def returned_iffs returned_case_iffs at_index_Inr_iff topic_name_returned same_mode_def
        dest!: with_admin_returned extern_returned)
  moreover from mode obtain as ds where "calls (world s1) = calls (world s) @ as" "calls (world s4) = calls (world s3) @ ds"
    by (auto simp: same_mode_def)
  ultimately have "calls (world s') = calls (world s) @ as
      @ [DescribeCluster h, DescribeTopics h [Topic (ts_canaryConfig (self s))]] @ ds @ cs" using cluster by simp
  then show ?thesis by blast
qed

text \<open>
  C26: what a successful reconcile returns, in every mode. It has described the cluster, on the client it had or has
  opened, and then the topic, and its result is made of these two answers: if the topic exists, the leaders are those of
  the metadata read; when the service reassigns (in dynamic mode, or at start-up with the expected
  number of brokers) the assignments are those requested for the brokers of the answer and the number of partitions
  found, and a metadata refresh is asked for exactly when these numbers differ; otherwise the assignments are the
  current ones and no refresh is asked for. If the topic did not exist, it was created with the assignments
  requested for no partition, and the leaders are those of the metadata that the last request read. The
  service is initialized.
\<close>

theorem reconcile_success:
  assumes "ts_Reconcile api s = Some (Returned (result, None) s')"
  shows "ts_initialized (self s') \<and> (\<exists>h bs m s1 s2 s3. ensure_admin api s = Some (Returned None s1) \<and> ts_admin (self s1) = Some h
    \<and> x_DescribeCluster api h (env (world s1)) = ((bs, None), env (world s2)) \<and> calls (world s2) = calls (world s1) @ [DescribeCluster h]
    \<and> describeCanaryTopic api s2 = Some (Returned (Inr m) s3)
    \<and> (case tm_Err m of
         ErrNoError \<Rightarrow> Leaders result = currentLeaders (logTopicMetadata m)
           \<and> (if reassigns (self s) bs
              then Assignments result = fst (requestedAssignments (length (tm_Partitions m)) bs)
                \<and> (RefreshProducerMetadata result \<longleftrightarrow> length bs \<noteq> length (tm_Partitions m))
              else Assignments result = currentAssignments (logTopicMetadata m) \<and> \<not> RefreshProducerMetadata result)
       | ErrUnknownTopicOrPartition \<Rightarrow> Assignments result = fst (requestedAssignments 0 bs) \<and> \<not> RefreshProducerMetadata result
           \<and> (isDynamicReassignmentEnabled (self s) \<or> ExpectedClusterSize (ts_canaryConfig (self s)) = int (length bs))
           \<and> (\<exists>t t' m'. describeCanaryTopic api t = Some (Returned (Inr m') t') \<and> world s' = world t'
                \<and> Leaders result = currentLeaders m')
       | OtherKError n \<Rightarrow> False))"
proof -
  from reconcile_way [OF assms] obtain h bs m s1 s2 s3 s4 where
    way: "ensure_admin api s = Some (Returned None s1)" "ts_admin (self s1) = Some h"
    "x_DescribeCluster api h (env (world s1)) = ((bs, None), env (world s2))" "calls (world s2) = calls (world s1) @ [DescribeCluster h]"
    "describeCanaryTopic api s2 = Some (Returned (Inr m) s3)" and mode: "same_mode s s4"
    and rest: "tm_Err m = ErrUnknownTopicOrPartition \<and> reconcile_missing api bs m s4 = Some (Returned (result, None) s')
       \<or> tm_Err m = ErrNoError \<and> reconcile_existing api bs m s4 = Some (Returned (result, None) s')"
    by blast
  have dyn: "isDynamicReassignmentEnabled (self s4) = isDynamicReassignmentEnabled (self s)"
    "ts_canaryConfig (self s4) = ts_canaryConfig (self s)"
    using mode by (simp_all add: same_mode_def isDynamicReassignmentEnabled_def)
  from rest show ?thesis
  proof (elim disjE conjE)
    assume "tm_Err m = ErrUnknownTopicOrPartition" "reconcile_missing api bs m s4 = Some (Returned (result, None) s')"
    with missing_returned [OF this(2)] way show ?thesis unfolding dyn by (intro conjI exI [of _ h] exI [of _ bs] exI [of _ m]
      exI [of _ s1] exI [of _ s2] exI [of _ s3]) simp_all
  next
    assume "tm_Err m = ErrNoError" "reconcile_existing api bs m s4 = Some (Returned (result, None) s')"
    with existing_returned [OF this(2), unfolded reassigns_same_mode [OF mode]] way show ?thesis
      by (intro conjI exI [of _ h] exI [of _ bs] exI [of _ m] exI [of _ s1] exI [of _ s2] exI [of _ s3]) simp_all
  qed
qed

text \<open>A service that starts against a cluster without the topic, and one with a single partition.\<close>

theorem reconcile_success_witness:
  "\<exists>result s'. ts_Reconcile sim_api \<lparr>self = sample_ts, world = start_world one_partition\<rparr>
      = Some (Returned (result, None) s') \<and> ts_initialized (self s')
    \<and> Assignments result = [(0, [0, 1, 2]), (1, [1, 2, 0]), (2, [2, 0, 1])]"
proof -
  let ?s = "\<lparr>self = sample_ts, world = start_world one_partition\<rparr>"
  have "map_option (\<lambda>((r, err), cs). (Assignments r, err)) (observed (ts_Reconcile sim_api) ?s)
      = Some ([(0, [0, 1, 2]), (1, [1, 2, 0]), (2, [2, 0, 1])], None)"
    by code_simp
  then obtain result s' where run: "ts_Reconcile sim_api ?s = Some (Returned (result, None) s')"
    and asg: "Assignments result = [(0, [0, 1, 2]), (1, [1, 2, 0]), (2, [2, 0, 1])]"
    by (auto simp: observed_def split: option.splits outcome.splits)
  from reconcile_success [OF run] have "ts_initialized (self s')" by (rule conjunct1)
  with run asg show ?thesis by blast
qed

end
