(* ===== verification/Go_Json.thy ===== *)
theory Go_Json
  imports Go_Strings
begin

text \<open>
  What the canary uses of Go's \<open>encoding/json\<close>: the quoting of strings by \<open>Marshal\<close> (with its
  HTML escapes and the treatment of bytes that are not UTF-8), and the reading of a JSON text into
  values by \<open>Unmarshal\<close>. A text that is not JSON gives \<open>None\<close>. The recursive reader takes fuel;
  at most two nested calls are made for a byte, so twice the length of the text is enough. The limit of 10000 nested
  values is not modelled.
\<close>

section \<open>Bytes and runes\<close>

abbreviation (input) dquote :: char where "dquote \<equiv> CHR 0x22"
abbreviation (input) backslash :: char where "backslash \<equiv> CHR 0x5C"

definition byte :: "char \<Rightarrow> nat" where
  "byte c = of_char c"

definition in_range :: "nat \<Rightarrow> nat \<Rightarrow> char \<Rightarrow> bool" where
  "in_range lo hi c \<longleftrightarrow> lo \<le> byte c \<and> byte c \<le> hi"

text \<open>The length of the well-formed multi-byte UTF-8 sequence a string begins with.\<close>

definition rune_len :: "string \<Rightarrow> nat option" where
  "rune_len s = (case s of
       a # b # s2 \<Rightarrow>
         if in_range 0xC2 0xDF a \<and> in_range 0x80 0xBF b then Some 2
         else (case s2 of
           [] \<Rightarrow> None
         | c # s3 \<Rightarrow>
             if in_range 0x80 0xBF c \<and>
                (in_range 0xE0 0xE0 a \<and> in_range 0xA0 0xBF b
                 \<or> (in_range 0xE1 0xEC a \<or> in_range 0xEE 0xEF a) \<and> in_range 0x80 0xBF b
                 \<or> in_range 0xED 0xED a \<and> in_range 0x80 0x9F b) then Some 3
             else (case s3 of
               [] \<Rightarrow> None
             | d # s4 \<Rightarrow>
                 if in_range 0x80 0xBF c \<and> in_range 0x80 0xBF d \<and>
                    (in_range 0xF0 0xF0 a \<and> in_range 0x90 0xBF b
                     \<or> in_range 0xF1 0xF3 a \<and> in_range 0x80 0xBF b
                     \<or> in_range 0xF4 0xF4 a \<and> in_range 0x80 0x8F b) then Some 4
                 else None))
     | _ \<Rightarrow> None)"

definition utf8 :: "nat \<Rightarrow> string" where
  "utf8 u =
     (if u < 0x80 then [char_of u]
      else if u < 0x800 then [char_of (0xC0 + u div 0x40), char_of (0x80 + u mod 0x40)]
      else if u < 0x10000 then
        [char_of (0xE0 + u div 0x1000), char_of (0x80 + u div 0x40 mod 0x40), char_of (0x80 + u mod 0x40)]
      else [char_of (0xF0 + u div 0x40000), char_of (0x80 + u div 0x1000 mod 0x40),
        char_of (0x80 + u div 0x40 mod 0x40), char_of (0x80 + u mod 0x40)])"

definition replacement :: string where
  "replacement = utf8 0xFFFD"

section \<open>Marshal\<close>

definition hex_digit :: "nat \<Rightarrow> char" where
  "hex_digit n = char_of (if n < 10 then 48 + n else 87 + n)"

definition u_escape :: "nat \<Rightarrow> string" where
  "u_escape n = [backslash, CHR ''u'', hex_digit (n div 0x1000 mod 16), hex_digit (n div 0x100 mod 16),
     hex_digit (n div 0x10 mod 16), hex_digit (n mod 16)]"

definition escape_ascii :: "char \<Rightarrow> string" where
  "escape_ascii c =
     (if c = backslash \<or> c = dquote then [backslash, c]
      else if byte c = 8 then [backslash, CHR ''b'']
      else if byte c = 12 then [backslash, CHR ''f'']
      else if byte c = 10 then [backslash, CHR ''n'']
      else if byte c = 13 then [backslash, CHR ''r'']
      else if byte c = 9 then [backslash, CHR ''t'']
      else if byte c < 32 \<or> c = CHR ''<'' \<or> c = CHR ''>'' \<or> c = CHR ''&'' then u_escape (byte c)
      else [c])"

fun escape :: "string \<Rightarrow> string" where
  "escape [] = []"
| "escape (c # cs) =
     (if byte c < 128 then escape_ascii c @ escape cs
      else case rune_len (c # cs) of
        None \<Rightarrow> u_escape 0xFFFD @ escape cs
      | Some n \<Rightarrow>
          (if c # take (n - 1) cs = utf8 0x2028 then u_escape 0x2028
           else if c # take (n - 1) cs = utf8 0x2029 then u_escape 0x2029
           else c # take (n - 1) cs) @ escape (drop (n - 1) cs))"

definition quoted :: "string \<Rightarrow> string" where
  "quoted s = dquote # escape s @ [dquote]"

section \<open>Unmarshal\<close>

datatype json =
    JNull | JBool bool | JNumber string | JString string
  | JArray "json list" | JObject "(string \<times> json) list"

definition hex_val :: "char \<Rightarrow> nat option" where
  "hex_val c =
     (if in_range 48 57 c then Some (byte c - 48)
      else if in_range 97 102 c then Some (byte c - 87)
      else if in_range 65 70 c then Some (byte c - 55)
      else None)"

definition hex4 :: "char \<Rightarrow> char \<Rightarrow> char \<Rightarrow> char \<Rightarrow> nat option" where
  "hex4 a b c d = (case (hex_val a, hex_val b, hex_val c, hex_val d) of
       (Some x, Some y, Some z, Some w) \<Rightarrow> Some (x * 0x1000 + y * 0x100 + z * 0x10 + w)
     | _ \<Rightarrow> None)"

definition simple_escape :: "char \<Rightarrow> char option" where
  "simple_escape e =
     (if e = dquote \<or> e = backslash \<or> e = CHR ''/'' then Some e
      else if e = CHR ''b'' then Some (char_of (8::nat))
      else if e = CHR ''f'' then Some (char_of (12::nat))
      else if e = CHR ''n'' then Some (char_of (10::nat))
      else if e = CHR ''r'' then Some (char_of (13::nat))
      else if e = CHR ''t'' then Some (char_of (9::nat))
      else None)"

text \<open>The second half of a surrogate pair, when the text goes on with one.\<close>

definition low_surrogate :: "string \<Rightarrow> nat option" where
  "low_surrogate s = (case s of
       k # u # a # b # c # d # _ \<Rightarrow>
         if k = backslash \<and> u = CHR ''u'' then
           (case hex4 a b c d of
              Some v \<Rightarrow> if 0xDC00 \<le> v \<and> v < 0xE000 then Some v else None
            | None \<Rightarrow> None)
         else None
     | _ \<Rightarrow> None)"

definition emit :: "string \<Rightarrow> (string \<times> string) option \<Rightarrow> (string \<times> string) option" where
  "emit pre r = map_option (\<lambda>(s, rest). (pre @ s, rest)) r"

text \<open>The rest of a string literal after its opening quote: its value and what follows it.\<close>

fun unquote :: "string \<Rightarrow> (string \<times> string) option" where
  "unquote [] = None"
| "unquote (c # cs) =
     (if c = dquote then Some ([], cs)
      else if c = backslash then
        (case cs of
           [] \<Rightarrow> None
         | e # rest \<Rightarrow>
             (case simple_escape e of
                Some r \<Rightarrow> emit [r] (unquote rest)
              | None \<Rightarrow>
                  if e \<noteq> CHR ''u'' then None
                  else (case rest of
                      x # y # z # w # more \<Rightarrow>
                        (case hex4 x y z w of
                           None \<Rightarrow> None
                         | Some u \<Rightarrow>
                             if 0xD800 \<le> u \<and> u < 0xE000 then
                               (case low_surrogate more of
                                  Some v \<Rightarrow> if u < 0xDC00
                                    then emit (utf8 (0x10000 + (u - 0xD800) * 0x400 + (v - 0xDC00))) (unquote (drop 6 more))
                                    else emit replacement (unquote more)
                                | None \<Rightarrow> emit replacement (unquote more))
                             else emit (utf8 u) (unquote more))
                    | _ \<Rightarrow> None)))
      else if byte c < 32 then None
      else if byte c < 128 then emit [c] (unquote cs)
      else (case rune_len (c # cs) of
          None \<Rightarrow> emit replacement (unquote cs)
        | Some n \<Rightarrow> emit (c # take (n - 1) cs) (unquote (drop (n - 1) cs))))"

definition is_space :: "char \<Rightarrow> bool" where
  "is_space c \<longleftrightarrow> byte c \<in> {32, 9, 10, 13}"

definition skip :: "string \<Rightarrow> string" where
  "skip s = dropWhile is_space s"

definition is_digit :: "char \<Rightarrow> bool" where
  "is_digit c \<longleftrightarrow> in_range 48 57 c"

definition opt_char :: "(char \<Rightarrow> bool) \<Rightarrow> string \<Rightarrow> string \<times> string" where
  "opt_char P s = (case s of [] \<Rightarrow> ([], []) | c # cs \<Rightarrow> if P c then ([c], cs) else ([], s))"

text \<open>A number literal: sign, integer part without a leading zero, fraction, exponent.\<close>

definition scan_fraction :: "string \<Rightarrow> (string \<times> string) option" where
  "scan_fraction s = (case s of
       c # cs \<Rightarrow> if c = CHR ''.'' then
           (if takeWhile is_digit cs = [] then None
            else Some (c # takeWhile is_digit cs, dropWhile is_digit cs))
         else Some ([], s)
     | [] \<Rightarrow> Some ([], []))"

definition scan_exponent :: "string \<Rightarrow> (string \<times> string) option" where
  "scan_exponent s = (case s of
       c # cs \<Rightarrow> if c = CHR ''e'' \<or> c = CHR ''E'' then
           (case opt_char (\<lambda>x. x = CHR ''+'' \<or> x = CHR ''-'') cs of (sign, cs') \<Rightarrow>
              if takeWhile is_digit cs' = [] then None
              else Some (c # sign @ takeWhile is_digit cs', dropWhile is_digit cs'))
         else Some ([], s)
     | [] \<Rightarrow> Some ([], []))"

definition scan_unsigned :: "string \<Rightarrow> (string \<times> string) option" where
  "scan_unsigned s = (case s of
       [] \<Rightarrow> None
     | c # cs \<Rightarrow>
         if \<not> is_digit c then None
         else let (ds, s2) = (if c = CHR ''0'' then ([c], cs) else (takeWhile is_digit s, dropWhile is_digit s))
           in (case scan_fraction s2 of
               None \<Rightarrow> None
             | Some (f, s3) \<Rightarrow> (case scan_exponent s3 of
                   None \<Rightarrow> None
                 | Some (e, s4) \<Rightarrow> Some (ds @ f @ e, s4))))"

definition scan_number :: "string \<Rightarrow> (string \<times> string) option" where
  "scan_number s = (case opt_char (\<lambda>x. x = CHR ''-'') s of (sign, s1) \<Rightarrow>
     map_option (\<lambda>(n, rest). (sign @ n, rest)) (scan_unsigned s1))"

definition scan_literal :: "string \<Rightarrow> 'a \<Rightarrow> string \<Rightarrow> ('a \<times> string) option" where
  "scan_literal word v s = (if take (length word) s = word then Some (v, drop (length word) s) else None)"

fun scan_value :: "nat \<Rightarrow> string \<Rightarrow> (json \<times> string) option"
  and scan_elements :: "nat \<Rightarrow> string \<Rightarrow> (json list \<times> string) option"
  and scan_members :: "nat \<Rightarrow> string \<Rightarrow> ((string \<times> json) list \<times> string) option" where
  "scan_value 0 s = None"
| "scan_value (Suc n) s = (case skip s of
       [] \<Rightarrow> None
     | c # cs \<Rightarrow>
         if c = dquote then map_option (\<lambda>(v, rest). (JString v, rest)) (unquote cs)
         else if c = CHR ''{'' then
           (case skip cs of
              d # ds \<Rightarrow> if d = CHR ''}'' then Some (JObject [], ds)
                else map_option (\<lambda>(v, rest). (JObject v, rest)) (scan_members n cs)
            | [] \<Rightarrow> None)
         else if c = CHR ''['' then
           (case skip cs of
              d # ds \<Rightarrow> if d = CHR '']'' then Some (JArray [], ds)
                else map_option (\<lambda>(v, rest). (JArray v, rest)) (scan_elements n cs)
            | [] \<Rightarrow> None)
         else if c = CHR ''n'' then scan_literal ''null'' JNull (c # cs)
         else if c = CHR ''t'' then scan_literal ''true'' (JBool True) (c # cs)
         else if c = CHR ''f'' then scan_literal ''false'' (JBool False) (c # cs)
         else map_option (\<lambda>(v, rest). (JNumber v, rest)) (scan_number (c # cs)))"
| "scan_elements 0 s = None"
| "scan_elements (Suc n) s = (case scan_value n s of
       None \<Rightarrow> None
     | Some (v, rest) \<Rightarrow> (case skip rest of
           [] \<Rightarrow> None
         | c # cs \<Rightarrow>
             if c = CHR '','' then map_option (\<lambda>(vs, rest). (v # vs, rest)) (scan_elements n cs)
             else if c = CHR '']'' then Some ([v], cs) else None))"
| "scan_members 0 s = None"
| "scan_members (Suc n) s = (case skip s of
       [] \<Rightarrow> None
     | q # qs \<Rightarrow>
         if q \<noteq> dquote then None
         else (case unquote qs of
             None \<Rightarrow> None
           | Some (k, s1) \<Rightarrow> (case skip s1 of
                 [] \<Rightarrow> None
               | c # cs \<Rightarrow>
                   if c \<noteq> CHR '':'' then None
                   else (case scan_value n cs of
                       None \<Rightarrow> None
                     | Some (v, s2) \<Rightarrow> (case skip s2 of
                           [] \<Rightarrow> None
                         | d # ds \<Rightarrow>
                             if d = CHR '','' then map_option (\<lambda>(kvs, rest). ((k, v) # kvs, rest)) (scan_members n ds)
                             else if d = CHR ''}'' then Some ([(k, v)], ds) else None)))))"

definition parse_json :: "string \<Rightarrow> json option" where
  "parse_json s = (case scan_value (2 * length s + 2) s of
       Some (v, rest) \<Rightarrow> if skip rest = [] then Some v else None
     | None \<Rightarrow> None)"

text \<open>
  Field names match up to case, also the two letters outside ASCII that fold to \<open>s\<close> and \<open>k\<close>.
\<close>

fun fold_name :: "string \<Rightarrow> string" where
  "fold_name [] = []"
| "fold_name (c # cs) =
     (if map byte (c # take 1 cs) = [0xC5, 0xBF] then CHR ''s'' # fold_name (drop 1 cs)
      else if map byte (c # take 2 cs) = [0xE2, 0x84, 0xAA] then CHR ''k'' # fold_name (drop 2 cs)
      else (if in_range 65 90 c then char_of (byte c + 32) else c) # fold_name cs)"

text \<open>A number literal for an integer field; a fraction, an exponent or an overflow is refused.\<close>

definition int_literal :: "string \<Rightarrow> int option" where
  "int_literal s = (case Atoi s of (i, None) \<Rightarrow> Some i | (i, Some _) \<Rightarrow> None)"


section \<open>Reading back what Marshal writes\<close>

lemma char_of_byte [simp]: "char_of (byte c) = c"
  by (simp add: byte_def)

lemma byte_char_of: "n < 256 \<Longrightarrow> byte (char_of n) = n"
  by (simp add: byte_def)


lemma byte_eq_iff: "byte c = byte d \<longleftrightarrow> c = d"
  by (simp add: byte_def)

lemma hex_val_digit [simp]: "n < 16 \<Longrightarrow> hex_val (hex_digit n) = Some n"
  by (auto simp: hex_val_def hex_digit_def in_range_def byte_char_of)

lemma hex4_u_escape:
  assumes "n < 0x10000"
  shows "hex4 (hex_digit (n div 0x1000 mod 16)) (hex_digit (n div 0x100 mod 16))
    (hex_digit (n div 0x10 mod 16)) (hex_digit (n mod 16)) = Some n"
proof -
  have top: "n div 0x1000 < 16" using assms by simp
  have "n div 0x1000 * 0x1000 + n div 0x100 mod 16 * 0x100 + n div 0x10 mod 16 * 0x10 + n mod 16 = n"
  proof -
    have "n = n div 0x10 * 0x10 + n mod 0x10" by simp
    moreover have "n div 0x10 = n div 0x100 * 0x10 + n div 0x10 mod 0x10"
      using div_mult_mod_eq [of "n div 0x10" "0x10"] by (simp add: div_mult2_eq [symmetric])
    moreover have "n div 0x100 = n div 0x1000 * 0x10 + n div 0x100 mod 0x10"
      using div_mult_mod_eq [of "n div 0x100" "0x10"] by (simp add: div_mult2_eq [symmetric])
    ultimately show ?thesis by linarith
  qed
  with top show ?thesis by (simp add: hex4_def)
qed

lemma unquote_u_escape:
  "n < 128 \<Longrightarrow> unquote (u_escape n @ t) = emit [char_of n] (unquote t)"
  using hex4_u_escape [of n]
  by (auto simp: u_escape_def simple_escape_def utf8_def)

lemma unquote_escape_ascii:
  assumes "byte c < 128"
  shows "unquote (escape_ascii c @ t) = emit [c] (unquote t)"
proof -
  have b: "char_of (8::nat) = c" if "byte c = 8" using that char_of_byte [of c] by simp
  have f: "char_of (12::nat) = c" if "byte c = 12" using that char_of_byte [of c] by simp
  have n: "char_of (10::nat) = c" if "byte c = 10" using that char_of_byte [of c] by simp
  have r: "char_of (13::nat) = c" if "byte c = 13" using that char_of_byte [of c] by simp
  have t: "char_of (9::nat) = c" if "byte c = 9" using that char_of_byte [of c] by simp
  show ?thesis
    using assms unquote_u_escape [of "byte c" t]
    by (auto simp: escape_ascii_def simple_escape_def b f n r t)
qed

lemma emit_simps [simp]: "emit p (Some (s, r)) = Some (p @ s, r)" "emit p None = None"
  by (simp_all add: emit_def)

lemma unquote_escape:
  "\<forall>c\<in>set s. byte c < 128 \<Longrightarrow> unquote (escape s @ dquote # rest) = Some (s, rest)"
  by (induction s) (simp_all add: unquote_escape_ascii)

lemma byte_digit_char: "d < 10 \<Longrightarrow> byte (digit_char d) = 48 + d"
  by (simp add: digit_char_def byte_char_of)

lemma is_digit_show_nat: "c \<in> set (show_nat n) \<Longrightarrow> is_digit c"
  by (auto dest!: show_nat_digits simp: is_digit_def in_range_def byte_digit_char)

lemma show_nat_no_leading_zero: "n \<noteq> 0 \<Longrightarrow> \<exists>d cs. 0 < d \<and> d < 10 \<and> show_nat n = digit_char d # cs"
proof (induction n rule: show_nat.induct)
  case (1 n)
  show ?case
  proof (cases "n < 10")
    case True
    with 1 show ?thesis by (auto simp: show_nat.simps [of n])
  next
    case False
    then have "n div 10 \<noteq> 0" by (simp add: div_eq_0_iff)
    with 1(1) [OF False] obtain d cs where "0 < d" "d < 10" "show_nat (n div 10) = digit_char d # cs" by blast
    with False show ?thesis by (subst show_nat.simps) auto
  qed
qed

lemma span_show_nat:
  "\<not> is_digit c \<Longrightarrow> takeWhile is_digit (show_nat n @ c # rest) = show_nat n
     \<and> dropWhile is_digit (show_nat n @ c # rest) = c # rest"
  using is_digit_show_nat by (simp add: takeWhile_append2 dropWhile_append2)

lemma scan_number_Itoa:
  assumes "c = CHR '','' \<or> c = CHR ''}''"
  shows "scan_number (Itoa i @ c # rest) = Some (Itoa i, c # rest)"
proof -
  have c: "\<not> is_digit c" "scan_fraction (c # rest) = Some ([], c # rest)" "scan_exponent (c # rest) = Some ([], c # rest)"
    using assms by (auto simp: is_digit_def in_range_def byte_def scan_fraction_def scan_exponent_def)
  have unsigned: "scan_unsigned (show_nat n @ c # rest) = Some (show_nat n, c # rest)" for n
  proof (cases "n = 0")
    case True
    have "digit_char 0 = CHR ''0''"
      by (simp add: byte_eq_iff [symmetric] byte_digit_char) (simp add: byte_def)
    with True c show ?thesis by (simp add: scan_unsigned_def show_nat.simps is_digit_def in_range_def byte_def)
  next
    case False
    then obtain d cs where d: "0 < d" "d < 10" "show_nat n = digit_char d # cs"
      using show_nat_no_leading_zero by blast
    then have "digit_char d \<noteq> CHR ''0''" "is_digit (digit_char d)"
      using byte_digit_char [of d] by (auto simp: byte_def is_digit_def in_range_def)
    with d(3) span_show_nat [OF c(1), of n rest] c(2,3) show ?thesis
      by (simp add: scan_unsigned_def Let_def)
  qed
  obtain d cs where d: "d < 10" "show_nat (nat i) = digit_char d # cs" using show_nat_Cons by blast
  show ?thesis
  proof (cases "i < 0")
    case True
    with unsigned show ?thesis by (simp add: scan_number_def opt_char_def Itoa_def)
  next
    case False
    with d digit_char_not_sign [OF d(1)] unsigned [of "nat i"] show ?thesis
      by (simp add: scan_number_def opt_char_def Itoa_def)
  qed
qed

lemma Itoa_first: "\<exists>c cs. Itoa i = c # cs \<and> (is_digit c \<or> c = CHR ''-'')"
proof (cases "i < 0")
  case False
  obtain d cs where "d < 10" "show_nat (nat i) = digit_char d # cs" using show_nat_Cons by blast
  with False show ?thesis by (auto simp: Itoa_def is_digit_def in_range_def byte_digit_char)
qed (simp add: Itoa_def)

lemma scan_value_Itoa:
  assumes "c = CHR '','' \<or> c = CHR ''}''"
  shows "scan_value (Suc n) (Itoa i @ c # rest) = Some (JNumber (Itoa i), c # rest)"
proof -
  obtain x xs where x: "Itoa i = x # xs" "is_digit x \<or> x = CHR ''-''" using Itoa_first by blast
  then have "48 \<le> byte x \<and> byte x \<le> 57 \<or> byte x = 45"
    by (auto simp: is_digit_def in_range_def byte_def)
  then have "\<not> is_space x" "x \<notin> {dquote, CHR ''{'', CHR ''['', CHR ''n'', CHR ''t'', CHR ''f''}"
    by (auto simp: is_space_def byte_def)
  with x scan_number_Itoa [OF assms, of i rest] show ?thesis
    by (simp add: skip_def)
qed

lemma scan_value_quoted:
  "\<forall>c\<in>set s. byte c < 128 \<Longrightarrow> scan_value (Suc n) (dquote # escape s @ dquote # rest) = Some (JString s, rest)"
  by (simp add: skip_def is_space_def byte_def unquote_escape)

end
