(* ===== verification/Canary_Message.thy ===== *)
theory Canary_Message
  imports Go_Json
begin

text \<open>
  The payload of a canary record, \<open>internal/services/canary_message.go\<close>: its JSON form, what a
  payload is read as (errors of \<open>Unmarshal\<close> are ignored, fields that do not fit keep their zero
  value), and its printed form.
\<close>

record canary_message =
  ProducerID :: string
  MessageID :: int
  Timestamp :: int

definition zero_message :: canary_message where
  "zero_message = \<lparr>ProducerID = '''', MessageID = 0, Timestamp = 0\<rparr>"

definition Json :: "canary_message \<Rightarrow> string" where
  "Json cm = ''{'' @ quoted ''producerId'' @ '':'' @ quoted (ProducerID cm)
     @ '','' @ quoted ''messageId'' @ '':'' @ Itoa (MessageID cm)
     @ '','' @ quoted ''timestamp'' @ '':'' @ Itoa (Timestamp cm) @ ''}''"

text \<open>One member of the object; a value of another kind or out of range leaves the field alone.\<close>

definition set_field :: "string \<times> json \<Rightarrow> canary_message \<Rightarrow> canary_message" where
  "set_field kv cm = (case kv of (k, v) \<Rightarrow>
     let name = fold_name k in
     if name = ''producerid'' then
       (case v of JString s \<Rightarrow> cm\<lparr>ProducerID := s\<rparr> | _ \<Rightarrow> cm)
     else if name = ''messageid'' then
       (case v of JNumber s \<Rightarrow> (case int_literal s of Some i \<Rightarrow> cm\<lparr>MessageID := i\<rparr> | None \<Rightarrow> cm) | _ \<Rightarrow> cm)
     else if name = ''timestamp'' then
       (case v of JNumber s \<Rightarrow> (case int_literal s of Some i \<Rightarrow> cm\<lparr>Timestamp := i\<rparr> | None \<Rightarrow> cm) | _ \<Rightarrow> cm)
     else cm)"

definition NewCanaryMessage :: "string \<Rightarrow> canary_message" where
  "NewCanaryMessage bytes = (case parse_json bytes of
       Some (JObject members) \<Rightarrow> fold set_field members zero_message
     | _ \<Rightarrow> zero_message)"

definition message_String :: "canary_message \<Rightarrow> string" where
  "message_String cm = ''{ProducerID:'' @ ProducerID cm @ '', MessageID:'' @ Itoa (MessageID cm)
     @ '', Timestamp:'' @ Itoa (Timestamp cm) @ ''}''"

section \<open>Round trip\<close>

definition int64_value :: "int \<Rightarrow> bool" where
  "int64_value i \<longleftrightarrow> - (2 ^ 63) \<le> i \<and> i < 2 ^ 63"

definition ascii :: "string \<Rightarrow> bool" where
  "ascii s \<longleftrightarrow> (\<forall>c\<in>set s. byte c < 128)"

lemma int_literal_Itoa [simp]: "int64_value i \<Longrightarrow> int_literal (Itoa i) = Some i"
  by (simp add: int_literal_def int64_value_def Atoi_Itoa)

lemma lower_i: "char_of (105::nat) = CHR ''i''"
  by (simp add: byte_eq_iff [symmetric] byte_char_of) (simp add: byte_def)

lemma field_names:
  "escape ''producerId'' = ''producerId''" "escape ''messageId'' = ''messageId''" "escape ''timestamp'' = ''timestamp''"
  "fold_name ''producerId'' = ''producerid''" "fold_name ''messageId'' = ''messageid''" "fold_name ''timestamp'' = ''timestamp''"
  by (simp_all add: byte_def escape_ascii_def in_range_def lower_i)

lemma unquote_name:
  "unquote (''producerId'' @ dquote # t) = Some (''producerId'', t)"
  "unquote (''messageId'' @ dquote # t) = Some (''messageId'', t)"
  "unquote (''timestamp'' @ dquote # t) = Some (''timestamp'', t)"
  using unquote_escape [of "''producerId''" t] unquote_escape [of "''messageId''" t]
    unquote_escape [of "''timestamp''" t]
  by (simp_all only: field_names) (simp_all add: byte_def)

text \<open>One step of the member loop, on text that \<open>Marshal\<close> writes.\<close>

lemma scan_members_step:
  assumes "unquote (k @ dquote # CHR '':'' # t) = Some (k, CHR '':'' # t)"
    and "scan_value n t = Some (v, d # ds)" "\<not> is_space d"
  shows "scan_members (Suc n) (dquote # k @ dquote # CHR '':'' # t) =
    (if d = CHR '','' then map_option (\<lambda>(kvs, rest). ((k, v) # kvs, rest)) (scan_members n ds)
     else if d = CHR ''}'' then Some ([(k, v)], ds) else None)"
proof -
  have "\<not> is_space dquote" "\<not> is_space CHR '':''" by (simp_all add: is_space_def byte_def)
  with assms show ?thesis by (simp add: skip_def)
qed

lemma parse_Json:
  assumes "ascii (ProducerID cm)"
  shows "parse_json (Json cm) = Some (JObject [(''producerId'', JString (ProducerID cm)),
    (''messageId'', JNumber (Itoa (MessageID cm))), (''timestamp'', JNumber (Itoa (Timestamp cm)))])"
proof -
  let ?m3 = "dquote # ''timestamp'' @ dquote # CHR '':'' # Itoa (Timestamp cm) @ ''}''"
  let ?m2 = "dquote # ''messageId'' @ dquote # CHR '':'' # Itoa (MessageID cm) @ CHR '','' # ?m3"
  let ?m1 = "dquote # ''producerId'' @ dquote # CHR '':'' # dquote # escape (ProducerID cm) @ dquote # CHR '','' # ?m2"
  have json: "Json cm = CHR ''{'' # ?m1" by (simp add: Json_def quoted_def field_names del: escape.simps)
  have sp: "\<not> is_space CHR '',''" "\<not> is_space CHR ''}''" "\<not> is_space CHR ''{''" "\<not> is_space dquote"
    by (simp_all add: is_space_def byte_def)
  have "\<exists>n. 2 * length (Json cm) + 2 = Suc (Suc (Suc (Suc (Suc n))))"
    unfolding json by (rule exI) simp
  then obtain n where n: "2 * length (Json cm) + 2 = Suc (Suc (Suc (Suc (Suc n))))" by blast
  have m3: "scan_members (Suc (Suc n)) ?m3 = Some ([(''timestamp'', JNumber (Itoa (Timestamp cm)))], [])"
    using scan_value_Itoa [of "CHR ''}''" n "Timestamp cm" "[]"]
    by (subst scan_members_step [OF unquote_name(3)]) (auto simp: sp)
  have m2: "scan_members (Suc (Suc (Suc n))) ?m2 =
      Some ([(''messageId'', JNumber (Itoa (MessageID cm))), (''timestamp'', JNumber (Itoa (Timestamp cm)))], [])"
    using scan_value_Itoa [of "CHR '',''" "Suc n" "MessageID cm" "?m3"] m3
    by (subst scan_members_step [OF unquote_name(2)]) (auto simp: sp)
  have m1: "scan_members (Suc (Suc (Suc (Suc n)))) ?m1 = Some ([(''producerId'', JString (ProducerID cm)),
      (''messageId'', JNumber (Itoa (MessageID cm))), (''timestamp'', JNumber (Itoa (Timestamp cm)))], [])"
    using scan_value_quoted [of "ProducerID cm" "Suc (Suc n)" "CHR '','' # ?m2"] m2 assms
    by (subst scan_members_step [OF unquote_name(1)]) (auto simp: sp ascii_def)
  show ?thesis
    unfolding parse_json_def n unfolding json
    using m1 sp by (simp add: skip_def)
qed

lemma NewCanaryMessage_Json:
  assumes "ascii (ProducerID cm)" "int64_value (MessageID cm)" "int64_value (Timestamp cm)"
  shows "NewCanaryMessage (Json cm) = cm"
  using assms by (simp add: NewCanaryMessage_def parse_Json set_field_def field_names zero_message_def Let_def
      del: fold_name.simps)

text \<open>
  C35: the consumer reads what the producer wrote. A message whose producer identifier is ASCII
  text, also with quotes, control characters or characters that HTML escaping changes, and whose
  numbers are 64-bit integers, is read back from its JSON form unchanged.
\<close>

theorem canary_message_round_trip:
  assumes "ascii (ProducerID cm)" "int64_value (MessageID cm)" "int64_value (Timestamp cm)"
  shows "NewCanaryMessage (Json cm) = cm"
  using assms by (rule NewCanaryMessage_Json)

theorem canary_message_round_trip_witness:
  "NewCanaryMessage (Json \<lparr>ProducerID = ''a<b&'' @ [dquote], MessageID = -1, Timestamp = 12345\<rparr>)
     = \<lparr>ProducerID = ''a<b&'' @ [dquote], MessageID = -1, Timestamp = 12345\<rparr>"
  by (rule canary_message_round_trip) (simp_all add: ascii_def byte_def int64_value_def)

end
