(* ===== verification/Producer_Service.thy ===== *)
theory Producer_Service
  imports Canary_Message Simulated_Cluster
begin

text \<open>
  The producer service, \<open>internal/services/producer.go\<close>: one message for every partition of the
  assignment, numbered by a running index and stamped with the time it is built at, and the
  counting of what was sent, what failed and how long it took. The trace headers that
  OpenTelemetry adds to a message are not modelled; a latency is kept in whole milliseconds.
\<close>

section \<open>Model\<close>

record producer_service =
  ps_canaryConfig :: canary_config
  ps_client :: handle
  ps_producer :: handle
  ps_index :: int

type_synonym ('e, 'a) producer_routine = "(producer_service, 'e, 'a) routine"

definition recordsProduced :: string where
  "recordsProduced = ''strimzi_canary_records_produced_total''"

definition recordsProducedFailed :: string where
  "recordsProducedFailed = ''strimzi_canary_records_produced_failed_total''"

definition recordsProducedLatency :: string where
  "recordsProducedLatency = ''strimzi_canary_records_produced_latency''"

definition refreshProducerMetadataError :: string where
  "refreshProducerMetadataError = ''strimzi_canary_producer_refresh_metadata_error_total''"

definition producer_metrics :: "(string \<times> string list) list" where
  "producer_metrics = [(recordsProduced, [''clientid'', ''partition'']), (recordsProducedFailed, [''clientid'', ''partition'']),
     (recordsProducedLatency, [''clientid'', ''partition'']), (refreshProducerMetadataError, [''clientid''])]"

definition NewProducerService :: "'e externals \<Rightarrow> canary_config \<Rightarrow> handle \<Rightarrow> ('c, 'e, producer_service) routine" where
  "NewProducerService api canaryConfig client =
     andthen (for_each (register api (PrometheusConstantLabels canaryConfig)) producer_metrics) (\<lambda>_.
     andthen (metric_init refreshProducerMetadataError [(''clientid'', ClientID canaryConfig)]) (\<lambda>_.
     andthen (extern (NewSyncProducer client) (x_NewSyncProducer api client)) (\<lambda>r. case r of
         Inl err \<Rightarrow> crash (Fatal ''Error creating the Sarama sync producer'')
       | Inr producer \<Rightarrow> ret \<lparr>ps_canaryConfig = canaryConfig, ps_client = client,
                               ps_producer = producer, ps_index = 0\<rparr>)))"

definition newCanaryMessage :: "'e externals \<Rightarrow> ('e, canary_message) producer_routine" where
  "newCanaryMessage api =
     andthen (set_self (\<lambda>ps. ps\<lparr>ps_index := int64 (ps_index ps + 1)\<rparr>)) (\<lambda>_.
     andthen (NowInMilliseconds api) (\<lambda>timestamp.
     andthen (get_self (\<lambda>ps. ps)) (\<lambda>ps.
       ret \<lparr>ProducerID = ClientID (ps_canaryConfig ps), MessageID = ps_index ps, Timestamp = timestamp\<rparr>)))"

definition count_produced :: "('c, 'e, unit) routine" where
  "count_produced = modify (\<lambda>s. s\<lparr>world := (world s)
     \<lparr>RecordsProducedCounter := RecordsProducedCounter (world s) + 1\<rparr>\<rparr>)"

definition partition_labels :: "string \<Rightarrow> int \<Rightarrow> labels" where
  "partition_labels clientid p = [(''clientid'', clientid), (''partition'', Itoa p)]"

definition send_one :: "'e externals \<Rightarrow> nat \<Rightarrow> ('e, unit) producer_routine" where
  "send_one api i =
     andthen (newCanaryMessage api) (\<lambda>cm.
     andthen (get_self (\<lambda>ps. ps)) (\<lambda>ps.
       let msg = \<lparr>msg_Topic = Topic (ps_canaryConfig ps), msg_Partition = int i, msg_Value = Json cm\<rparr>;
           lbls = partition_labels (ClientID (ps_canaryConfig ps)) (int i)
       in
         andthen (extern (SendMessage (ps_producer ps) msg) (x_SendMessage api (ps_producer ps) msg)) (\<lambda>r.
         andthen (NowInMilliseconds api) (\<lambda>timestamp.
         andthen (metric_inc recordsProduced lbls) (\<lambda>_.
         andthen count_produced (\<lambda>_. case r of
             Inl err \<Rightarrow> metric_inc recordsProducedFailed lbls
           | Inr (part, offset) \<Rightarrow>
               andthen (metric_observe recordsProducedLatency lbls (int64 (timestamp - Timestamp cm)))
                 (\<lambda>_. metric_init recordsProducedFailed lbls)))))))"

definition Send :: "'e externals \<Rightarrow> (int \<times> int list) list \<Rightarrow> ('e, unit) producer_routine" where
  "Send api partitionsAssignments =
     (let numPartitions = length partitionsAssignments in for_each (send_one api) [0..<numPartitions])"

definition ps_Refresh :: "'e externals \<Rightarrow> ('e, unit) producer_routine" where
  "ps_Refresh api = andthen (get_self (\<lambda>ps. ps)) (\<lambda>ps.
     andthen (extern (RefreshMetadata (ps_client ps) (Topic (ps_canaryConfig ps)))
                (x_RefreshMetadata api (ps_client ps) (Topic (ps_canaryConfig ps)))) (\<lambda>err. case err of
         None \<Rightarrow> ret ()
       | Some e \<Rightarrow> metric_inc refreshProducerMetadataError [(''clientid'', ClientID (ps_canaryConfig ps))]))"

definition ps_Close :: "'e externals \<Rightarrow> ('e, unit) producer_routine" where
  "ps_Close api = andthen (get_self ps_producer) (\<lambda>h.
     andthen (extern (ProducerClose h) (x_ProducerClose api h)) (\<lambda>err. case err of
         None \<Rightarrow> ret ()
       | Some e \<Rightarrow> crash (Fatal ''Error closing the Sarama sync producer'')))"

section \<open>One message\<close>

text \<open>
  \<open>sent api ps i s s'\<close>: what sending the \<open>i\<close>-th message does to the world and to the index. The label
  values of different partitions differ, so each partition has its own series.
\<close>

definition observations :: "'e world \<Rightarrow> string \<Rightarrow> labels \<Rightarrow> nat" where
  "observations w name lbls = length (histogram w (name, lbls))"

definition outcomes :: "'e world \<Rightarrow> labels \<Rightarrow> nat" where
  "outcomes w lbls = counted w recordsProducedFailed lbls + observations w recordsProducedLatency lbls"

lemma producer_metric_names [simp]:
  "recordsProduced \<noteq> recordsProducedFailed" "recordsProducedFailed \<noteq> recordsProduced"
  by (simp_all add: recordsProduced_def recordsProducedFailed_def)


lemma gowp_count_produced [go_simps]:
  "gowp d count_produced Q E s = Q () (s\<lparr>world := (world s)\<lparr>RecordsProducedCounter := RecordsProducedCounter (world s) + 1\<rparr>\<rparr>)"
  by (simp add: count_produced_def go_simps)

definition message :: "producer_service \<Rightarrow> nat \<Rightarrow> int \<Rightarrow> int \<Rightarrow> call" where
  "message ps i index timestamp = SendMessage (ps_producer ps)
     \<lparr>msg_Topic = Topic (ps_canaryConfig ps), msg_Partition = int i,
      msg_Value = Json \<lparr>ProducerID = ClientID (ps_canaryConfig ps), MessageID = index, Timestamp = timestamp\<rparr>\<rparr>"

lemma send_one_spec:
  "gowp False (send_one api i) (\<lambda>_ s'.
     self s' = (self s)\<lparr>ps_index := int64 (ps_index (self s) + 1)\<rparr>
   \<and> (\<exists>t. calls (world s') = calls (world s) @ [message (self s) i (int64 (ps_index (self s) + 1)) t])
   \<and> RecordsProducedCounter (world s') = RecordsProducedCounter (world s) + 1
   \<and> (\<forall>lbls. counted (world s') recordsProduced lbls = counted (world s) recordsProduced lbls
          + (if lbls = partition_labels (ClientID (ps_canaryConfig (self s))) (int i) then 1 else 0))
   \<and> (\<forall>lbls. outcomes (world s') lbls = outcomes (world s) lbls
          + (if lbls = partition_labels (ClientID (ps_canaryConfig (self s))) (int i) then 1 else 0)))
   (\<lambda>_ _. False) s"
  by (auto simp: send_one_def newCanaryMessage_def go_simps Let_def message_def outcomes_def observations_def
      split: prod.splits sum.splits)


section \<open>Properties\<close>

lemma for_each_send:
  assumes "0 \<le> ps_index (self s)" "ps_index (self s) + int (length is) < 2 ^ 63"
  shows "\<exists>s' ts. for_each (send_one api) is s = Some (Returned () s') \<and> length ts = length is
     \<and> self s' = (self s)\<lparr>ps_index := ps_index (self s) + int (length is)\<rparr>
     \<and> calls (world s') = calls (world s)
         @ map (\<lambda>j. message (self s) (is ! j) (ps_index (self s) + 1 + int j) (ts ! j)) [0..<length is]
     \<and> RecordsProducedCounter (world s') = RecordsProducedCounter (world s) + of_nat (length is)
     \<and> (\<forall>lbls. let hits = length (filter (\<lambda>i. lbls = partition_labels (ClientID (ps_canaryConfig (self s))) (int i)) is) in
          counted (world s') recordsProduced lbls = counted (world s) recordsProduced lbls + hits
        \<and> outcomes (world s') lbls = outcomes (world s) lbls + hits)"
  using assms
proof (induction "is" arbitrary: s)
  case Nil
  show ?case by (rule exI [of _ s], rule exI [of _ "[]"]) (simp add: ret_def)
next
  case (Cons i "is")
  have idx: "int64 (ps_index (self s) + 1) = ps_index (self s) + 1" using Cons.prems by simp
  obtain s1 t where s1: "send_one api i s = Some (Returned () s1)"
    "self s1 = (self s)\<lparr>ps_index := ps_index (self s) + 1\<rparr>"
    "calls (world s1) = calls (world s) @ [message (self s) i (ps_index (self s) + 1) t]"
    "RecordsProducedCounter (world s1) = RecordsProducedCounter (world s) + 1"
    "\<And>lbls. counted (world s1) recordsProduced lbls = counted (world s) recordsProduced lbls
          + (if lbls = partition_labels (ClientID (ps_canaryConfig (self s))) (int i) then 1 else 0)"
    "\<And>lbls. outcomes (world s1) lbls = outcomes (world s) lbls
          + (if lbls = partition_labels (ClientID (ps_canaryConfig (self s))) (int i) then 1 else 0)"
    using gowp_returns [OF send_one_spec [of api i s]] unfolding idx by auto
  from Cons.prems s1(2) have "0 \<le> ps_index (self s1)" "ps_index (self s1) + int (length is) < 2 ^ 63" by auto
  from Cons.IH [OF this] obtain s2 ts where s2:
    "for_each (send_one api) is s1 = Some (Returned () s2)" "length ts = length is"
    "self s2 = (self s1)\<lparr>ps_index := ps_index (self s1) + int (length is)\<rparr>"
    "calls (world s2) = calls (world s1)
         @ map (\<lambda>j. message (self s1) (is ! j) (ps_index (self s1) + 1 + int j) (ts ! j)) [0..<length is]"
    "RecordsProducedCounter (world s2) = RecordsProducedCounter (world s1) + of_nat (length is)"
    "\<forall>lbls. let hits = length (filter (\<lambda>i. lbls = partition_labels (ClientID (ps_canaryConfig (self s1))) (int i)) is) in
          counted (world s2) recordsProduced lbls = counted (world s1) recordsProduced lbls + hits
        \<and> outcomes (world s2) lbls = outcomes (world s1) lbls + hits"
    by blast
  have msgs: "map (\<lambda>j. message (self s) ((i # is) ! j) (ps_index (self s) + 1 + int j) ((t # ts) ! j)) [0..<length (i # is)]
      = message (self s) i (ps_index (self s) + 1) t
        # map (\<lambda>j. message (self s1) (is ! j) (ps_index (self s1) + 1 + int j) (ts ! j)) [0..<length is]"
    by (simp add: upt_conv_Cons map_Suc_upt [symmetric] message_def s1(2) add_ac del: upt_Suc)
  have "for_each (send_one api) (i # is) s = Some (Returned () s2)"
    using s1(1) s2(1) by (simp add: andthen_def)
  moreover have "self s2 = (self s)\<lparr>ps_index := ps_index (self s) + int (length (i # is))\<rparr>"
    using s2(3) s1(2) by simp
  moreover have "calls (world s2) = calls (world s)
      @ map (\<lambda>j. message (self s) ((i # is) ! j) (ps_index (self s) + 1 + int j) ((t # ts) ! j)) [0..<length (i # is)]"
    unfolding msgs using s2(4) s1(3) by simp
  moreover have "RecordsProducedCounter (world s2) = RecordsProducedCounter (world s) + of_nat (length (i # is))"
    using s2(5) s1(4) by simp
  ultimately show ?case
    using s2(2,6) s1(2,5,6) by (intro exI [of _ s2] exI [of _ "t # ts"]) (auto simp: Let_def)
qed

text \<open>One message to each of the partitions below \<open>n\<close>, in order, whatever the numbers and times.\<close>

definition round_of :: "producer_service \<Rightarrow> nat \<Rightarrow> call list \<Rightarrow> bool" where
  "round_of ps n cs \<longleftrightarrow> (\<exists>index t. cs = map (\<lambda>i. message ps i (index i) (t i)) [0..<n])"

lemma message_frame [simp]: "message (ps\<lparr>ps_index := x\<rparr>) i index t = message ps i index t"
  by (simp add: message_def)

lemma send_from:
  "\<exists>s' index t. for_each (send_one api) [i..<n] s = Some (Returned () s')
     \<and> (\<exists>x. self s' = (self s)\<lparr>ps_index := x\<rparr>)
     \<and> calls (world s') = calls (world s) @ map (\<lambda>j. message (self s) j (index j) (t j)) [i..<n]"
proof (induction "n - i" arbitrary: i s)
  case 0
  then show ?case by (auto simp: ret_def intro: exI [of _ "ps_index (self s)"])
next
  case (Suc k)
  then have i: "i < n" "k = n - Suc i" by auto
  obtain s1 t1 where s1: "send_one api i s = Some (Returned () s1)"
    "self s1 = (self s)\<lparr>ps_index := int64 (ps_index (self s) + 1)\<rparr>"
    "calls (world s1) = calls (world s) @ [message (self s) i (int64 (ps_index (self s) + 1)) t1]"
    using gowp_returns [OF send_one_spec [of api i s]] by auto
  from Suc.hyps(1) [OF i(2), of s1] obtain s2 index t x where s2:
    "for_each (send_one api) [Suc i..<n] s1 = Some (Returned () s2)" "self s2 = (self s1)\<lparr>ps_index := x\<rparr>"
    "calls (world s2) = calls (world s1) @ map (\<lambda>j. message (self s1) j (index j) (t j)) [Suc i..<n]"
    by blast
  let ?index = "index(i := int64 (ps_index (self s) + 1))" and ?t = "t(i := t1)"
  have up: "[i..<n] = i # [Suc i..<n]" using i by (simp add: upt_conv_Cons)
  have "for_each (send_one api) [i..<n] s = Some (Returned () s2)"
    using s1(1) s2(1) by (simp add: up andthen_def)
  moreover have "map (\<lambda>j. message (self s) j (?index j) (?t j)) [i..<n]
      = message (self s) i (int64 (ps_index (self s) + 1)) t1 # map (\<lambda>j. message (self s1) j (index j) (t j)) [Suc i..<n]"
    using s1(2) by (simp add: up)
  ultimately show ?case
    using s1(2,3) s2(2,3) by (intro exI [of _ s2] exI [of _ ?index] exI [of _ ?t]) auto
qed

lemma Send_round:
  "\<exists>s' cs. Send api asg s = Some (Returned () s') \<and> (\<exists>x. self s' = (self s)\<lparr>ps_index := x\<rparr>)
     \<and> calls (world s') = calls (world s) @ cs \<and> round_of (self s) (length asg) cs"
  using send_from [of api 0 "length asg" s] by (auto simp: Send_def round_of_def)

lemma filter_upt_eq: "i < n \<Longrightarrow> filter (\<lambda>j. i = j) [0..<n] = [i]"
proof (induction n)
  case (Suc n)
  have "filter (\<lambda>j. i = j) [0..<i] = []" by (simp add: filter_empty_conv)
  with Suc show ?case by (cases "i = n") auto
qed simp

lemma partition_labels_inject:
  "i < 2 ^ 63 \<Longrightarrow> j < 2 ^ 63 \<Longrightarrow> partition_labels c (int i) = partition_labels c (int j) \<longleftrightarrow> i = j"
  using Itoa_inject [of "int i" "int j"] by (simp add: partition_labels_def)

text \<open>
  C13: one round of sending. \<open>Send\<close> always returns. It sends exactly one message to each partition
  from 0 up to the number of assigned partitions, in that order, with consecutive message numbers,
  whatever fails on the way; the package counter grows by the number of partitions, and every
  partition gets one record counted and one outcome, either a failure or an observed latency.
\<close>

theorem send_covers_partitions:
  assumes "0 \<le> ps_index (self s)" "ps_index (self s) + int (length asg) < 2 ^ 63"
  shows "\<exists>s' ts. Send api asg s = Some (Returned () s') \<and> length ts = length asg
     \<and> ps_index (self s') = ps_index (self s) + int (length asg)
     \<and> calls (world s') = calls (world s)
         @ map (\<lambda>i. message (self s) i (ps_index (self s) + 1 + int i) (ts ! i)) [0..<length asg]
     \<and> RecordsProducedCounter (world s') = RecordsProducedCounter (world s) + of_nat (length asg)
     \<and> (\<forall>i<length asg. let lbls = partition_labels (ClientID (ps_canaryConfig (self s))) (int i) in
          counted (world s') recordsProduced lbls = counted (world s) recordsProduced lbls + 1
        \<and> outcomes (world s') lbls = outcomes (world s) lbls + 1)"
proof -
  let ?is = "[0..<length asg]" and ?c = "ClientID (ps_canaryConfig (self s))"
  have hits: "length (filter (\<lambda>j. partition_labels ?c (int i) = partition_labels ?c (int j)) ?is) = 1"
    if "i < length asg" for i
  proof -
    have "filter (\<lambda>j. partition_labels ?c (int i) = partition_labels ?c (int j)) ?is = filter (\<lambda>j. i = j) ?is"
      using that assms partition_labels_inject [of i _ ?c] by (intro filter_cong) auto
    also have "\<dots> = [i]" using that by (rule filter_upt_eq)
    finally show ?thesis by simp
  qed
  from assms have "0 \<le> ps_index (self s)" "ps_index (self s) + int (length ?is) < 2 ^ 63" by simp_all
  from for_each_send [OF this, of api] show ?thesis
    unfolding Send_def Let_def by (elim exE, intro exI) (auto simp: hits)
qed

definition sample_ps :: producer_service where
  "sample_ps = \<lparr>ps_canaryConfig = sample_config, ps_client = 9, ps_producer = 11, ps_index = 41\<rparr>"

theorem send_covers_partitions_witness:
  "\<exists>s'. Send sim_api [(0, [0]), (1, [1])] \<lparr>self = sample_ps, world = start_world one_partition\<rparr> = Some (Returned () s')
     \<and> ps_index (self s') = 43 \<and> RecordsProducedCounter (world s') = 2"
  using send_covers_partitions [of "\<lparr>self = sample_ps, world = start_world one_partition\<rparr>" "[(0, [0]), (1, [1])]" sim_api]
  by (auto simp: sample_ps_def start_world_def)

end
