(* ===== verification/Retry_Backoff.thy ===== *)
theory Retry_Backoff
  imports Go_Runtime
begin

text \<open>
  The exponential back-off of \<open>internal/services/backoff.go\<close>. The delay is computed in 64-bit
  arithmetic, \<open>scale * 1 << attempt\<close>, and a negative value is taken for an overflow. The locale
  \<open>retry_policy\<close> is what the three retry loops of the program (client creation, first
  reconcile, joining the consumer group) rely on: a delay is within the limit and delays run out.
\<close>

section \<open>Model\<close>

definition ScaleDefault :: duration where
  "ScaleDefault = 200 * Millisecond"

definition MaxDefault :: duration where
  "MaxDefault = 5 * Minute"

definition MaxAttemptsDefault :: int where
  "MaxAttemptsDefault = 6"

text \<open>The field \<open>attempt\<close> is only ever 0 or incremented, hence a natural number.\<close>

record backoff =
  maxAttempts :: int
  bo_scale :: duration
  bo_max :: duration
  attempt :: nat

definition NewBackoff :: "int \<Rightarrow> duration \<Rightarrow> duration \<Rightarrow> backoff" where
  "NewBackoff maxAtt scale mx =
     \<lparr>maxAttempts = maxAtt,
      bo_scale = (if scale \<le> 0 then ScaleDefault else scale),
      bo_max = (if mx \<le> 0 then MaxDefault else mx),
      attempt = 0\<rparr>"

text \<open>A shift of an \<open>int64\<close> to the left is multiplication by a power of two with wrap-around.\<close>

definition Delay :: "backoff \<Rightarrow> (goerror + duration) \<times> backoff" where
  "Delay b =
     (if int (attempt b) = maxAttempts b then (Inl MaxAttemptsExceeded, b)
      else let delay = int64 (bo_scale b * 2 ^ attempt b) in
        if delay < 0 then (Inl BackoffDelayOverflow, b)
        else let delay = (if delay > bo_max b then bo_max b else delay)
             in (Inr delay, b\<lparr>attempt := attempt b + 1\<rparr>))"

text \<open>The results of \<open>n\<close> calls in a row.\<close>

fun delays :: "('b \<Rightarrow> (goerror + duration) \<times> 'b) \<Rightarrow> nat \<Rightarrow> 'b \<Rightarrow> (goerror + duration) list" where
  "delays next 0 b = []"
| "delays next (Suc n) b = (case next b of (r, b') \<Rightarrow> r # delays next n b')"

lemma length_delays [simp]: "length (delays next n b) = n"
  by (induction n arbitrary: b) (auto split: prod.splits)

section \<open>The interface: a policy whose delays run out\<close>

locale retry_policy =
  fixes next_delay :: "'b \<Rightarrow> (goerror + duration) \<times> 'b"
    and inv :: "'b \<Rightarrow> bool"
    and limit :: "'b \<Rightarrow> duration"
    and budget :: "'b \<Rightarrow> nat"
  assumes granted: "inv b \<Longrightarrow> next_delay b = (Inr d, b') \<Longrightarrow>
      inv b' \<and> limit b' = limit b \<and> budget b' < budget b \<and> 0 < d \<and> d \<le> limit b"
    and refused: "inv b \<Longrightarrow> next_delay b = (Inl e, b') \<Longrightarrow> b' = b"
begin

text \<open>The induction principle of a loop that retries until the policy refuses.\<close>

lemma retry_induct [consumes 1, case_names retry]:
  assumes "inv b"
    and "\<And>b. inv b \<Longrightarrow> (\<And>d b'. next_delay b = (Inr d, b') \<Longrightarrow> inv b' \<Longrightarrow> P b') \<Longrightarrow> P b"
  shows "P b"
  using assms(1)
proof (induction "budget b" arbitrary: b rule: less_induct)
  case less
  show ?case
  proof (rule assms(2) [OF less.prems])
    fix d b' assume "next_delay b = (Inr d, b')" "inv b'"
    then show "P b'" using granted [OF less.prems] by (intro less.hyps) auto
  qed
qed

lemma refused_for_good:
  assumes "inv b" "next_delay b = (Inl e, b')" "i < n"
  shows "delays next_delay n b ! i = Inl e"
  using assms
proof (induction n arbitrary: i)
  case 0
  then show ?case by simp
next
  case (Suc n)
  from refused [OF Suc.prems(1,2)] have "b' = b" .
  with Suc show ?case by (cases i) auto
qed

lemma delays_bounded:
  assumes "inv b" "Inr d \<in> set (delays next_delay n b)"
  shows "0 < d \<and> d \<le> limit b"
  using assms
proof (induction n arbitrary: b)
  case 0
  then show ?case by simp
next
  case (Suc n)
  obtain r b' where nx: "next_delay b = (r, b')" by fastforce
  show ?case
  proof (cases r)
    case (Inl e)
    with nx refused [OF Suc.prems(1)] have "b' = b" by simp
    with Suc nx Inl show ?thesis by auto
  next
    case (Inr d')
    with nx granted [OF Suc.prems(1)] have g: "inv b'" "limit b' = limit b" "0 < d'" "d' \<le> limit b"
      by auto
    with Suc.prems(2) nx Inr Suc.IH [OF g(1)] show ?thesis by auto
  qed
qed

lemma delays_run_out:
  assumes "inv b" "budget b \<le> i" "i < n"
  shows "\<exists>e. delays next_delay n b ! i = Inl e"
  using assms
proof (induction n arbitrary: b i)
  case 0
  then show ?case by simp
next
  case (Suc n)
  obtain r b' where nx: "next_delay b = (r, b')" by fastforce
  show ?case
  proof (cases r)
    case (Inl e)
    with refused_for_good [OF Suc.prems(1) _ Suc.prems(3)] nx show ?thesis by blast
  next
    case (Inr d)
    with nx granted [OF Suc.prems(1)] have g: "inv b'" "budget b' < budget b" by auto
    with Suc.prems obtain j where j: "i = Suc j" "budget b' \<le> j" "j < n" by (cases i) auto
    from Suc.IH [OF g(1) j(2,3)] nx j show ?thesis by simp
  qed
qed

end

section \<open>The back-off implements the policy\<close>

text \<open>
  The invariant that makes the overflow check of \<open>Delay\<close> complete: the last delay granted did
  not overflow, so the next one doubles a value below \<open>2 ^ 63\<close> and can only reach the sign bit.
\<close>

definition backoff_ok :: "backoff \<Rightarrow> bool" where
  "backoff_ok b \<longleftrightarrow> 0 < bo_scale b \<and> bo_scale b < 2 ^ 63 \<and> 0 < bo_max b
     \<and> (attempt b = 0 \<or> bo_scale b * 2 ^ (attempt b - 1) < 2 ^ 63)"

lemma NewBackoff_ok: "s < 2 ^ 63 \<Longrightarrow> backoff_ok (NewBackoff m s x)"
  by (simp add: backoff_ok_def NewBackoff_def ScaleDefault_def MaxDefault_def)

lemma next_product_bound:
  assumes "backoff_ok b"
  shows "bo_scale b * 2 ^ attempt b < 2 ^ 64"
proof (cases "attempt b")
  case 0
  with assms show ?thesis by (simp add: backoff_ok_def)
next
  case (Suc k)
  with assms have "2 * (bo_scale b * 2 ^ k) < 2 * 2 ^ 63" by (simp add: backoff_ok_def)
  with Suc show ?thesis by (simp add: algebra_simps)
qed

lemma Delay_exact:
  assumes "backoff_ok b"
  shows "Delay b =
    (if int (attempt b) = maxAttempts b then (Inl MaxAttemptsExceeded, b)
     else if 2 ^ 63 \<le> bo_scale b * 2 ^ attempt b then (Inl BackoffDelayOverflow, b)
     else (Inr (min (bo_scale b * 2 ^ attempt b) (bo_max b)), b\<lparr>attempt := Suc (attempt b)\<rparr>))"
proof (cases "2 ^ 63 \<le> bo_scale b * 2 ^ attempt b")
  case True
  from int64_high_bit [OF this next_product_bound [OF assms]] True show ?thesis
    by (simp add: Delay_def Let_def)
next
  case False
  moreover have "0 < bo_scale b * 2 ^ attempt b" using assms by (simp add: backoff_ok_def)
  ultimately have "int64 (bo_scale b * 2 ^ attempt b) = bo_scale b * 2 ^ attempt b" by simp
  with False \<open>0 < _\<close> show ?thesis by (simp add: Delay_def Let_def min_def)
qed

definition backoff_budget :: "backoff \<Rightarrow> nat" where
  "backoff_budget b = 63 - attempt b"

interpretation bo: retry_policy Delay backoff_ok bo_max backoff_budget
proof
  fix b b' d assume ok: "backoff_ok b" and d: "Delay b = (Inr d, b')"
  then have lt: "bo_scale b * 2 ^ attempt b < 2 ^ 63"
    and b': "b' = b\<lparr>attempt := Suc (attempt b)\<rparr>" and dd: "d = min (bo_scale b * 2 ^ attempt b) (bo_max b)"
    by (auto simp: Delay_exact split: if_splits)
  have pos: "0 < bo_scale b" "0 < bo_max b" using ok by (simp_all add: backoff_ok_def)
  have "(2::int) ^ attempt b \<le> bo_scale b * 2 ^ attempt b" using pos by simp
  also note lt
  finally have "(2::int) ^ attempt b < 2 ^ 63" .
  then have "attempt b < 63" by (rule power_less_imp_less_exp [rotated]) simp
  then show "backoff_ok b' \<and> bo_max b' = bo_max b \<and> backoff_budget b' < backoff_budget b
      \<and> 0 < d \<and> d \<le> bo_max b"
    using ok lt pos by (simp add: b' dd backoff_ok_def backoff_budget_def)
next
  fix b b' e assume "backoff_ok b" "Delay b = (Inl e, b')"
  then show "b' = b" by (auto simp: Delay_exact split: if_splits)
qed

section \<open>Properties\<close>

definition schedule :: "int \<Rightarrow> duration \<Rightarrow> duration \<Rightarrow> nat \<Rightarrow> goerror + duration" where
  "schedule m s x i =
     (if s * 2 ^ i < 2 ^ 63 \<and> (m < 0 \<or> int i < m) then Inr (min (s * 2 ^ i) x)
      else if 0 \<le> m \<and> (m = 0 \<or> s * 2 ^ (nat m - 1) < 2 ^ 63) then Inl MaxAttemptsExceeded
      else Inl BackoffDelayOverflow)"

lemma delays_schedule_from:
  assumes "0 < s" "s < 2 ^ 63" "0 < x"
    and "k = 0 \<or> s * 2 ^ (k - 1) < 2 ^ 63" "m < 0 \<or> int k \<le> m" "i < n"
  shows "delays Delay n \<lparr>maxAttempts = m, bo_scale = s, bo_max = x, attempt = k\<rparr> ! i
       = schedule m s x (k + i)"
  using assms(4-6)
proof (induction n arbitrary: k i)
  case 0
  then show ?case by simp
next
  case (Suc n)
  let ?b = "\<lparr>maxAttempts = m, bo_scale = s, bo_max = x, attempt = k\<rparr>"
  have ok: "backoff_ok ?b" using assms(1-3) Suc.prems(1) by (simp add: backoff_ok_def)
  have grow: "s * 2 ^ k \<le> s * 2 ^ (k + i)"
    using assms(1) by (simp add: power_increasing)
  consider (exhausted) "int k = m" | (over) "int k \<noteq> m" "2 ^ 63 \<le> s * 2 ^ k"
    | (go) "int k \<noteq> m" "s * 2 ^ k < 2 ^ 63" by linarith
  then show ?case
  proof cases
    case exhausted
    then have "Delay ?b = (Inl MaxAttemptsExceeded, ?b)" by (simp add: Delay_exact [OF ok])
    from bo.refused_for_good [OF ok this Suc.prems(3)] exhausted Suc.prems(1) show ?thesis
      by (auto simp: schedule_def)
  next
    case over
    then have "Delay ?b = (Inl BackoffDelayOverflow, ?b)" by (simp add: Delay_exact [OF ok])
    moreover have "\<not> (0 \<le> m \<and> (m = 0 \<or> s * 2 ^ (nat m - 1) < 2 ^ 63))"
    proof
      assume m: "0 \<le> m \<and> (m = 0 \<or> s * 2 ^ (nat m - 1) < 2 ^ 63)"
      with over(1) Suc.prems(2) have "k \<le> nat m - 1" "m \<noteq> 0" by auto
      then have "s * 2 ^ k \<le> s * 2 ^ (nat m - 1)"
        using assms(1) by (simp add: power_increasing)
      with m \<open>m \<noteq> 0\<close> over(2) show False by simp
    qed
    ultimately show ?thesis
      using bo.refused_for_good [OF ok _ Suc.prems(3)] over(2) grow by (simp add: schedule_def)
  next
    case go
    then have step: "Delay ?b = (Inr (min (s * 2 ^ k) x),
        \<lparr>maxAttempts = m, bo_scale = s, bo_max = x, attempt = Suc k\<rparr>)"
      by (simp add: Delay_exact [OF ok])
    show ?thesis
    proof (cases i)
      case 0
      moreover from go(1) Suc.prems(2) have "m < 0 \<or> int k < m" by auto
      ultimately show ?thesis using step go by (simp add: schedule_def)
    next
      case (Suc j)
      moreover from go(1) Suc.prems(2) have "m < 0 \<or> int (Suc k) \<le> m" by auto
      ultimately show ?thesis using step go Suc.prems Suc.IH [of "Suc k" j] by simp
    qed
  qed
qed

lemma granted_index:
  assumes "backoff_ok b" "attempt b = 0" "i < n" "delays Delay n b ! i = Inr d"
  shows "i < 63 \<and> (0 \<le> maxAttempts b \<longrightarrow> int i < maxAttempts b)"
proof
  show "i < 63"
    using bo.delays_run_out [OF assms(1) _ assms(3)] assms(2,4) not_less by (fastforce simp: backoff_budget_def)
  have "delays Delay n b ! i = schedule (maxAttempts b) (bo_scale b) (bo_max b) i"
    using delays_schedule_from [OF _ _ _ _ _ assms(3), of "bo_scale b" "bo_max b" 0 "maxAttempts b"] assms(1,2)
    by (cases b) (fastforce simp: backoff_ok_def linorder_not_less)
  with assms(4) show "0 \<le> maxAttempts b \<longrightarrow> int i < maxAttempts b"
    by (auto simp: schedule_def split: if_splits)
qed

text \<open>
  C21: the delay schedule. For any positive scale and maximum, the \<open>i\<close>-th call on a fresh back-off
  returns exactly \<open>min (scale * 2 ^ i) max\<close> as long as the attempts are not used up and the
  product fits in 63 bits; afterwards every call reports the same error, \<open>MaxAttemptsExceeded\<close> or
  \<open>BackoffDelayOverflow\<close>, whichever bound comes first. In particular the sign test of \<open>Delay\<close>
  catches every overflow: a wrapped value is never returned as a delay.
\<close>

theorem backoff_schedule:
  assumes "0 < s" "s < 2 ^ 63" "0 < x" "i < n"
  shows "delays Delay n (NewBackoff m s x) ! i = schedule m s x i"
  using delays_schedule_from [OF assms(1-3), of 0 m i n] assms linorder_not_le [of 0 m]
  by (auto simp: NewBackoff_def)

theorem backoff_schedule_witness:
  "delays Delay 3 (NewBackoff 3 (5000 * Millisecond) MaxDefault) ! 2 = Inr (20 * Second)
   \<and> delays Delay 4 (NewBackoff 3 (5000 * Millisecond) MaxDefault) ! 3 = Inl MaxAttemptsExceeded"
  using backoff_schedule [of "5000 * Millisecond" MaxDefault 2 3 3]
    backoff_schedule [of "5000 * Millisecond" MaxDefault 3 4 3]
  by (simp add: schedule_def MaxDefault_def)

text \<open>
  Every back-off runs out. Whatever the configuration (also a scale or maximum that is not
  positive, and a negative maximum of attempts, which \<open>attempt\<close> never equals), a delay granted is
  positive and at most the maximum in force, and from the 64th call on every call is an error.
\<close>

theorem backoff_bounded:
  assumes "s < 2 ^ 63"
  shows "(Inr d \<in> set (delays Delay n (NewBackoff m s x)) \<longrightarrow>
            0 < d \<and> d \<le> (if x \<le> 0 then MaxDefault else x))
       \<and> (63 \<le> i \<and> i < n \<longrightarrow> (\<exists>e. delays Delay n (NewBackoff m s x) ! i = Inl e))"
  using bo.delays_bounded [OF NewBackoff_ok [OF assms], of d n m x]
    bo.delays_run_out [OF NewBackoff_ok [OF assms], of m x i n]
  by (auto simp: NewBackoff_def backoff_budget_def)

theorem backoff_bounded_witness:
  "\<exists>e. delays Delay 64 (NewBackoff (-1) 0 0) ! 63 = Inl e"
  using backoff_bounded [of 0 _ 64 "-1" 0 63] by simp

end
