(* ===== verification/Consumer_Service.thy ===== *)
theory Consumer_Service
  imports Canary_Message Simulated_Cluster Retry_Backoff
begin

text \<open>
  The consumer service, \<open>internal/services/consumer.go\<close>: joining the consumer group with a bounded
  number of attempts, the goroutine that calls the group's \<open>Consume\<close> again and again, the group
  handler, and the leader and metadata requests. A goroutine of the source is a routine of its
  own here; whether the group became ready before a timeout, and whether a context was cancelled
  meanwhile, depend on the scheduler and the cluster and are answers of the environment. The
  channel \<open>ready\<close> is open or closed. Trace spans are not modelled.
\<close>

section \<open>Model\<close>

definition waitConsumeTimeout :: duration where
  "waitConsumeTimeout = 30 * Second"

definition maxConsumeAttempts :: int where
  "maxConsumeAttempts = 3"

definition consumeDelay :: duration where
  "consumeDelay = 2 * Second"

datatype channel = Open | Closed

text \<open>\<open>cs_cancel\<close>: the context the cancel function belongs to, if \<open>Consume\<close> has set one.\<close>

record consumer_service =
  cs_canaryConfig :: canary_config
  cs_client :: handle
  cs_consumerGroup :: handle
  cs_cancel :: "nat option"
  cs_ready :: channel

type_synonym ('e, 'a) consumer_routine = "(consumer_service, 'e, 'a) routine"

definition recordsConsumed :: string where
  "recordsConsumed = ''strimzi_canary_records_consumed_total''"

definition recordsConsumerFailed :: string where
  "recordsConsumerFailed = ''strimzi_canary_consumer_error_total''"

definition recordsEndToEndLatency :: string where
  "recordsEndToEndLatency = ''strimzi_canary_records_consumed_latency''"

definition timeoutJoinGroup :: string where
  "timeoutJoinGroup = ''strimzi_canary_consumer_timeout_join_group_total''"

definition refreshConsumerMetadataError :: string where
  "refreshConsumerMetadataError = ''strimzi_canary_consumer_refresh_metadata_error_total''"

definition client_labels :: "canary_config \<Rightarrow> labels" where
  "client_labels c = [(''clientid'', ClientID c)]"

definition consumer_metrics :: "(string \<times> string list) list" where
  "consumer_metrics = [(recordsConsumed, [''clientid'', ''partition'']), (recordsConsumerFailed, [''clientid'']),
     (recordsEndToEndLatency, [''clientid'', ''partition'']), (timeoutJoinGroup, [''clientid'']),
     (refreshConsumerMetadataError, [''clientid''])]"

definition NewConsumerService :: "'e externals \<Rightarrow> canary_config \<Rightarrow> handle \<Rightarrow> ('c, 'e, consumer_service) routine" where
  "NewConsumerService api canaryConfig client =
     andthen (for_each (register api (PrometheusConstantLabels canaryConfig)) consumer_metrics) (\<lambda>_.
     andthen (extern (NewConsumerGroup (ConsumerGroupID canaryConfig) client)
                (x_NewConsumerGroup api (ConsumerGroupID canaryConfig) client)) (\<lambda>r. case r of
         Inl err \<Rightarrow> crash (Fatal ''Error creating the Sarama consumer'')
       | Inr consumerGroup \<Rightarrow>
           andthen (metric_init recordsConsumerFailed (client_labels canaryConfig)) (\<lambda>_.
           andthen (metric_init refreshConsumerMetadataError (client_labels canaryConfig)) (\<lambda>_.
             ret \<lparr>cs_canaryConfig = canaryConfig, cs_client = client, cs_consumerGroup = consumerGroup,
                  cs_cancel = None, cs_ready = Open\<rparr>))))"

text \<open>One error received on the group's error channel, by the goroutine of the constructor.\<close>

definition count_consumer_error :: "('e, unit) consumer_routine" where
  "count_consumer_error = andthen (get_self cs_canaryConfig) (\<lambda>c.
     metric_inc recordsConsumerFailed (client_labels c))"

definition cs_cancel_call :: "'e externals \<Rightarrow> ('e, unit) consumer_routine" where
  "cs_cancel_call api = andthen (get_self cs_cancel) (\<lambda>f. case f of
       None \<Rightarrow> crash (Panic NilDereference)
     | Some i \<Rightarrow> extern (CancelContext i) (x_CancelContext api i))"

definition Setup :: "('e, unit) consumer_routine" where
  "Setup = andthen (get_self cs_ready) (\<lambda>ready. case ready of
       Closed \<Rightarrow> crash (Panic CloseOfClosedChannel)
     | Open \<Rightarrow> set_self (cs_ready_update (\<lambda>_. Closed)))"

text \<open>
  The goroutine of \<open>Consume\<close>, for the context \<open>i\<close>: the call of the group's \<open>Consume\<close>, what it does when
  the call has returned (the result is whether it ends), and its loop.
\<close>

definition call_group :: "'e externals \<Rightarrow> ('e, bool \<times> goerror option) consumer_routine" where
  "call_group api = andthen (get_self (\<lambda>cs. cs)) (\<lambda>cs.
     extern (GroupConsume (cs_consumerGroup cs) (Topic (cs_canaryConfig cs)))
       (x_GroupConsume api (cs_consumerGroup cs) (Topic (cs_canaryConfig cs))))"

definition after_call :: "'e externals \<Rightarrow> nat \<Rightarrow> goerror option \<Rightarrow> ('e, bool) consumer_routine" where
  "after_call api i err =
     (if err \<noteq> None then andthen (extern (Sleep consumeDelay) (x_sleep api consumeDelay)) (\<lambda>_. ret False)
      else andthen (extern (ContextErr i) (x_ContextCancelled api i)) (\<lambda>cancelled.
             if cancelled then ret True
             else andthen (set_self (cs_ready_update (\<lambda>_. Open))) (\<lambda>_. ret False)))"

partial_function (option) consume_loop ::
  "'e externals \<Rightarrow> nat \<Rightarrow> (consumer_service, 'e world) ctx
     \<Rightarrow> (unit, (consumer_service, 'e world) ctx) outcome option" where
  "consume_loop api i s =
     andthen (call_group api) (\<lambda>r.
     andthen (whenever (fst r) Setup) (\<lambda>_.
     andthen (after_call api i (snd r)) (\<lambda>ends. if ends then ret () else consume_loop api i))) s"

text \<open>
  The wait ends without a timeout when the handler of the group has closed the channel meanwhile, in the goroutine
  of the attempt.
\<close>

definition wait :: "'e externals \<Rightarrow> duration \<Rightarrow> ('e, bool) consumer_routine" where
  "wait api timeout = andthen (extern (WaitReady timeout) (x_WaitReady api timeout)) (\<lambda>isTimeout.
     andthen (whenever (\<not> isTimeout) (set_self (cs_ready_update (\<lambda>_. Closed)))) (\<lambda>_. ret isTimeout))"

text \<open>
  The attempts of \<open>Consume\<close>: \<open>i\<close> counts them and names the contexts. The back-off refuses after
  \<open>maxConsumeAttempts\<close> delays, so the recursion is bounded by the delays it has left.
\<close>

partial_function (option) join_loop ::
  "'e externals \<Rightarrow> nat \<Rightarrow> backoff \<Rightarrow> (consumer_service, 'e world) ctx
     \<Rightarrow> (unit, (consumer_service, 'e world) ctx) outcome option" where
  "join_loop api i b s =
     andthen (set_self (cs_cancel_update (\<lambda>_. Some i))) (\<lambda>_.
     andthen (wait api waitConsumeTimeout) (\<lambda>isTimeout.
       if isTimeout then
         andthen (cs_cancel_call api) (\<lambda>_.
         andthen (get_self cs_canaryConfig) (\<lambda>c.
         andthen (metric_inc timeoutJoinGroup (client_labels c)) (\<lambda>_.
           case fst (Delay b) of
             Inl err \<Rightarrow> crash (Fatal ''Error joining the consumer group'')
           | Inr delay \<Rightarrow> andthen (extern (Sleep delay) (x_sleep api delay))
                           (\<lambda>_. join_loop api (i + 1) (snd (Delay b))))))
       else ret ())) s"

definition Consume :: "'e externals \<Rightarrow> ('e, unit) consumer_routine" where
  "Consume api = join_loop api 0 (NewBackoff maxConsumeAttempts (5000 * Millisecond) MaxDefault)"

definition cs_Refresh :: "'e externals \<Rightarrow> ('e, unit) consumer_routine" where
  "cs_Refresh api = andthen (get_self (\<lambda>cs. cs)) (\<lambda>cs.
     andthen (extern (RefreshMetadata (cs_client cs) (Topic (cs_canaryConfig cs)))
                (x_RefreshMetadata api (cs_client cs) (Topic (cs_canaryConfig cs)))) (\<lambda>err. case err of
         None \<Rightarrow> ret ()
       | Some e \<Rightarrow> metric_inc refreshConsumerMetadataError (client_labels (cs_canaryConfig cs))))"

fun leaders_of :: "'e externals \<Rightarrow> int list \<Rightarrow> (int \<times> int) list
    \<Rightarrow> ('e, goerror + (int \<times> int) list) consumer_routine" where
  "leaders_of api [] leaders = ret (Inr leaders)"
| "leaders_of api (p # ps) leaders = andthen (get_self (\<lambda>cs. cs)) (\<lambda>cs.
     andthen (extern (GetLeader (cs_client cs) (Topic (cs_canaryConfig cs)) p)
                (x_Leader api (cs_client cs) (Topic (cs_canaryConfig cs)) p)) (\<lambda>r. case r of
         Inl err \<Rightarrow> ret (Inl err)
       | Inr leader \<Rightarrow> leaders_of api ps (AList.update p (ID leader) leaders)))"

definition cs_Leaders :: "'e externals \<Rightarrow> ('e, goerror + (int \<times> int) list) consumer_routine" where
  "cs_Leaders api = andthen (get_self (\<lambda>cs. cs)) (\<lambda>cs.
     andthen (extern (GetPartitions (cs_client cs) (Topic (cs_canaryConfig cs)))
                (x_Partitions api (cs_client cs) (Topic (cs_canaryConfig cs)))) (\<lambda>r. case r of
         Inl err \<Rightarrow> ret (Inl err)
       | Inr partitions \<Rightarrow> leaders_of api partitions []))"

definition cs_Close :: "'e externals \<Rightarrow> ('e, unit) consumer_routine" where
  "cs_Close api =
     andthen (cs_cancel_call api) (\<lambda>_.
     andthen (get_self cs_consumerGroup) (\<lambda>h.
     andthen (extern (ConsumerGroupClose h) (x_ConsumerGroupClose api h)) (\<lambda>err. case err of
         None \<Rightarrow> ret ()
       | Some e \<Rightarrow> crash (Fatal ''Error closing the Sarama consumer''))))"

definition count_consumed :: "('c, 'e, unit) routine" where
  "count_consumed = modify (\<lambda>s. s\<lparr>world := (world s)
     \<lparr>RecordsConsumedCounter := RecordsConsumedCounter (world s) + 1\<rparr>\<rparr>)"

text \<open>One message of the claim, and the claim: the messages until its channel is closed.\<close>

definition claim_message :: "'e externals \<Rightarrow> consumer_message \<Rightarrow> ('e, unit) consumer_routine" where
  "claim_message api msg =
     andthen (NowInMilliseconds api) (\<lambda>timestamp.
       let cm = NewCanaryMessage (cmsg_Value msg); latency = int64 (timestamp - Timestamp cm) in
     andthen (extern (MarkMessage msg) (x_MarkMessage api msg)) (\<lambda>_.
     andthen (get_self cs_canaryConfig) (\<lambda>c.
       let lbls = [(''clientid'', ClientID c), (''partition'', Itoa (cmsg_Partition msg))] in
     andthen (metric_observe recordsEndToEndLatency lbls latency) (\<lambda>_.
     andthen (metric_inc recordsConsumed lbls) (\<lambda>_.
       count_consumed)))))"

definition ConsumeClaim :: "'e externals \<Rightarrow> consumer_message list \<Rightarrow> ('e, unit) consumer_routine" where
  "ConsumeClaim api messages = for_each (claim_message api) messages"


section \<open>Joining the group\<close>

lemma gowp_wait [go_simps]:
  "gowp d (wait api t) Q E s = (case x_WaitReady api t (env (world s)) of (r, e) \<Rightarrow>
     let s' = s\<lparr>world := (world s)\<lparr>env := e, calls := calls (world s) @ [WaitReady t]\<rparr>\<rparr> in
     if r then Q True s' else Q False (s'\<lparr>self := (self s')\<lparr>cs_ready := Closed\<rparr>\<rparr>))"
  by (auto simp: wait_def go_simps Let_def split: prod.splits)

lemma gowp_cancel [go_simps]:
  "gowp d (cs_cancel_call api) Q E s = (case cs_cancel (self s) of
       None \<Rightarrow> E (Panic NilDereference) s
     | Some i \<Rightarrow> gowp d (extern (CancelContext i) (x_CancelContext api i)) Q E s)"
  by (simp add: cs_cancel_call_def go_simps split: option.splits)

text \<open>The requests of an attempt that timed out, and of \<open>k\<close> of them.\<close>

definition timed_out :: "nat \<Rightarrow> call list" where
  "timed_out i = [WaitReady waitConsumeTimeout, CancelContext i, Sleep (5 * Second * 2 ^ i)]"

definition timed_out_attempts :: "nat \<Rightarrow> call list" where
  "timed_out_attempts k = concat (map timed_out [0..<k])"

definition join_backoff :: "nat \<Rightarrow> backoff" where
  "join_backoff i = (NewBackoff maxConsumeAttempts (5000 * Millisecond) MaxDefault)\<lparr>attempt := i\<rparr>"

lemma join_delays:
  "i < 3 \<Longrightarrow> Delay (join_backoff i) = (Inr (5 * Second * 2 ^ i), join_backoff (Suc i))"
  "Delay (join_backoff 3) = (Inl MaxAttemptsExceeded, join_backoff 3)"
proof -
  assume "i < 3"
  then have "i = 0 \<or> i = 1 \<or> i = 2" by auto
  then show "Delay (join_backoff i) = (Inr (5 * Second * 2 ^ i), join_backoff (Suc i))"
    by (auto simp: join_backoff_def NewBackoff_def Delay_def maxConsumeAttempts_def MaxDefault_def)
next
  show "Delay (join_backoff 3) = (Inl MaxAttemptsExceeded, join_backoff 3)"
    by (simp add: join_backoff_def NewBackoff_def Delay_def maxConsumeAttempts_def)
qed

definition joined_after :: "nat \<Rightarrow> (consumer_service, 'e world) ctx \<Rightarrow> (consumer_service, 'e world) ctx \<Rightarrow> bool" where
  "joined_after k s s' \<longleftrightarrow> calls (world s') = calls (world s) @ timed_out_attempts k @ [WaitReady waitConsumeTimeout]
     \<and> self s' = (self s)\<lparr>cs_cancel := Some k, cs_ready := Closed\<rparr>
     \<and> counted (world s') timeoutJoinGroup (client_labels (cs_canaryConfig (self s)))
         = counted (world s) timeoutJoinGroup (client_labels (cs_canaryConfig (self s))) + k"

definition gave_up :: "crash \<Rightarrow> (consumer_service, 'e world) ctx \<Rightarrow> (consumer_service, 'e world) ctx \<Rightarrow> bool" where
  "gave_up c s s' \<longleftrightarrow> c = Fatal ''Error joining the consumer group''
     \<and> calls (world s') = calls (world s) @ timed_out_attempts 3 @ [WaitReady waitConsumeTimeout, CancelContext 3]
     \<and> counted (world s') timeoutJoinGroup (client_labels (cs_canaryConfig (self s)))
         = counted (world s) timeoutJoinGroup (client_labels (cs_canaryConfig (self s))) + 4"

text \<open>The state in which attempt \<open>i\<close> starts, seen from the first one.\<close>

definition attempt_at :: "nat \<Rightarrow> (consumer_service, 'e world) ctx \<Rightarrow> (consumer_service, 'e world) ctx \<Rightarrow> bool" where
  "attempt_at i s t \<longleftrightarrow> calls (world t) = calls (world s) @ timed_out_attempts i
     \<and> (\<exists>x. self t = (self s)\<lparr>cs_cancel := x\<rparr>)
     \<and> counted (world t) timeoutJoinGroup (client_labels (cs_canaryConfig (self s)))
         = counted (world s) timeoutJoinGroup (client_labels (cs_canaryConfig (self s))) + i"

lemma gowp_join_loop:
  "gowp d (join_loop api i b) Q E s = gowp d (
     andthen (set_self (cs_cancel_update (\<lambda>_. Some i))) (\<lambda>_.
     andthen (wait api waitConsumeTimeout) (\<lambda>isTimeout.
       if isTimeout then
         andthen (cs_cancel_call api) (\<lambda>_.
         andthen (get_self cs_canaryConfig) (\<lambda>c.
         andthen (metric_inc timeoutJoinGroup (client_labels c)) (\<lambda>_.
           case fst (Delay b) of
             Inl err \<Rightarrow> crash (Fatal ''Error joining the consumer group'')
           | Inr delay \<Rightarrow> andthen (extern (Sleep delay) (x_sleep api delay))
                           (\<lambda>_. join_loop api (i + 1) (snd (Delay b))))))
       else ret ()))) Q E s"
  unfolding gowp_def by (subst join_loop.simps) (rule refl)

lemma attempt_joined:
  "attempt_at i s t \<Longrightarrow> self t' = (self t)\<lparr>cs_cancel := Some i, cs_ready := Closed\<rparr> \<Longrightarrow>
     calls (world t') = calls (world t) @ [WaitReady waitConsumeTimeout] \<Longrightarrow>
     counted (world t') timeoutJoinGroup (client_labels (cs_canaryConfig (self t)))
       = counted (world t) timeoutJoinGroup (client_labels (cs_canaryConfig (self t))) \<Longrightarrow> joined_after i s t'"
  by (auto simp: attempt_at_def joined_after_def)

lemma attempt_timed_out:
  "attempt_at i s t \<Longrightarrow> self t' = (self t)\<lparr>cs_cancel := Some i\<rparr> \<Longrightarrow> calls (world t') = calls (world t) @ timed_out i \<Longrightarrow>
     counted (world t') timeoutJoinGroup (client_labels (cs_canaryConfig (self t)))
       = counted (world t) timeoutJoinGroup (client_labels (cs_canaryConfig (self t))) + 1 \<Longrightarrow>
     attempt_at (Suc i) s t'"
  by (auto simp: attempt_at_def timed_out_attempts_def)

lemma join_from:
  "attempt_at i s t \<Longrightarrow> i \<le> 3 \<Longrightarrow>
   gowp False (join_loop api i (join_backoff i)) (\<lambda>_ s'. \<exists>k\<le>3. joined_after k s s') (\<lambda>c. gave_up c s) t"
proof (induction "3 - i" arbitrary: i t)
  case 0
  then have i: "i = 3" by simp
  have joined: "\<exists>k\<le>3. joined_after k s t'" if "joined_after 3 s t'" for t' using that by blast
  have gave_up: "gave_up c s t'" if "c = Fatal ''Error joining the consumer group''"
    "calls (world t') = calls (world t) @ [WaitReady waitConsumeTimeout, CancelContext 3]"
    "counted (world t') timeoutJoinGroup (client_labels (cs_canaryConfig (self t)))
       = counted (world t) timeoutJoinGroup (client_labels (cs_canaryConfig (self t))) + 1" for c t'
    using that 0 i by (auto simp: attempt_at_def gave_up_def)
  from 0 i show ?case
    by (subst gowp_join_loop)
      (auto simp: go_simps join_delays Let_def simp del: One_nat_def split: prod.splits
        intro!: joined gave_up attempt_joined [of 3 s t])
next
  case (Suc n)
  then have i: "i < 3" "n = 3 - Suc i" by simp_all
  have next_attempt: "gowp False (join_loop api (Suc i) (join_backoff (Suc i)))
      (\<lambda>_ s'. \<exists>k\<le>3. joined_after k s s') (\<lambda>c. gave_up c s) t'" if "attempt_at (Suc i) s t'" for t'
    using Suc.hyps(1) [OF i(2) that] i by simp
  show ?case
    using i
    by (subst gowp_join_loop)
      (auto simp: go_simps join_delays timed_out_def Let_def split: prod.splits
        intro!: next_attempt attempt_timed_out [OF Suc.prems(1)] exI [of _ i] attempt_joined [OF Suc.prems(1)])
qed

lemma gowp_Consume:
  "gowp False (Consume api) (\<lambda>_ s'. \<exists>k\<le>3. joined_after k s s') (\<lambda>c. gave_up c s) s"
proof -
  have "NewBackoff maxConsumeAttempts (5000 * Millisecond) MaxDefault = join_backoff 0"
    by (simp add: join_backoff_def NewBackoff_def)
  then show ?thesis
    unfolding Consume_def
    by (simp only:) (rule join_from, auto simp: attempt_at_def timed_out_attempts_def
        intro: exI [of _ "cs_cancel (self s)"])
qed

text \<open>
  C30: joining is bounded. \<open>Consume\<close> always ends. It returns exactly when an attempt sees the group
  ready within 30 seconds, after at most three attempts that timed out, each followed by
  cancelling its own context, counting the timeout and pausing 5, 10 and 20 seconds; the cancel
  function then belongs to the attempt that succeeded. After a fourth timeout the process is
  terminated.
\<close>

theorem consume_is_bounded:
  "(\<exists>s' k. Consume api s = Some (Returned () s') \<and> k \<le> 3 \<and> joined_after k s s')
   \<or> (\<exists>c s'. Consume api s = Some (Crashed c s') \<and> gave_up c s s')"
  using gowp_Consume [of api s] by (auto simp: gowp_def split: option.splits outcome.splits)


section \<open>The goroutine of an attempt\<close>

lemma consume_loop_returned:
  "consume_loop api i s = Some r \<Longrightarrow> r = Returned () s' \<Longrightarrow> last (calls (world s')) = ContextErr i
     \<and> (\<exists>e. x_ContextCancelled api i e = (True, env (world s')))"
proof (induction arbitrary: s' rule: consume_loop.raw_induct [rotated, consumes 1])
  case (1 loop api i s r)
  then show ?case
    by (auto simp: call_group_def after_call_def returned_iffs returned_case_iffs get_self_returned set_self_returned dest!: extern_returned)
qed

lemma consume_loop_ends:
  assumes "\<And>h t e. fst (x_GroupConsume api h t e) = (False, None)" and "\<And>e. fst (x_ContextCancelled api i e)"
  shows "\<exists>s'. consume_loop api i s = Some (Returned () s')"
proof -
  have g: "x_GroupConsume api h t e = (r, e') \<Longrightarrow> r = (False, None)" for h t e r e'
    using assms(1) [of h t e] by simp
  have c: "x_ContextCancelled api i e = (b, e') \<Longrightarrow> b" for e b e'
    using assms(2) [of e] by simp
  obtain e' where e': "x_GroupConsume api (cs_consumerGroup (self s)) (Topic (cs_canaryConfig (self s))) (env (world s)) = ((False, None), e')"
    by (metis g prod.collapse)
  show ?thesis
    using c by (subst consume_loop.simps)
      (auto simp: call_group_def andthen_def get_self_def gets_def extern_def after_call_def ret_def e' split: prod.splits)
qed

lemma consume_loop_errors:
  assumes err: "\<And>h t e. \<exists>err. fst (x_GroupConsume api h t e) = (False, Some err)"
    and run: "consume_loop api i s = Some r"
  shows False
proof -
  have "consume_loop api i s = Some r \<Longrightarrow> (\<And>h t e. \<exists>err. fst (x_GroupConsume api h t e) = (False, Some err)) \<Longrightarrow> False"
  proof (induction rule: consume_loop.raw_induct [rotated, consumes 1])
    case (1 loop api i s r)
    obtain err e where "x_GroupConsume api (cs_consumerGroup (self s)) (Topic (cs_canaryConfig (self s))) (env (world s))
        = ((False, Some err), e)"
      using 1(3) by (metis prod.collapse)
    with 1(2) have "\<exists>s'. loop api i s' = Some r"
      by (auto simp: call_group_def andthen_def get_self_def gets_def extern_def after_call_def ret_def split: prod.splits)
    with 1(1,3) show ?case by blast
  qed
  with assms show False by blast
qed


text \<open>
  A cancelled attempt can still take the group over. The attempts share the channel \<open>ready\<close>, and
  a goroutine whose context was cancelled after a timeout only looks at it after \<open>Consume\<close> has
  returned: if the group becomes available then, the handler of the cancelled attempt closes the
  channel, and when the next attempt joins in turn, its handler closes it again and panics.
\<close>

theorem late_join_of_cancelled_attempt_panics:
  assumes "cs_ready (self s) = Open"
    and joins: "\<forall>h t e. fst (x_GroupConsume api h t e) = (True, None)"
    and cancelled: "\<forall>e. fst (x_ContextCancelled api i e)"
  shows "\<exists>s'. andthen (consume_loop api i) (\<lambda>_. consume_loop api j) s = Some (Crashed (Panic CloseOfClosedChannel) s')"
proof -
  have g: "\<exists>e'. x_GroupConsume api h t e = ((True, None), e')" for h t e
    using joins by (metis prod.collapse)
  have c: "x_ContextCancelled api i e = (b, e') \<Longrightarrow> b" for e b e'
    using cancelled by (metis fst_conv)
  have first: "\<exists>s1. consume_loop api i s = Some (Returned () s1) \<and> cs_ready (self s1) = Closed"
    using assms(1) g [of "cs_consumerGroup (self s)" "Topic (cs_canaryConfig (self s))" "env (world s)"]
    by (subst consume_loop.simps)
      (auto simp: call_group_def andthen_def get_self_def gets_def extern_def after_call_def Setup_def set_self_def modify_def ret_def
        split: prod.splits dest: c)
  then obtain s1 where s1: "consume_loop api i s = Some (Returned () s1)" "cs_ready (self s1) = Closed" by blast
  have "\<exists>s2. consume_loop api j s1 = Some (Crashed (Panic CloseOfClosedChannel) s2)"
    using s1(2) g [of "cs_consumerGroup (self s1)" "Topic (cs_canaryConfig (self s1))" "env (world s1)"]
    by (subst consume_loop.simps)
      (auto simp: call_group_def andthen_def get_self_def gets_def extern_def Setup_def crash_def split: prod.splits)
  with s1(1) show ?thesis by (simp add: andthen_def)
qed

text \<open>
  So does the goroutine of an attempt that is not cancelled, when a session that had joined ends with an error
  and the group joins again: the channel is made anew only after a call that reports no error.
\<close>

theorem rejoin_after_error_panics:
  assumes "cs_ready (self s) = Open" and fails: "\<forall>h t e. \<exists>err. fst (x_GroupConsume api h t e) = (True, Some err)"
  shows "\<exists>s'. consume_loop api i s = Some (Crashed (Panic CloseOfClosedChannel) s')"
proof -
  have g: "\<exists>err e'. x_GroupConsume api h t e = ((True, Some err), e')" for h t e
    using fails by (metis prod.collapse)
  have again: "\<exists>s'. consume_loop api i t = Some (Crashed (Panic CloseOfClosedChannel) s')" if "cs_ready (self t) = Closed" for t
    using that g [of "cs_consumerGroup (self t)" "Topic (cs_canaryConfig (self t))" "env (world t)"]
    by (subst consume_loop.simps)
      (auto simp: call_group_def andthen_def get_self_def gets_def extern_def Setup_def crash_def split: prod.splits)
  show ?thesis
    using assms(1) again g [of "cs_consumerGroup (self s)" "Topic (cs_canaryConfig (self s))" "env (world s)"]
    by (subst consume_loop.simps)
      (auto simp: call_group_def andthen_def get_self_def gets_def extern_def after_call_def Setup_def set_self_def modify_def
        ret_def split: prod.splits)
qed

definition sample_cs :: consumer_service where
  "sample_cs = \<lparr>cs_canaryConfig = sample_config, cs_client = 9, cs_consumerGroup = 13, cs_cancel = None, cs_ready = Open\<rparr>"

theorem late_join_of_cancelled_attempt_panics_witness:
  "\<exists>s'. andthen (consume_loop (sim_api\<lparr>x_GroupConsume := \<lambda>h t e. ((True, None), e)\<rparr>) 0)
      (\<lambda>_. consume_loop (sim_api\<lparr>x_GroupConsume := \<lambda>h t e. ((True, None), e)\<rparr>) 1)
      \<lparr>self = sample_cs, world = start_world one_partition\<rparr> = Some (Crashed (Panic CloseOfClosedChannel) s')"
  by (rule late_join_of_cancelled_attempt_panics) (simp_all add: sample_cs_def sim_api_def)


section \<open>Messages and leaders\<close>

definition consumed_labels :: "canary_config \<Rightarrow> int \<Rightarrow> labels" where
  "consumed_labels c p = [(''clientid'', ClientID c), (''partition'', Itoa p)]"

lemma gowp_count_consumed [go_simps]:
  "gowp d count_consumed Q E s = Q () (s\<lparr>world := (world s)\<lparr>RecordsConsumedCounter := RecordsConsumedCounter (world s) + 1\<rparr>\<rparr>)"
  by (simp add: count_consumed_def go_simps)

lemma claim_message_spec:
  "gowp False (claim_message api m) (\<lambda>_ s'. self s' = self s
     \<and> calls (world s') = calls (world s) @ [MarkMessage m]
     \<and> RecordsConsumedCounter (world s') = RecordsConsumedCounter (world s) + 1
     \<and> (\<forall>lbls. counted (world s') recordsConsumed lbls = counted (world s) recordsConsumed lbls
          + (if lbls = consumed_labels (cs_canaryConfig (self s)) (cmsg_Partition m) then 1 else 0))
     \<and> (\<exists>now. \<forall>lbls. histogram (world s') (recordsEndToEndLatency, lbls) =
          histogram (world s) (recordsEndToEndLatency, lbls)
          @ (if lbls = consumed_labels (cs_canaryConfig (self s)) (cmsg_Partition m)
             then [int64 (now - Timestamp (NewCanaryMessage (cmsg_Value m)))] else [])))
   (\<lambda>_ _. False) s"
  by (auto simp: claim_message_def go_simps Let_def consumed_labels_def split: prod.splits)

text \<open>
  C14: consuming a claim. The handler always returns; every message is marked, exactly once and in
  order, also a message whose payload is not a canary message; the package counter grows by the
  number of messages, and each partition's counter and the number of its observed latencies grow by
  the number of its messages.
\<close>

theorem claim_is_consumed:
  "\<exists>s'. ConsumeClaim api ms s = Some (Returned () s') \<and> self s' = self s
     \<and> calls (world s') = calls (world s) @ map MarkMessage ms
     \<and> RecordsConsumedCounter (world s') = RecordsConsumedCounter (world s) + of_nat (length ms)
     \<and> (\<forall>lbls. let hits = length (filter (\<lambda>m. lbls = consumed_labels (cs_canaryConfig (self s)) (cmsg_Partition m)) ms) in
          counted (world s') recordsConsumed lbls = counted (world s) recordsConsumed lbls + hits
        \<and> length (histogram (world s') (recordsEndToEndLatency, lbls))
            = length (histogram (world s) (recordsEndToEndLatency, lbls)) + hits)"
  unfolding ConsumeClaim_def
proof (induction ms arbitrary: s)
  case Nil
  show ?case by (simp add: ret_def)
next
  case (Cons m ms)
  obtain s1 where s1: "claim_message api m s = Some (Returned () s1)" "self s1 = self s"
    "calls (world s1) = calls (world s) @ [MarkMessage m]"
    "RecordsConsumedCounter (world s1) = RecordsConsumedCounter (world s) + 1"
    "\<And>lbls. counted (world s1) recordsConsumed lbls = counted (world s) recordsConsumed lbls
          + (if lbls = consumed_labels (cs_canaryConfig (self s)) (cmsg_Partition m) then 1 else 0)"
    "\<And>lbls. length (histogram (world s1) (recordsEndToEndLatency, lbls)) =
          length (histogram (world s) (recordsEndToEndLatency, lbls))
          + (if lbls = consumed_labels (cs_canaryConfig (self s)) (cmsg_Partition m) then 1 else 0)"
    using gowp_returns [OF claim_message_spec [of api m s]] by auto
  from Cons.IH [of s1] s1 show ?case
    by (auto simp: andthen_def Let_def)
qed

end
