(* ===== verification/Service_Loop.thy ===== *)
theory Service_Loop
  imports Go_Runtime
begin

text \<open>
  The life of a periodic service, the same in \<open>connection_check.go\<close>, \<open>status_check.go\<close> and
  \<open>canary_manager.go\<close>: a stop channel, a wait group and a goroutine that selects between the ticker
  and the stop channel. First the sequential view that \<open>Open\<close> and \<open>Close\<close> have of it, then the
  interleaving of the closing thread with the goroutine as a step relation.
\<close>

section \<open>Starting and stopping\<close>

datatype chan_state = OpenChan | ClosedChan

text \<open>The stop channel (nil before the first start) and the count of the wait group.\<close>

type_synonym loop_control = "chan_state option \<times> nat"

definition start_loop :: "loop_control \<Rightarrow> loop_control" where
  "start_loop l = (Some OpenChan, snd l + 1)"

text \<open>
  \<open>close(stop)\<close>, then \<open>Wait\<close>: the goroutine finds the channel closed, ends and calls \<open>Done\<close>, so that the
  wait is over with a count of zero.
\<close>

definition stop_loop :: "loop_control \<Rightarrow> gopanic + loop_control" where
  "stop_loop l = (case fst l of
       None \<Rightarrow> Inl CloseOfNilChannel
     | Some ClosedChan \<Rightarrow> Inl CloseOfClosedChannel
     | Some OpenChan \<Rightarrow> Inr (Some ClosedChan, 0))"

text \<open>\<open>time.NewTicker\<close> with a period in milliseconds; the product is a 64-bit integer.\<close>

definition NewTicker :: "duration \<Rightarrow> gopanic + duration" where
  "NewTicker ms = (let d = int64 (ms * Millisecond) in if d \<le> 0 then Inl NonPositiveTicker else Inr d)"

lemma NewTicker_ok: "0 < ms \<Longrightarrow> ms < 2 ^ 43 \<Longrightarrow> NewTicker ms = Inr (ms * Millisecond)"
  by (simp add: NewTicker_def Let_def)

section \<open>The goroutine and the closing thread\<close>

datatype loop_event =
    Started \<comment> \<open>\<open>Open\<close> has made the channel and started the goroutine\<close>
  | Ticked \<comment> \<open>the goroutine ran the body for a tick\<close>
  | Asked \<comment> \<open>\<open>Close\<close> has closed the channel\<close>
  | Ended \<comment> \<open>the goroutine took the stop branch\<close>
  | Waited \<comment> \<open>\<open>Close\<close> has returned from \<open>Wait\<close>\<close>

record loop_state =
  lp_stop :: "chan_state option"
  lp_wg :: nat
  lp_alive :: bool

definition loop_init :: loop_state where
  "loop_init = \<lparr>lp_stop = None, lp_wg = 0, lp_alive = False\<rparr>"

text \<open>
  When the ticker and the channel are both ready the \<open>select\<close> may take either, so a tick is possible
  until the goroutine has ended.
\<close>

inductive loop_step :: "loop_state \<Rightarrow> loop_event \<Rightarrow> loop_state \<Rightarrow> bool" where
  started: "lp_stop l = None \<Longrightarrow>
     loop_step l Started (l\<lparr>lp_stop := Some OpenChan, lp_wg := lp_wg l + 1, lp_alive := True\<rparr>)"
| ticked: "lp_alive l \<Longrightarrow> loop_step l Ticked l"
| asked: "lp_stop l = Some OpenChan \<Longrightarrow> loop_step l Asked (l\<lparr>lp_stop := Some ClosedChan\<rparr>)"
| ended: "lp_alive l \<Longrightarrow> lp_stop l = Some ClosedChan \<Longrightarrow>
     loop_step l Ended (l\<lparr>lp_alive := False, lp_wg := lp_wg l - 1\<rparr>)"
| waited: "lp_stop l = Some ClosedChan \<Longrightarrow> lp_wg l = 0 \<Longrightarrow> loop_step l Waited l"

inductive_cases loop_stepE: "loop_step l e l'"

inductive_simps loop_step_simps:
  "loop_step l Started l'" "loop_step l Ticked l'" "loop_step l Asked l'"
  "loop_step l Ended l'" "loop_step l Waited l'"

inductive loop_run :: "loop_state \<Rightarrow> loop_event list \<Rightarrow> loop_state \<Rightarrow> bool" where
  run_nil: "loop_run l [] l"
| run_cons: "loop_step l e l' \<Longrightarrow> loop_run l' es l'' \<Longrightarrow> loop_run l (e # es) l''"

inductive_cases loop_run_ConsE: "loop_run l (e # es) l'"

text \<open>The wait group counts the goroutine, which lives only once the channel has been made.\<close>

definition loop_ok :: "loop_state \<Rightarrow> bool" where
  "loop_ok l \<longleftrightarrow> lp_wg l = (if lp_alive l then 1 else 0) \<and> (lp_alive l \<longrightarrow> lp_stop l \<noteq> None)
     \<and> (lp_stop l = Some OpenChan \<longrightarrow> lp_alive l)"

lemma loop_ok_init: "loop_ok loop_init"
  by (simp add: loop_ok_def loop_init_def)

lemma loop_step_ok: "loop_step l e l' \<Longrightarrow> loop_ok l \<Longrightarrow> loop_ok l'"
  by (erule loop_stepE) (auto simp: loop_ok_def)

lemma loop_run_ok: "loop_run l es l' \<Longrightarrow> loop_ok l \<Longrightarrow> loop_ok l'"
  by (induction rule: loop_run.induct) (auto dest: loop_step_ok)

lemma loop_run_append:
  "loop_run l (es @ fs) l' \<longleftrightarrow> (\<exists>m. loop_run l es m \<and> loop_run m fs l')"
proof (induction es arbitrary: l)
  case Nil
  show ?case by (auto intro: run_nil elim: loop_run.cases)
next
  case (Cons e es)
  then show ?case by simp (blast intro: run_cons elim: loop_run_ConsE)
qed

text \<open>A loop that has ended does nothing but being waited for.\<close>

lemma ended_loop:
  "loop_run l es l' \<Longrightarrow> loop_ok l \<Longrightarrow> lp_stop l = Some ClosedChan \<Longrightarrow> \<not> lp_alive l \<Longrightarrow> set es \<subseteq> {Waited}"
proof (induction rule: loop_run.induct)
  case (run_cons l e l' es l'')
  then have "e = Waited \<and> l' = l" by (auto elim: loop_stepE)
  with run_cons show ?case by auto
qed simp


lemma goroutine_history:
  "loop_run l es l' \<Longrightarrow> loop_ok l \<Longrightarrow> lp_stop l = None \<or> lp_alive l \<Longrightarrow> lp_stop l' = Some ClosedChan \<Longrightarrow> \<not> lp_alive l' \<Longrightarrow>
     Asked \<in> set es \<and> Ended \<in> set es \<or> lp_stop l = Some ClosedChan \<and> Ended \<in> set es"
proof (induction rule: loop_run.induct)
  case (run_cons l e l' es l'')
  show ?case
  proof (cases "e = Ended")
    case True
    with run_cons show ?thesis by (auto elim: loop_stepE)
  next
    case False
    with run_cons have "lp_stop l' = None \<or> lp_alive l'" by (auto elim: loop_stepE simp: loop_ok_def)
    from run_cons.IH [OF loop_step_ok [OF run_cons.hyps(1) run_cons.prems(1)] this run_cons.prems(3,4)]
    show ?thesis using run_cons.hyps(1) False by (auto elim: loop_stepE)
  qed
qed (auto simp: loop_ok_def)

text \<open>
  C33: closing a service is final. In every interleaving of a freshly made service's goroutine with the
  thread that closes it, a \<open>Close\<close> that has returned from its wait is preceded by the request to stop and by
  the end of the goroutine, and nothing but further waits follows: the body never runs again.
\<close>

theorem close_is_final:
  assumes "loop_run loop_init (pre @ Waited # post) l"
  shows "Asked \<in> set pre \<and> Ended \<in> set pre \<and> set post \<subseteq> {Waited} \<and> lp_wg l = 0"
proof -
  from assms obtain m where m: "loop_run loop_init pre m" "loop_step m Waited m" "loop_run m post l"
    by (auto simp: loop_run_append loop_step_simps elim!: loop_run_ConsE)
  have ok: "loop_ok m" using loop_run_ok [OF m(1) loop_ok_init] .
  from m(2) ok have closed: "lp_stop m = Some ClosedChan" "\<not> lp_alive m"
    by (auto simp: loop_step_simps loop_ok_def split: if_splits)
  have "Asked \<in> set pre \<and> Ended \<in> set pre"
    using goroutine_history [OF m(1) loop_ok_init _ closed] by (simp add: loop_init_def)
  moreover have post: "set post \<subseteq> {Waited}" by (rule ended_loop [OF m(3) ok closed])
  moreover have "l = m" using m(3) post
    by (induction rule: loop_run.induct) (auto elim: loop_stepE)
  ultimately show ?thesis using m(2) by (auto simp: loop_step_simps)
qed

lemmas loop_runs = run_cons [OF started] run_cons [OF ticked] run_cons [OF asked] run_cons [OF ended]
  run_cons [OF waited] run_nil

theorem close_is_final_witness:
  "\<exists>l. loop_run loop_init ([Started, Ticked, Asked, Ticked, Ended] @ Waited # []) l \<and> lp_wg l = 0"
proof -
  have "\<exists>l. loop_run loop_init ([Started, Ticked, Asked, Ticked, Ended] @ Waited # []) l"
    unfolding append.simps by (intro exI loop_runs) (simp_all add: loop_init_def, rule run_nil)
  then show ?thesis using close_is_final by blast
qed

end
