(* ===== verification/Connection_Service.thy ===== *)
theory Connection_Service
  imports Simulated_Cluster Service_Loop
begin

text \<open>
  The connection check, \<open>internal/services/connection_check.go\<close>: an admin client opened lazily, the
  list of brokers refreshed on every check or kept once it has the expected size, a connection
  attempt to every broker with its counters and latency, and the life of the check loop.
\<close>

section \<open>Model\<close>

record connection_service =
  cn_canaryConfig :: canary_config
  cn_saramaConfig :: sarama_config
  cn_admin :: "handle option"
  cn_brokers :: "broker list"
  cn_loop :: loop_control

type_synonym ('e, 'a) connection_routine = "(connection_service, 'e, 'a) routine"

definition deprecatedConnectionError :: string where
  "deprecatedConnectionError = ''strimzi_canary_connection_error_total''"

definition connection :: string where
  "connection = ''strimzi_canary_connection_total''"

definition connectionLatency :: string where
  "connectionLatency = ''strimzi_canary_connection_latency''"

definition connection_metrics :: "(string \<times> string list) list" where
  "connection_metrics = [(deprecatedConnectionError, [''brokerid'', ''connected'']),
     (connection, [''brokerid'', ''connected'']), (connectionLatency, [''brokerid'', ''connected''])]"

definition new_connection_service :: "canary_config \<Rightarrow> sarama_config \<Rightarrow> connection_service" where
  "new_connection_service canaryConfig saramaConfig =
     \<lparr>cn_canaryConfig = canaryConfig, cn_saramaConfig = saramaConfig, cn_admin = None,
      cn_brokers = [], cn_loop = (None, 0)\<rparr>"

definition NewConnectionService :: "'e externals \<Rightarrow> canary_config \<Rightarrow> sarama_config \<Rightarrow> ('c, 'e, connection_service) routine" where
  "NewConnectionService api canaryConfig saramaConfig =
     andthen (for_each (register api (PrometheusConstantLabels canaryConfig)) connection_metrics) (\<lambda>_.
       ret (new_connection_service canaryConfig saramaConfig))"

definition isDynamicScalingEnabled :: "connection_service \<Rightarrow> bool" where
  "isDynamicScalingEnabled cs = (ExpectedClusterSize (cn_canaryConfig cs) = ExpectedClusterSizeDefault)"

definition connect_labels :: "int \<Rightarrow> bool \<Rightarrow> labels" where
  "connect_labels brokerId ok = [(''brokerid'', Itoa brokerId), (''connected'', FormatBool ok)]"

definition check_broker :: "'e externals \<Rightarrow> broker \<Rightarrow> ('e, unit) connection_routine" where
  "check_broker api b =
     andthen (get_self cn_saramaConfig) (\<lambda>saramaConfig.
     andthen (metric_init connection (connect_labels (ID b) True)) (\<lambda>_.
     andthen (metric_init deprecatedConnectionError (connect_labels (ID b) True)) (\<lambda>_.
     andthen (metric_init connection (connect_labels (ID b) False)) (\<lambda>_.
     andthen (metric_init deprecatedConnectionError (connect_labels (ID b) False)) (\<lambda>_.
     andthen (NowInMilliseconds api) (\<lambda>start.
     andthen (extern (BrokerOpen (ID b)) (x_BrokerOpen api (ID b) saramaConfig)) (\<lambda>_.
     andthen (extern (BrokerConnected (ID b)) (x_BrokerConnected api (ID b))) (\<lambda>(connected, err).
     andthen (NowInMilliseconds api) (\<lambda>now.
       let lbls = connect_labels (ID b) connected in
     andthen (metric_inc connection lbls) (\<lambda>_.
     andthen (if connected then
                andthen (extern (BrokerClose (ID b)) (x_BrokerClose api (ID b))) (\<lambda>_.
                  metric_init deprecatedConnectionError lbls)
              else metric_inc deprecatedConnectionError lbls) (\<lambda>_.
       metric_observe connectionLatency lbls (int64 (now - start)))))))))))))"

definition cn_open_admin :: "'e externals \<Rightarrow> ('e, bool) connection_routine" where
  "cn_open_admin api = andthen (get_self (\<lambda>cs. cs)) (\<lambda>cs. case cn_admin cs of
       Some h \<Rightarrow> ret True
     | None \<Rightarrow>
         andthen (extern (NewClusterAdmin (BootstrapServers (cn_canaryConfig cs)))
                   (x_NewClusterAdmin api (BootstrapServers (cn_canaryConfig cs)) (cn_saramaConfig cs)))
           (\<lambda>r. case r of
              Inl err \<Rightarrow> ret False
            | Inr h \<Rightarrow> andthen (set_self (cn_admin_update (\<lambda>_. Some h))) (\<lambda>_. ret True)))"

definition cn_close_admin :: "'e externals \<Rightarrow> ('e, unit) connection_routine" where
  "cn_close_admin api = andthen (get_self cn_admin) (\<lambda>admin. case admin of
       None \<Rightarrow> crash (Panic NilDereference)
     | Some h \<Rightarrow> andthen (extern (AdminClose h) (x_AdminClose api h)) (\<lambda>err. case err of
           Some e \<Rightarrow> crash (Fatal ''Error closing the Sarama cluster admin'')
         | None \<Rightarrow> set_self (cn_admin_update (\<lambda>_. None))))"

text \<open>Whether the check goes on: the brokers are known.\<close>

definition refresh_brokers :: "'e externals \<Rightarrow> ('e, bool) connection_routine" where
  "refresh_brokers api = andthen (get_self (\<lambda>cs. cs)) (\<lambda>cs.
     if isDynamicScalingEnabled cs \<or> ExpectedClusterSize (cn_canaryConfig cs) \<noteq> int (length (cn_brokers cs)) then
       (case cn_admin cs of
          None \<Rightarrow> crash (Panic NilDereference)
        | Some h \<Rightarrow>
            andthen (extern (DescribeCluster h) (x_DescribeCluster api h)) (\<lambda>(brokers, err).
            andthen (set_self (cn_brokers_update (\<lambda>_. brokers))) (\<lambda>_. case err of
                None \<Rightarrow> ret True
              | Some e \<Rightarrow> andthen (whenever (IsDisconnection (Some e)) (cn_close_admin api)) (\<lambda>_. ret False))))
     else ret True)"

definition connectionCheck :: "'e externals \<Rightarrow> ('e, unit) connection_routine" where
  "connectionCheck api = andthen (cn_open_admin api) (\<lambda>opened.
     if \<not> opened then ret ()
     else andthen (refresh_brokers api) (\<lambda>known.
       if \<not> known then ret ()
       else andthen (get_self cn_brokers) (\<lambda>brokers. for_each (check_broker api) brokers)))"

text \<open>\<open>Open\<close> up to the start of its goroutine, whose every tick is a \<open>connectionCheck\<close>.\<close>

definition cn_Open :: "'e externals \<Rightarrow> ('e, unit) connection_routine" where
  "cn_Open api =
     andthen (set_self (cn_loop_update start_loop)) (\<lambda>_.
     andthen (connectionCheck api) (\<lambda>_.
     andthen (get_self (\<lambda>cs. ConnectionCheckInterval (cn_canaryConfig cs))) (\<lambda>interval.
     andthen (checked (NewTicker interval)) (\<lambda>_. ret ()))))"

definition cn_Close :: "'e externals \<Rightarrow> ('e, unit) connection_routine" where
  "cn_Close api =
     andthen (get_self cn_loop) (\<lambda>l.
     andthen (checked (stop_loop l)) (\<lambda>l'.
     andthen (set_self (cn_loop_update (\<lambda>_. l'))) (\<lambda>_. cn_close_admin api)))"

section \<open>Properties\<close>

text \<open>Connection attempts counted for a broker, and the failed ones.\<close>

definition attempts :: "'e world \<Rightarrow> int \<Rightarrow> nat" where
  "attempts w b = counted w connection (connect_labels b True) + counted w connection (connect_labels b False)"

definition latencies :: "'e world \<Rightarrow> int \<Rightarrow> nat" where
  "latencies w b = length (histogram w (connectionLatency, connect_labels b True))
     + length (histogram w (connectionLatency, connect_labels b False))"

definition failures :: "'e world \<Rightarrow> int \<Rightarrow> nat" where
  "failures w b = counted w deprecatedConnectionError (connect_labels b False)"

definition is_int32 :: "int \<Rightarrow> bool" where
  "is_int32 i \<longleftrightarrow> - (2 ^ 31) \<le> i \<and> i < 2 ^ 31"

lemma connect_labels_inject:
  "is_int32 i \<Longrightarrow> is_int32 j \<Longrightarrow> connect_labels i a = connect_labels j b \<longleftrightarrow> i = j \<and> a = b"
  using Itoa_inject [of i j] by (auto simp: connect_labels_def FormatBool_def is_int32_def)

lemma connection_metric_names:
  "connection \<noteq> deprecatedConnectionError" "deprecatedConnectionError \<noteq> connection"
  by (simp_all add: connection_def deprecatedConnectionError_def)

lemma check_broker_spec:
  assumes "is_int32 (ID b)"
  shows "gowp False (check_broker api b) (\<lambda>_ s'. self s' = self s
     \<and> (\<forall>i. is_int32 i \<longrightarrow> attempts (world s') i = attempts (world s) i + (if i = ID b then 1 else 0)
          \<and> latencies (world s') i = latencies (world s) i + (if i = ID b then 1 else 0)
          \<and> int (failures (world s') i) - int (failures (world s) i)
            = int (counted (world s') connection (connect_labels i False))
              - int (counted (world s) connection (connect_labels i False)))
     \<and> (\<exists>cs. calls (world s') = calls (world s) @ BrokerOpen (ID b) # BrokerConnected (ID b) # cs
          \<and> set cs \<subseteq> {BrokerClose (ID b)}))
   (\<lambda>_ _. False) s"
  using assms
  by (auto simp: check_broker_def go_simps Let_def attempts_def latencies_def failures_def
      connection_metric_names connect_labels_inject split: prod.splits)


lemma check_brokers:
  assumes "\<forall>b\<in>set bs. is_int32 (ID b)"
  shows "\<exists>s'. for_each (check_broker api) bs s = Some (Returned () s') \<and> self s' = self s
     \<and> (\<forall>i. is_int32 i \<longrightarrow> attempts (world s') i = attempts (world s) i + count_list (map ID bs) i
          \<and> latencies (world s') i = latencies (world s) i + count_list (map ID bs) i
          \<and> int (failures (world s') i) - int (failures (world s) i)
            = int (counted (world s') connection (connect_labels i False))
              - int (counted (world s) connection (connect_labels i False)))
     \<and> (\<exists>cs. calls (world s') = calls (world s) @ cs
          \<and> filter (\<lambda>c. \<exists>i. c = BrokerOpen i) cs = map (\<lambda>b. BrokerOpen (ID b)) bs
          \<and> (\<forall>c\<in>set cs. \<exists>i. c \<in> {BrokerOpen i, BrokerConnected i, BrokerClose i}))"
  using assms
proof (induction bs arbitrary: s)
  case Nil
  show ?case by (simp add: ret_def)
next
  case (Cons b bs)
  then have b: "is_int32 (ID b)" by simp
  obtain s1 cs where s1: "check_broker api b s = Some (Returned () s1)" "self s1 = self s"
    "\<And>i. is_int32 i \<Longrightarrow> attempts (world s1) i = attempts (world s) i + (if i = ID b then 1 else 0)
          \<and> latencies (world s1) i = latencies (world s) i + (if i = ID b then 1 else 0)
          \<and> int (failures (world s1) i) - int (failures (world s) i)
            = int (counted (world s1) connection (connect_labels i False))
              - int (counted (world s) connection (connect_labels i False))"
    "calls (world s1) = calls (world s) @ BrokerOpen (ID b) # BrokerConnected (ID b) # cs" "set cs \<subseteq> {BrokerClose (ID b)}"
    using gowp_returns [OF check_broker_spec [OF b, of api s]] by auto
  from Cons.prems have "\<forall>b\<in>set bs. is_int32 (ID b)" by simp
  from Cons.IH [OF this, of s1] obtain s2 cs2 where s2:
    "for_each (check_broker api) bs s1 = Some (Returned () s2)" "self s2 = self s1"
    "\<And>i. is_int32 i \<Longrightarrow> attempts (world s2) i = attempts (world s1) i + count_list (map ID bs) i
          \<and> latencies (world s2) i = latencies (world s1) i + count_list (map ID bs) i
          \<and> int (failures (world s2) i) - int (failures (world s1) i)
            = int (counted (world s2) connection (connect_labels i False))
              - int (counted (world s1) connection (connect_labels i False))"
    "calls (world s2) = calls (world s1) @ cs2"
    "filter (\<lambda>c. \<exists>i. c = BrokerOpen i) cs2 = map (\<lambda>b. BrokerOpen (ID b)) bs"
    "\<forall>c\<in>set cs2. \<exists>i. c \<in> {BrokerOpen i, BrokerConnected i, BrokerClose i}"
    by blast
  have "filter (\<lambda>c. \<exists>i. c = BrokerOpen i) cs = []"
    using s1(5) by (auto simp: filter_empty_conv)
  then have new: "filter (\<lambda>c. \<exists>i. c = BrokerOpen i) (BrokerOpen (ID b) # BrokerConnected (ID b) # cs @ cs2)
      = map (\<lambda>b. BrokerOpen (ID b)) (b # bs)" using s2(5) by simp
  have all: "\<forall>c\<in>set (BrokerOpen (ID b) # BrokerConnected (ID b) # cs @ cs2).
      \<exists>i. c \<in> {BrokerOpen i, BrokerConnected i, BrokerClose i}"
    using s1(5) s2(6) by auto
  have metrics: "attempts (world s2) i = attempts (world s) i + count_list (map ID (b # bs)) i
          \<and> latencies (world s2) i = latencies (world s) i + count_list (map ID (b # bs)) i
          \<and> int (failures (world s2) i) - int (failures (world s) i)
            = int (counted (world s2) connection (connect_labels i False))
              - int (counted (world s) connection (connect_labels i False))" if "is_int32 i" for i
    using s1(3) [OF that] s2(3) [OF that] by auto
  have calls: "calls (world s2) = calls (world s) @ BrokerOpen (ID b) # BrokerConnected (ID b) # cs @ cs2"
    using s1(4) s2(4) by simp
  have "\<exists>cs. calls (world s2) = calls (world s) @ cs
      \<and> filter (\<lambda>c. \<exists>i. c = BrokerOpen i) cs = map (\<lambda>b. BrokerOpen (ID b)) (b # bs)
      \<and> (\<forall>c\<in>set cs. \<exists>i. c \<in> {BrokerOpen i, BrokerConnected i, BrokerClose i})"
    by (rule exI, intro conjI, rule calls, rule new, rule all)
  moreover have "for_each (check_broker api) (b # bs) s = Some (Returned () s2)"
    using s1(1) s2(1) by (simp add: andthen_def)
  moreover have "self s2 = self s" using s1(2) s2(2) by simp
  ultimately show ?case using metrics by (intro exI [of _ s2] conjI allI impI) blast+
qed

text \<open>The metrics of a world in which the brokers with the ids \<open>ids\<close> have been tried since \<open>w\<close>.\<close>

definition tried :: "int list \<Rightarrow> 'e world \<Rightarrow> 'e world \<Rightarrow> bool" where
  "tried ids w w' \<longleftrightarrow> (\<forall>i. is_int32 i \<longrightarrow> attempts w' i = attempts w i + count_list ids i
     \<and> latencies w' i = latencies w i + count_list ids i
     \<and> int (failures w' i) - int (failures w i)
       = int (counted w' connection (connect_labels i False)) - int (counted w connection (connect_labels i False)))"

lemma check_brokers_tried:
  assumes "\<forall>b\<in>set bs. is_int32 (ID b)"
  shows "\<exists>s' cs. for_each (check_broker api) bs s = Some (Returned () s') \<and> self s' = self s
     \<and> calls (world s') = calls (world s) @ cs \<and> filter (\<lambda>c. \<exists>i. c = BrokerOpen i) cs = map (\<lambda>b. BrokerOpen (ID b)) bs
     \<and> (\<forall>c\<in>set cs. \<exists>i. c \<in> {BrokerOpen i, BrokerConnected i, BrokerClose i}) \<and> tried (map ID bs) (world s) (world s')"
  using check_brokers [OF assms, of api s] unfolding tried_def by blast

lemma tried_asked: "tried ids ((world s)\<lparr>env := e, calls := cs\<rparr>) w = tried ids (world s) w"
  by (simp add: tried_def attempts_def latencies_def failures_def counted_def)

text \<open>
  C32: a connection check with an open admin client. It asks for the brokers exactly when no expected
  cluster size is set or the number of brokers it knows is another one, and then the answer replaces those it knew; otherwise it
  keeps them. Unless asking failed, the check returns after it has tried each of the brokers once, in
  order, also one that is down: every attempt is counted once and its latency observed once, and the failures
  counted in the deprecated metric are the attempts counted as not connected. If asking failed, no broker is tried, and a
  disconnection has the admin client closed and dropped, or the process exit if that fails too.
\<close>

theorem known_brokers_are_checked:
  assumes "cn_admin (self s) = Some h"
    and asked: "asked \<longleftrightarrow> isDynamicScalingEnabled (self s)
        \<or> ExpectedClusterSize (cn_canaryConfig (self s)) \<noteq> int (length (cn_brokers (self s)))"
    and found: "(bs, err) = (if asked then fst (x_DescribeCluster api h (env (world s))) else (cn_brokers (self s), None))"
    and ids: "\<forall>b\<in>set bs. is_int32 (ID b)"
  shows "case err of
       None \<Rightarrow> \<exists>s' cs. connectionCheck api s = Some (Returned () s') \<and> self s' = (self s)\<lparr>cn_brokers := bs\<rparr>
         \<and> calls (world s') = calls (world s) @ (if asked then [DescribeCluster h] else []) @ cs
         \<and> filter (\<lambda>c. \<exists>i. c = BrokerOpen i) cs = map (\<lambda>b. BrokerOpen (ID b)) bs
         \<and> (\<forall>c\<in>set cs. \<exists>i. c \<in> {BrokerOpen i, BrokerConnected i, BrokerClose i})
         \<and> tried (map ID bs) (world s) (world s')
     | Some e \<Rightarrow> \<exists>s'. calls (world s') = calls (world s) @ DescribeCluster h # (if IsDisconnection err then [AdminClose h] else [])
         \<and> cn_brokers (self s') = bs \<and> tried [] (world s) (world s')
         \<and> (connectionCheck api s = Some (Returned () s') \<and> cn_admin (self s') = (if IsDisconnection err then None else Some h)
            \<or> IsDisconnection err \<and> connectionCheck api s = Some (Crashed (Fatal ''Error closing the Sarama cluster admin'') s'))"
proof (cases asked)
  case False
  then have bs: "bs = cn_brokers (self s)" "err = None" using found by simp_all
  have "connectionCheck api s = for_each (check_broker api) bs s"
    using assms(1) asked False bs by (simp add: connectionCheck_def cn_open_admin_def refresh_brokers_def andthen_def
        get_self_def gets_def ret_def)
  with check_brokers_tried [OF ids, of api s] False bs show ?thesis by simp
next
  case True
  from found True obtain e where e: "x_DescribeCluster api h (env (world s)) = ((bs, err), e)" by (metis prod.collapse)
  let ?t = "s\<lparr>world := (world s)\<lparr>env := e, calls := calls (world s) @ [DescribeCluster h]\<rparr>, self := (self s)\<lparr>cn_brokers := bs\<rparr>\<rparr>"
  show ?thesis
  proof (cases err)
    case None
    have "connectionCheck api s = for_each (check_broker api) bs ?t"
      using assms(1) asked True None e by (simp add: connectionCheck_def cn_open_admin_def refresh_brokers_def andthen_def
          get_self_def gets_def ret_def extern_def set_self_def modify_def)
    with check_brokers_tried [OF ids, of api ?t] True None show ?thesis by (simp add: tried_asked)
  next
    case (Some x)
    obtain r e' where r: "x_AdminClose api h e = (r, e')" by force
    have none: "tried [] (world s) ((world s)\<lparr>env := e'', calls := cs\<rparr>)" for e'' cs
      by (simp add: tried_def attempts_def latencies_def failures_def counted_def)
    show ?thesis
      using assms(1) asked True Some e r none
      by (cases r) (simp_all add: connectionCheck_def cn_open_admin_def refresh_brokers_def cn_close_admin_def whenever_def
          andthen_def get_self_def gets_def ret_def extern_def set_self_def modify_def crash_def)
  qed
qed

definition sample_cn :: connection_service where
  "sample_cn = (new_connection_service (sample_config\<lparr>ExpectedClusterSize := 4\<rparr>) sample_sarama)
     \<lparr>cn_admin := Some 7, cn_brokers := brokers_up three_brokers @ [\<lparr>ID = 3, Rack = ''''\<rparr>]\<rparr>"

theorem known_brokers_are_checked_witness:
  "(\<exists>s'. connectionCheck sim_api \<lparr>self = sample_cn, world = start_world three_brokers\<rparr> = Some (Returned () s')
     \<and> attempts (world s') 3 = 1 \<and> latencies (world s') 0 = 1)
   \<and> (\<exists>s'. connectionCheck sim_api \<lparr>self = sample_cn\<lparr>cn_brokers := []\<rparr>, world = start_world three_brokers\<rparr> = Some (Returned () s')
     \<and> cn_brokers (self s') = brokers_up three_brokers)"
proof (rule conjI)
  let ?s = "\<lparr>self = sample_cn, world = start_world three_brokers\<rparr>"
  have pre: "\<not> isDynamicScalingEnabled (self ?s)"
    "ExpectedClusterSize (cn_canaryConfig (self ?s)) = int (length (cn_brokers (self ?s)))"
    "cn_admin (self ?s) = Some 7" "\<forall>b\<in>set (cn_brokers (self ?s)). is_int32 (ID b)"
    "map ID (cn_brokers (self ?s)) = [0, 1, 2, 3]"
    "\<And>i. attempts (world ?s) i = 0" "\<And>i. latencies (world ?s) i = 0"
    by (simp_all add: sample_cn_def new_connection_service_def sample_config_def isDynamicScalingEnabled_def
        ExpectedClusterSizeDefault_def three_brokers_def is_int32_def attempts_def latencies_def counted_def
        start_world_def)
  from known_brokers_are_checked [of ?s 7 False "cn_brokers (self ?s)" None sim_api] pre(1-4) obtain s' where
    s': "connectionCheck sim_api ?s = Some (Returned () s')" "tried (map ID (cn_brokers (self ?s))) (world ?s) (world s')" by auto
  moreover have "is_int32 3" "is_int32 0" by (simp_all add: is_int32_def)
  ultimately show "\<exists>s'. connectionCheck sim_api ?s = Some (Returned () s') \<and> attempts (world s') 3 = 1 \<and> latencies (world s') 0 = 1"
    using pre(5-7) by (auto simp: tried_def)
  let ?t = "\<lparr>self = sample_cn\<lparr>cn_brokers := []\<rparr>, world = start_world three_brokers\<rparr>"
  have "cn_admin (self ?t) = Some 7" "fst (x_DescribeCluster sim_api 7 (env (world ?t))) = (brokers_up three_brokers, None)"
    "ExpectedClusterSize (cn_canaryConfig (self ?t)) \<noteq> int (length (cn_brokers (self ?t)))"
    "\<forall>b\<in>set (brokers_up three_brokers). is_int32 (ID b)"
    by (simp_all add: sample_cn_def new_connection_service_def sample_config_def three_brokers_def is_int32_def start_world_def sim_api_def)
  with known_brokers_are_checked [of ?t 7 True "brokers_up three_brokers" None sim_api]
  show "\<exists>s'. connectionCheck sim_api ?t = Some (Returned () s') \<and> cn_brokers (self s') = brokers_up three_brokers" by fastforce
qed

text \<open>
  Closing after a disconnection panics. When every describe request fails with a disconnection,
  each check closes the admin client and drops it, and \<open>Close\<close>, unlike that of the topic service,
  then calls a method of the missing client: opening and closing the service ends in a nil
  dereference.
\<close>

theorem close_after_disconnection_panics:
  assumes "isDynamicScalingEnabled (self s)" "0 < ConnectionCheckInterval (cn_canaryConfig (self s))"
      "ConnectionCheckInterval (cn_canaryConfig (self s)) < 2 ^ 43"
    and lost: "\<forall>h e. \<exists>bs err e'. x_DescribeCluster api h e = ((bs, Some err), e') \<and> IsDisconnection (Some err)"
    and closes: "\<forall>h e. fst (x_AdminClose api h e) = None"
  shows "\<exists>s'. andthen (cn_Open api) (\<lambda>_. cn_Close api) s = Some (Crashed (Panic NilDereference) s')"
proof -
  let ?c = "cn_canaryConfig (self s)"
  have d: "x_DescribeCluster api h e = ((bs, r), e') \<Longrightarrow> \<exists>err. r = Some err \<and> IsDisconnection r" for h e bs r e'
    using lost by (metis Pair_inject)
  have cl: "x_AdminClose api h e = (r, e') \<Longrightarrow> r = None" for h e r e'
    using closes by (metis fst_conv)
  have tick: "\<exists>t. NewTicker (ConnectionCheckInterval ?c) = Inr t"
    using assms(2,3) by (simp add: NewTicker_def Let_def)
  have "gowp False (connectionCheck api) (\<lambda>_ s'. cn_admin (self s') = None \<and> cn_canaryConfig (self s') = ?c
      \<and> cn_loop (self s') = (Some OpenChan, snd (cn_loop (self s)) + 1)) (\<lambda>_ _. False)
      (s\<lparr>self := cn_loop_update start_loop (self s)\<rparr>)"
    using assms(1)
    by (auto simp: connectionCheck_def cn_open_admin_def refresh_brokers_def cn_close_admin_def go_simps
        isDynamicScalingEnabled_def start_loop_def split: prod.splits option.splits sum.splits dest: d cl)
  then have "gowp False (andthen (cn_Open api) (\<lambda>_. cn_Close api)) (\<lambda>_ _. False)
      (\<lambda>c s'. c = Panic NilDereference) s"
    unfolding cn_Open_def cn_Close_def cn_close_admin_def using tick
    by (auto simp: go_simps stop_loop_def elim!: gowp_mono)
  then show ?thesis by (auto simp: gowp_def split: option.splits outcome.splits)
qed


theorem close_after_disconnection_panics_witness:
  "\<exists>s'. andthen (cn_Open (sim_api\<lparr>x_DescribeCluster := \<lambda>h e. (([], Some EOF), e)\<rparr>))
      (\<lambda>_. cn_Close (sim_api\<lparr>x_DescribeCluster := \<lambda>h e. (([], Some EOF), e)\<rparr>))
      \<lparr>self = new_connection_service sample_config sample_sarama, world = start_world three_brokers\<rparr>
    = Some (Crashed (Panic NilDereference) s')"
  by (rule close_after_disconnection_panics)
    (simp_all add: new_connection_service_def sample_config_def isDynamicScalingEnabled_def
      ExpectedClusterSizeDefault_def sim_api_def IsDisconnection_def)

end
