(* ===== verification/Time_Window_Ring.thy ===== *)
theory Time_Window_Ring
  imports Canary_Prelude
begin

text \<open>
  The sliding window of samples of \<open>internal/util/time_window_ring.go\<close>: a ring buffer of at most
  384 buckets with head, tail and count. \<open>window\<close> reads the samples the ring holds, oldest
  first, and is the abstraction the locale \<open>sample_window\<close> specifies: the ring keeps exactly
  the last \<open>capacity\<close> samples, \<open>Head\<close> is the newest and \<open>Tail\<close> the oldest of them.
\<close>

section \<open>Model\<close>

definition maxBufferBuckets :: int where
  "maxBufferBuckets = 384"

record ring =
  rb_buffer :: "u64 list"
  rb_tail :: int
  rb_head :: int
  rb_count :: int
  rb_size :: duration
  rb_sampling :: duration

text \<open>A zero sampling interval divides by zero, a negative bucket number fails in \<open>make\<close>.\<close>

definition NewTimeWindowRing :: "duration \<Rightarrow> duration \<Rightarrow> gopanic + ring" where
  "NewTimeWindowRing wsize sampling =
     (if sampling = 0 then Inl DivideByZero
      else let bufferSize = int64 (wsize sdiv sampling);
               bufferSize = (if bufferSize > maxBufferBuckets then maxBufferBuckets else bufferSize)
           in if bufferSize < 0 then Inl MakeSliceLen
              else Inr \<lparr>rb_buffer = replicate (nat bufferSize) 0,
                        rb_tail = -1, rb_head = -1, rb_count = 0,
                        rb_size = int64 (bufferSize * sampling), rb_sampling = sampling\<rparr>)"

definition Put :: "ring \<Rightarrow> u64 \<Rightarrow> gopanic + ring" where
  "Put rb value =
     (let n = int (length (rb_buffer rb)) in
      if n = 0 then Inl DivideByZero
      else let h = (rb_head rb + 1) smod n in
      if h < 0 \<or> n \<le> h then Inl IndexOutOfRange
      else let rb = rb\<lparr>rb_head := h, rb_buffer := (rb_buffer rb)[nat h := value]\<rparr>;
               rb = (if rb_head rb = rb_tail rb then rb\<lparr>rb_tail := (rb_tail rb + 1) smod n\<rparr> else rb);
               rb = (if rb_tail rb = -1 then rb\<lparr>rb_tail := 0\<rparr> else rb)
           in Inr (if rb_count rb < n then rb\<lparr>rb_count := rb_count rb + 1\<rparr> else rb))"

definition Head :: "ring \<Rightarrow> gopanic + u64" where
  "Head rb = at_index (rb_buffer rb) (rb_head rb)"

definition Tail :: "ring \<Rightarrow> gopanic + u64" where
  "Tail rb = at_index (rb_buffer rb) (rb_tail rb)"

definition IsEmpty :: "ring \<Rightarrow> bool" where
  "IsEmpty rb \<longleftrightarrow> rb_tail rb = -1 \<and> rb_head rb = -1"

definition Count :: "ring \<Rightarrow> int" where
  "Count rb = rb_count rb"

text \<open>A sequence of samples, in the order the status check loop puts them.\<close>

fun put_all :: "('r \<Rightarrow> u64 \<Rightarrow> gopanic + 'r) \<Rightarrow> 'r \<Rightarrow> u64 list \<Rightarrow> gopanic + 'r" where
  "put_all put rb [] = Inr rb"
| "put_all put rb (v # vs) = (case put rb v of Inl p \<Rightarrow> Inl p | Inr rb' \<Rightarrow> put_all put rb' vs)"

section \<open>The interface: a bounded sliding window\<close>

locale sample_window =
  fixes put :: "'r \<Rightarrow> u64 \<Rightarrow> gopanic + 'r"
    and head :: "'r \<Rightarrow> gopanic + u64"
    and tail :: "'r \<Rightarrow> gopanic + u64"
    and is_empty :: "'r \<Rightarrow> bool"
    and count :: "'r \<Rightarrow> int"
    and contents :: "'r \<Rightarrow> u64 list"
    and capacity :: "'r \<Rightarrow> nat"
    and inv :: "'r \<Rightarrow> bool"
  assumes put_ok: "inv r \<Longrightarrow> \<exists>r'. put r v = Inr r' \<and> inv r' \<and> capacity r' = capacity r
      \<and> contents r' = lastn (capacity r) (contents r @ [v])"
    and capacity_pos: "inv r \<Longrightarrow> 0 < capacity r"
    and head_ok: "inv r \<Longrightarrow> contents r \<noteq> [] \<Longrightarrow> head r = Inr (last (contents r))"
    and tail_ok: "inv r \<Longrightarrow> contents r \<noteq> [] \<Longrightarrow> tail r = Inr (hd (contents r))"
    and is_empty_ok: "inv r \<Longrightarrow> is_empty r \<longleftrightarrow> contents r = []"
    and count_ok: "inv r \<Longrightarrow> count r = int (length (contents r))"
begin

lemma put_all_ok:
  assumes "inv r"
  shows "\<exists>r'. put_all put r vs = Inr r' \<and> inv r' \<and> capacity r' = capacity r
           \<and> contents r' = (if vs = [] then contents r else lastn (capacity r) (contents r @ vs))"
  using assms
proof (induction vs arbitrary: r)
  case Nil
  then show ?case by simp
next
  case (Cons v vs)
  obtain r1 where r1: "put r v = Inr r1" "inv r1" "capacity r1 = capacity r"
      "contents r1 = lastn (capacity r) (contents r @ [v])"
    using put_ok [OF Cons.prems] by blast
  obtain r2 where r2: "put_all put r1 vs = Inr r2" "inv r2" "capacity r2 = capacity r1"
      "contents r2 = (if vs = [] then contents r1 else lastn (capacity r1) (contents r1 @ vs))"
    using Cons.IH [OF r1(2)] by blast
  have "lastn (capacity r) (contents r @ v # vs)
      = lastn (capacity r) (lastn (capacity r) (contents r @ [v]) @ vs)"
    using lastn_append [of "capacity r" "contents r @ [v]" vs] capacity_pos [OF Cons.prems]
    by simp
  with r1 r2 show ?case by simp
qed

lemma filled_ends:
  assumes "inv r" "contents r = []" "vs \<noteq> []" "put_all put r vs = Inr r'"
  shows "head r' = Inr (last vs)"
    and "tail r' = Inr (vs ! (length vs - min (capacity r) (length vs)))"
    and "count r' = int (min (capacity r) (length vs))"
    and "\<not> is_empty r'"
proof -
  from put_all_ok [OF assms(1), of vs] assms
  have r': "inv r'" "capacity r' = capacity r" "contents r' = lastn (capacity r) vs"
    by auto
  have pos: "0 < capacity r" by (rule capacity_pos [OF assms(1)])
  have ne: "contents r' \<noteq> []" using r' pos assms(3) by simp
  show "head r' = Inr (last vs)" using head_ok [OF r'(1) ne] r' pos assms(3) by simp
  show "tail r' = Inr (vs ! (length vs - min (capacity r) (length vs)))"
    using tail_ok [OF r'(1) ne] r' pos assms(3) by (simp add: hd_lastn)
  show "count r' = int (min (capacity r) (length vs))" using count_ok [OF r'(1)] r' by simp
  show "\<not> is_empty r'" using is_empty_ok [OF r'(1)] ne by simp
qed

end

section \<open>The ring implements the window\<close>

definition capacity :: "ring \<Rightarrow> nat" where
  "capacity rb = length (rb_buffer rb)"

definition window :: "ring \<Rightarrow> u64 list" where
  "window rb = map (\<lambda>i. rb_buffer rb ! ((nat (rb_tail rb) + i) mod capacity rb)) [0..<nat (rb_count rb)]"

definition ring_ok :: "ring \<Rightarrow> bool" where
  "ring_ok rb \<longleftrightarrow> 0 < capacity rb \<and>
     (if rb_count rb = 0 then rb_tail rb = -1 \<and> rb_head rb = -1
      else 0 < rb_count rb \<and> rb_count rb \<le> int (capacity rb)
         \<and> 0 \<le> rb_tail rb \<and> rb_tail rb < int (capacity rb)
         \<and> rb_head rb = (rb_tail rb + rb_count rb - 1) mod int (capacity rb)
         \<and> (rb_count rb < int (capacity rb) \<longrightarrow> rb_tail rb = 0))"

lemma length_window [simp]: "length (window rb) = nat (rb_count rb)"
  by (simp add: window_def)

lemma ring_ok_capacity: "ring_ok rb \<Longrightarrow> 0 < capacity rb"
  by (simp add: ring_ok_def)

text \<open>The three situations of a well-formed ring, with natural-number indices.\<close>

lemma ring_ok_cases:
  assumes "ring_ok rb"
  obtains (empty) n where "capacity rb = n" "0 < n" "rb_count rb = 0" "rb_tail rb = -1" "rb_head rb = -1"
  | (filling) n c where "capacity rb = n" "0 < c" "c < n"
      "rb_count rb = int c" "rb_tail rb = 0" "rb_head rb = int (c - 1)"
  | (full) n t where "capacity rb = n" "0 < n" "t < n"
      "rb_count rb = int n" "rb_tail rb = int t" "rb_head rb = int ((t + n - 1) mod n)"
proof (cases "rb_count rb = 0")
  case True
  with assms show ?thesis by (intro empty [OF refl]) (auto simp: ring_ok_def)
next
  case False
  define c t where "c = nat (rb_count rb)" and "t = nat (rb_tail rb)"
  with False assms have ct: "rb_count rb = int c" "0 < c" "c \<le> capacity rb" "rb_tail rb = int t"
      "t < capacity rb" "rb_head rb = (int t + int c - 1) mod int (capacity rb)"
      "c < capacity rb \<longrightarrow> t = 0"
    by (auto simp: ring_ok_def)
  have "int t + int c - 1 = int (t + c - 1)" using ct(2) by simp
  with ct(6) have hd: "rb_head rb = int ((t + c - 1) mod capacity rb)"
    by (simp only: zmod_int)
  show ?thesis
  proof (cases "c < capacity rb")
    case True
    with ct hd show ?thesis by (intro filling [OF refl, of c]) auto
  next
    case False
    with ct hd show ?thesis by (intro full [OF refl, of t]) auto
  qed
qed

lemma Put_ok:
  assumes "ring_ok rb"
  shows "\<exists>rb'. Put rb v = Inr rb' \<and> ring_ok rb' \<and> capacity rb' = capacity rb
           \<and> window rb' = lastn (capacity rb) (window rb @ [v])"
  using assms
proof (cases rule: ring_ok_cases)
  case (empty n)
  then have len: "length (rb_buffer rb) = n" by (simp add: capacity_def)
  with empty show ?thesis
    by (auto simp: Put_def Let_def ring_ok_def capacity_def window_def signed_modulo_int_def)
next
  case (filling n c)
  then have len: "length (rb_buffer rb) = n" by (simp add: capacity_def)
  let ?rb = "rb\<lparr>rb_head := int c, rb_buffer := (rb_buffer rb)[c := v], rb_count := int c + 1\<rparr>"
  have "(int (c - 1) + 1) smod int n = int c" using filling by simp
  then have "Put rb v = Inr ?rb" using filling len by (simp add: Put_def Let_def)
  moreover have "ring_ok ?rb" using filling len by (simp add: ring_ok_def capacity_def)
  moreover have "window ?rb = window rb @ [v]"
  proof (rule nth_equalityI)
    fix i assume "i < length (window ?rb)"
    then have "i < c \<or> i = c" using filling by (simp add: nat_add_distrib less_Suc_eq)
    then show "window ?rb ! i = (window rb @ [v]) ! i"
      using filling len
      by (auto simp: window_def capacity_def nat_add_distrib nth_append)
  qed (use filling in \<open>simp add: nat_add_distrib\<close>)
  ultimately show ?thesis using filling len by (auto simp: capacity_def)
next
  case (full n t)
  then have len: "length (rb_buffer rb) = n" by (simp add: capacity_def)
  have "((t + n - 1) mod n + 1) mod n = t" using full by (simp add: mod_Suc_eq mod_simps)
  moreover have "(int x + 1) smod int n = int ((x + 1) mod n)" for x
    using full by (simp add: zmod_int ac_simps)
  ultimately have h: "(int ((t + n - 1) mod n) + 1) smod int n = int t"
    by simp
  let ?rb = "rb\<lparr>rb_head := int t, rb_buffer := (rb_buffer rb)[t := v], rb_tail := int (Suc t mod n)\<rparr>"
  have t1: "(int t + 1) smod int n = int (Suc t mod n)"
    using full by (simp add: zmod_int ac_simps)
  have "Put rb v = Inr ?rb" using full len h t1 by (simp add: Put_def Let_def)
  moreover have "ring_ok ?rb"
  proof -
    have "(int (Suc t mod n) + int n - 1) mod int n = int ((Suc t mod n + n - 1) mod n)"
      using full by (simp add: zmod_int of_nat_diff)
    also have "(Suc t mod n + n - 1) mod n = (Suc t + (n - 1)) mod n"
      using full by (metis Nat.add_diff_assoc One_nat_def Suc_leI mod_add_left_eq)
    also have "\<dots> = t" using full by simp
    finally show ?thesis using full len by (simp add: ring_ok_def capacity_def)
  qed
  moreover have "window ?rb = tl (window rb) @ [v]"
  proof (rule nth_equalityI)
    fix i assume "i < length (window ?rb)"
    then have i: "i < n" using full by simp
    have idx: "(Suc t mod n + i) mod n = (t + Suc i) mod n"
      by (simp add: mod_add_left_eq)
    show "window ?rb ! i = (tl (window rb) @ [v]) ! i"
    proof (cases "Suc i < n")
      case True
      have "(t + Suc i) mod n \<noteq> (t + 0) mod n"
      proof
        assume "(t + Suc i) mod n = (t + 0) mod n"
        then have "Suc i mod n = 0 mod n" by (rule mod_add_cancel_nat)
        with True show False by simp
      qed
      with full have "(t + Suc i) mod n \<noteq> t" by simp
      moreover have "i < n - Suc 0" using True by simp
      ultimately show ?thesis using full len i idx
        by (simp add: window_def capacity_def nth_append nth_tl)
    next
      case False
      with i have "Suc i = n" by simp
      then have "(t + Suc i) mod n = t" using full by simp
      with False full len i idx show ?thesis
        by (auto simp: window_def capacity_def nth_append)
    qed
  qed (use full in simp)
  moreover have "lastn n (window rb @ [v]) = tl (window rb) @ [v]"
    using full by (simp add: lastn_def drop_Suc)
  ultimately show ?thesis using full len by (auto simp: capacity_def)
qed

lemma Head_ok: "ring_ok rb \<Longrightarrow> window rb \<noteq> [] \<Longrightarrow> Head rb = Inr (last (window rb))"
  by (erule ring_ok_cases)
    (auto simp: Head_def capacity_def last_conv_nth window_def at_index_def)

lemma Tail_ok: "ring_ok rb \<Longrightarrow> window rb \<noteq> [] \<Longrightarrow> Tail rb = Inr (hd (window rb))"
  by (erule ring_ok_cases)
    (auto simp: Tail_def capacity_def hd_conv_nth window_def at_index_def)

lemma IsEmpty_ok: "ring_ok rb \<Longrightarrow> IsEmpty rb \<longleftrightarrow> window rb = []"
  by (erule ring_ok_cases) (auto simp: IsEmpty_def window_def)

lemma Count_ok: "ring_ok rb \<Longrightarrow> Count rb = int (length (window rb))"
  by (erule ring_ok_cases) (auto simp: Count_def)

interpretation ring: sample_window Put Head Tail IsEmpty Count window capacity ring_ok
  by unfold_locales
    (fact Put_ok ring_ok_capacity Head_ok Tail_ok IsEmpty_ok Count_ok)+

section \<open>Properties\<close>

lemma NewTimeWindowRing_ok:
  assumes "NewTimeWindowRing w s = Inr rb" "0 < length (rb_buffer rb)"
  shows "ring_ok rb" "window rb = []"
  using assms
  by (auto simp: NewTimeWindowRing_def Let_def ring_ok_def capacity_def window_def split: if_splits)

lemma buckets_span:
  assumes "0 < s" "0 \<le> (w::int)"
  shows "min (w div s) c * s \<le> w"
proof -
  have "min (w div s) c * s \<le> w div s * s"
    using assms by (intro mult_right_mono) auto
  also have "\<dots> \<le> w"
    using assms div_mult_mod_eq [of w s] pos_mod_sign [of s w] by linarith
  finally show ?thesis .
qed

lemma NewTimeWindowRing_pos:
  assumes "0 < s" "0 \<le> w" "w < 2 ^ 63"
  shows "NewTimeWindowRing w s = Inr \<lparr>rb_buffer = replicate (nat (min (w div s) 384)) 0,
           rb_tail = -1, rb_head = -1, rb_count = 0,
           rb_size = min (w div s) 384 * s, rb_sampling = s\<rparr>"
proof -
  let ?b = "min (w div s) 384"
  have div: "0 \<le> w div s" "w div s \<le> w"
    using assms zdiv_mono2 [of w 1 s] by (simp_all add: pos_imp_zdiv_nonneg_iff)
  have le: "?b * s \<le> w" by (rule buckets_span [OF assms(1,2)])
  have b: "0 \<le> ?b" using div by simp
  moreover have "0 \<le> ?b * s" using b assms(1) by simp
  ultimately have "int64 (?b * s) = ?b * s" using le assms(3) by simp
  moreover have "int64 (w sdiv s) = w div s" using assms div by simp
  moreover have "(if w div s > maxBufferBuckets then maxBufferBuckets else w div s) = ?b"
    by (simp add: maxBufferBuckets_def)
  ultimately show ?thesis using assms(1) b
    by (simp only: NewTimeWindowRing_def Let_def) auto
qed

text \<open>
  C20: a ring made by \<open>NewTimeWindowRing\<close> with at least one bucket accepts any sequence of
  samples without a panic, and then shows exactly the last \<open>length buffer\<close> of them: \<open>Head\<close> is
  the newest sample, \<open>Tail\<close> the oldest one still in the window, \<open>Count\<close> their number.
\<close>

theorem ring_sliding_window:
  assumes "NewTimeWindowRing w s = Inr rb" "0 < length (rb_buffer rb)" "vs \<noteq> []"
  shows "\<exists>rb'. put_all Put rb vs = Inr rb'
           \<and> Head rb' = Inr (last vs)
           \<and> Tail rb' = Inr (vs ! (length vs - min (length (rb_buffer rb)) (length vs)))
           \<and> Count rb' = int (min (length (rb_buffer rb)) (length vs))
           \<and> \<not> IsEmpty rb'"
proof -
  note ok = NewTimeWindowRing_ok [OF assms(1,2)]
  obtain rb' where rb': "put_all Put rb vs = Inr rb'"
    using ring.put_all_ok [OF ok(1)] by blast
  from ring.filled_ends [OF ok assms(3) rb'] rb' show ?thesis
    by (simp add: capacity_def)
qed

theorem ring_sliding_window_witness:
  "\<exists>rb rb'. NewTimeWindowRing 10000 2000 = Inr rb
     \<and> put_all Put rb [1, 2, 3, 4, 5, 6] = Inr rb' \<and> Head rb' = Inr 6 \<and> Tail rb' = Inr 2"
proof -
  have n: "NewTimeWindowRing 10000 2000 = Inr \<lparr>rb_buffer = replicate 5 0, rb_tail = -1,
      rb_head = -1, rb_count = 0, rb_size = 10000, rb_sampling = 2000\<rparr>" (is "_ = Inr ?rb")
    by (simp add: NewTimeWindowRing_pos)
  from ring_sliding_window [OF n, of "[1, 2, 3, 4, 5, 6]"] n show ?thesis by auto
qed

text \<open>
  For a positive sampling interval and a non-negative window size, the number of buckets is
  the number of whole intervals in the window capped at 384, and the size the ring reports is
  exactly the span of these buckets, never more than the size asked for.
\<close>

theorem ring_capacity_bounds:
  assumes "0 < s" "0 \<le> w" "w < 2 ^ 63"
  shows "\<exists>rb. NewTimeWindowRing w s = Inr rb
           \<and> int (length (rb_buffer rb)) = min (w div s) 384
           \<and> rb_size rb = int (length (rb_buffer rb)) * s \<and> rb_size rb \<le> w \<and> IsEmpty rb"
proof -
  have "0 \<le> min (w div s) 384"
    using assms by (simp add: pos_imp_zdiv_nonneg_iff)
  with buckets_span [OF assms(1,2), of 384] show ?thesis
    by (simp add: NewTimeWindowRing_pos [OF assms] IsEmpty_def)
qed

theorem ring_capacity_bounds_witness:
  "\<exists>rb. NewTimeWindowRing 300000 30000 = Inr rb \<and> length (rb_buffer rb) = 10"
  using ring_capacity_bounds [of 30000 300000] by auto

text \<open>
  The sizes that the constructor does not guard. A zero sampling interval panics with a
  division by zero, and a window shorter than one sampling interval yields a ring without
  buckets, whose first \<open>Put\<close> divides by zero.
\<close>

theorem ring_unguarded_sizes:
  assumes "0 \<le> w" "w < s" "s < 2 ^ 63"
  shows "NewTimeWindowRing w 0 = Inl DivideByZero
       \<and> (\<exists>rb. NewTimeWindowRing w s = Inr rb \<and> Put rb v = Inl DivideByZero)"
proof
  show "NewTimeWindowRing w 0 = Inl DivideByZero" by (simp add: NewTimeWindowRing_def)
  from assms have "w div s = 0" by simp
  with assms show "\<exists>rb. NewTimeWindowRing w s = Inr rb \<and> Put rb v = Inl DivideByZero"
    by (simp add: NewTimeWindowRing_pos Put_def)
qed

theorem ring_unguarded_sizes_witness:
  "\<exists>rb. NewTimeWindowRing 1000 30000 = Inr rb \<and> Put rb 7 = Inl DivideByZero"
  using ring_unguarded_sizes [of 1000 30000 7] by auto

end
