(* ===== verification/Go_Float.thy ===== *)
theory Go_Float
  imports Canary_Prelude
begin

text \<open>
  Go's \<open>float64\<close> arithmetic on the values the status page computes with: non-negative rationals,
  rounded to 53 significant bits, halfway cases to even. Overflow, subnormal numbers and NaN do not
  occur there (every value is zero or between 1 / 2^64 and 2^78), so a float is a rational here.
  \<open>math.Round\<close> rounds halfway cases away from zero.
\<close>

section \<open>Rounding to a double\<close>

text \<open>The binary exponent of a positive number: \<open>2 powi expo x \<le> x < 2 powi (expo x + 1)\<close>.\<close>

function expo :: "rat \<Rightarrow> int" where
  "expo x = (if 2 \<le> x then expo (x / 2) + 1 else if 0 < x \<and> x < 1 then expo (x * 2) - 1 else 0)"
  by pat_completeness auto
termination
proof (relation "measure (\<lambda>x. if 1 \<le> x then nat \<lfloor>x\<rfloor> - 1 else nat \<lfloor>1 / x\<rfloor>)")
  fix x :: rat assume x: "2 \<le> x"
  then have "\<lfloor>x / 2\<rfloor> < \<lfloor>x\<rfloor>" "0 \<le> \<lfloor>x / 2\<rfloor>" "1 \<le> x / 2" by linarith+
  with x show "(x / 2, x) \<in> measure (\<lambda>x. if 1 \<le> x then nat \<lfloor>x\<rfloor> - 1 else nat \<lfloor>1 / x\<rfloor>)"
    by auto linarith
next
  fix x :: rat assume "\<not> 2 \<le> x" and x: "0 < x \<and> x < 1"
  have one: "1 < 1 / x" using x by simp
  have half: "\<lfloor>y / 2\<rfloor> < \<lfloor>y\<rfloor> \<and> 0 \<le> \<lfloor>y / 2\<rfloor>" if "1 < y" for y :: rat
  proof -
    have "0 \<le> \<lfloor>y / 2\<rfloor>" using that by simp
    moreover have "\<lfloor>y / 2\<rfloor> < \<lfloor>y\<rfloor>"
    proof (cases "\<lfloor>y / 2\<rfloor> = 0")
      case True
      moreover have "1 \<le> \<lfloor>y\<rfloor>" using that by simp
      ultimately show ?thesis by linarith
    next
      case False
      with \<open>0 \<le> \<lfloor>y / 2\<rfloor>\<close> have "1 \<le> \<lfloor>y / 2\<rfloor>" by linarith
      then show ?thesis by linarith
    qed
    ultimately show ?thesis by simp
  qed
  show "(x * 2, x) \<in> measure (\<lambda>x. if 1 \<le> x then nat \<lfloor>x\<rfloor> - 1 else nat \<lfloor>1 / x\<rfloor>)"
  proof (cases "1 \<le> x * 2")
    case True
    then have "\<lfloor>x * 2\<rfloor> \<le> 1" using x by linarith
    moreover have "1 \<le> \<lfloor>1 / x\<rfloor>" using one by linarith
    ultimately have "nat \<lfloor>x * 2\<rfloor> - 1 < nat \<lfloor>1 / x\<rfloor>" by linarith
    then show ?thesis using True x by simp
  next
    case False
    have "1 / (x * 2) = (1 / x) / 2" by simp
    moreover have "\<lfloor>(1 / x) / 2\<rfloor> < \<lfloor>1 / x\<rfloor> \<and> 0 \<le> \<lfloor>(1 / x) / 2\<rfloor>" using one by (rule half)
    ultimately show ?thesis using False x by auto
  qed
qed simp

declare expo.simps [simp del]

definition round_even :: "rat \<Rightarrow> int" where
  "round_even x = (let f = \<lfloor>x\<rfloor>; d = x - of_int f in
     if d < 1 / 2 then f else if 1 / 2 < d then f + 1 else if even f then f else f + 1)"

definition fl :: "rat \<Rightarrow> rat" where
  "fl x = (if x \<le> 0 then 0 else of_int (round_even (x / 2 powi (expo x - 52))) * 2 powi (expo x - 52))"

definition math_Round :: "rat \<Rightarrow> rat" where
  "math_Round x = of_int \<lfloor>x + 1 / 2\<rfloor>"

section \<open>Rounding is monotone and keeps small integers\<close>

lemma expo_bounds: "0 < x \<Longrightarrow> 2 powi expo x \<le> x \<and> x < 2 powi (expo x + 1)"
proof (induction x rule: expo.induct)
  case (1 x)
  consider "2 \<le> x" | "x < 1" | "1 \<le> x" "x < 2" by linarith
  then show ?case
  proof cases
    case 1
    then have e: "expo x = expo (x / 2) + 1" by (simp add: expo.simps [of x])
    from 1 "1.IH"(1) have "2 powi expo (x / 2) \<le> x / 2" "x / 2 < 2 powi (expo (x / 2) + 1)" by auto
    then show ?thesis unfolding e by (simp add: power_int_add)
  next
    case 2
    with "1.prems" have e: "expo x = expo (x * 2) - 1" by (simp add: expo.simps [of x])
    from 2 "1.prems" "1.IH"(2) have "2 powi expo (x * 2) \<le> x * 2" "x * 2 < 2 powi (expo (x * 2) + 1)" by auto
    then show ?thesis unfolding e by (simp add: power_int_add power_int_diff)
  next
    case 3
    then have "expo x = 0" by (simp add: expo.simps [of x])
    with 3 show ?thesis by simp
  qed
qed

lemma round_even_mono: "x \<le> y \<Longrightarrow> round_even x \<le> round_even y"
proof -
  assume le: "x \<le> y"
  then consider "\<lfloor>x\<rfloor> < \<lfloor>y\<rfloor>" | "\<lfloor>x\<rfloor> = \<lfloor>y\<rfloor>" using floor_mono by fastforce
  then show ?thesis using le by cases (auto simp: round_even_def Let_def)
qed

lemma round_even_int [simp]: "round_even (of_int n) = n"
  by (simp add: round_even_def)

lemma expo_mono: "0 < x \<Longrightarrow> x \<le> y \<Longrightarrow> expo x \<le> expo y"
proof (rule ccontr)
  assume "0 < x" "x \<le> y" "\<not> expo x \<le> expo y"
  then have "(2::rat) powi (expo y + 1) \<le> 2 powi expo x"
    by (intro power_int_increasing) auto
  with expo_bounds [of x] expo_bounds [of y] \<open>0 < x\<close> \<open>x \<le> y\<close> show False by linarith
qed

lemma fl_between:
  assumes "0 < x"
  shows "2 powi expo x \<le> fl x" "fl x \<le> 2 powi (expo x + 1)"
proof -
  let ?u = "(2::rat) powi (expo x - 52)"
  have u: "0 < ?u" by simp
  have lo: "(2::rat) powi expo x = of_int (2 ^ 52) * ?u" and hi: "(2::rat) powi (expo x + 1) = of_int (2 ^ 53) * ?u"
    by (simp_all add: power_int_diff power_int_add)
  from expo_bounds [OF assms] u have "of_int (2 ^ 52) \<le> x / ?u" "x / ?u \<le> of_int (2 ^ 53)"
    unfolding lo hi by (simp_all add: pos_le_divide_eq pos_divide_le_eq)
  then have "2 ^ 52 \<le> round_even (x / ?u)" "round_even (x / ?u) \<le> 2 ^ 53"
    using round_even_mono [of "of_int (2 ^ 52)" "x / ?u"] round_even_mono [of "x / ?u" "of_int (2 ^ 53)"]
    unfolding round_even_int by simp_all
  then have "of_int (2 ^ 52) * ?u \<le> of_int (round_even (x / ?u)) * ?u"
    "of_int (round_even (x / ?u)) * ?u \<le> of_int (2 ^ 53) * ?u"
    using u by (simp_all only: mult_le_cancel_right_pos of_int_le_iff)
  with assms show "2 powi expo x \<le> fl x" "fl x \<le> 2 powi (expo x + 1)"
    unfolding lo hi by (simp_all add: fl_def)
qed

lemma fl_nonneg: "0 \<le> fl x"
proof (cases "x \<le> 0")
  case False
  then have "2 powi expo x \<le> fl x" by (intro fl_between) simp
  moreover have "(0::rat) \<le> 2 powi expo x" by simp
  ultimately show ?thesis by linarith
qed (simp add: fl_def)

lemma fl_mono: "x \<le> y \<Longrightarrow> fl x \<le> fl y"
proof -
  assume le: "x \<le> y"
  show ?thesis
  proof (cases "x \<le> 0")
    case True
    then show ?thesis using fl_nonneg [of y] by (simp add: fl_def)
  next
    case False
    then have pos: "0 < x" "0 < y" using le by auto
    from expo_mono [OF pos(1) le] consider "expo x = expo y" | "expo x + 1 \<le> expo y" by linarith
    then show ?thesis
    proof cases
      case 1
      have "x / 2 powi (expo y - 52) \<le> y / 2 powi (expo y - 52)"
        using le by (intro divide_right_mono) auto
      with 1 pos show ?thesis by (simp add: fl_def round_even_mono mult_right_mono)
    next
      case 2
      have "fl x \<le> 2 powi (expo x + 1)" using fl_between(2) pos by simp
      also have "\<dots> \<le> 2 powi expo y" using 2 by (intro power_int_increasing) auto
      also have "\<dots> \<le> fl y" using fl_between(1) pos by simp
      finally show ?thesis .
    qed
  qed
qed

text \<open>Integers below \<open>2 ^ 53\<close> are doubles.\<close>

lemma fl_of_int:
  assumes "0 \<le> n" "n < 2 ^ 53"
  shows "fl (of_int n) = of_int n"
proof (cases "n = 0")
  case False
  let ?x = "of_int n :: rat"
  have pos: "0 < ?x" using False assms by simp
  have "expo ?x \<le> 52"
  proof (rule ccontr)
    assume "\<not> expo ?x \<le> 52"
    then have "(2::rat) powi 53 \<le> 2 powi expo ?x" by (intro power_int_increasing) auto
    with expo_bounds [OF pos] have "of_int (2 ^ 53) \<le> ?x" by simp
    with assms(2) show False by linarith
  qed
  then obtain k where k: "52 - expo ?x = int k" using nonneg_int_cases by (metis diff_ge_0_iff_ge)
  then have e: "expo ?x - 52 = - int k" by simp
  have "?x / 2 powi (expo ?x - 52) = of_int (n * 2 ^ k)"
    unfolding e by (simp add: power_int_minus divide_inverse)
  then have "round_even (?x / 2 powi (expo ?x - 52)) = n * 2 ^ k" by (simp only: round_even_int)
  then have "fl ?x = of_int (n * 2 ^ k) * 2 powi (- int k)"
    using pos by (simp add: fl_def e)
  also have "\<dots> = ?x" by (simp add: power_int_minus)
  finally show ?thesis .
qed (simp add: fl_def)

lemma math_Round_of_int [simp]: "math_Round (of_int n) = of_int n"
proof -
  have "\<lfloor>of_int n + 1 / 2 :: rat\<rfloor> = n" by (rule floor_unique) auto
  then show ?thesis by (simp add: math_Round_def)
qed

lemma math_Round_mono: "x \<le> y \<Longrightarrow> math_Round x \<le> math_Round y"
  by (simp add: math_Round_def floor_mono)

end
