(* ===== verification/Status_Service.thy ===== *)
theory Status_Service
  imports Time_Window_Ring Go_Float Simulated_Cluster Service_Loop
begin

text \<open>
  The status service, \<open>internal/services/status_check.go\<close>: two rings sampled from the package counters of
  produced and consumed records, and the percentage of consumed records over the window that the
  status page shows. The formatting of a float in JSON is an argument.
\<close>

section \<open>Model\<close>

record status_service =
  ss_canaryConfig :: canary_config
  producedRecordsSamples :: ring
  consumedRecordsSamples :: ring
  ss_loop :: loop_control

type_synonym ('e, 'a) status_routine = "(status_service, 'e, 'a) routine"

record consuming_status =
  TimeWindow :: duration
  Percentage :: rat

definition NewStatusService :: "canary_config \<Rightarrow> gopanic + status_service" where
  "NewStatusService c =
     bindE (NewTimeWindowRing (StatusTimeWindow c) (StatusCheckInterval c)) (\<lambda>produced.
     bindE (NewTimeWindowRing (StatusTimeWindow c) (StatusCheckInterval c)) (\<lambda>consumed.
       Inr \<lparr>ss_canaryConfig = c, producedRecordsSamples = produced, consumedRecordsSamples = consumed,
            ss_loop = (None, 0)\<rparr>))"

text \<open>\<open>statusCheck\<close> reads both ends of both rings for its log line.\<close>

definition sampled :: "status_service \<Rightarrow> u64 \<Rightarrow> u64 \<Rightarrow> gopanic + status_service" where
  "sampled ss produced consumed =
     bindE (Put (producedRecordsSamples ss) produced) (\<lambda>rp.
     bindE (Put (consumedRecordsSamples ss) consumed) (\<lambda>rc.
     bindE (Head rp) (\<lambda>_. bindE (Tail rp) (\<lambda>_. bindE (Head rc) (\<lambda>_. bindE (Tail rc) (\<lambda>_.
       Inr (ss\<lparr>producedRecordsSamples := rp, consumedRecordsSamples := rc\<rparr>)))))))"

definition statusCheck :: "('e, unit) status_routine" where
  "statusCheck = andthen (gets (\<lambda>s. s)) (\<lambda>s.
     andthen (checked (sampled (self s) (RecordsProducedCounter (world s)) (RecordsConsumedCounter (world s))))
       (\<lambda>ss. set_self (\<lambda>_. ss)))"

definition float64 :: "u64 \<Rightarrow> rat" where
  "float64 w = fl (of_int (uint w))"

definition percentage :: "u64 \<Rightarrow> u64 \<Rightarrow> rat" where
  "percentage consumed produced =
     (let p = fl (float64 (consumed * 100) / float64 produced)
      in fl (math_Round (fl (p * 100)) / 100))"

definition consumedPercentage :: "status_service \<Rightarrow> gopanic + (goerror + rat)" where
  "consumedPercentage ss =
     (if IsEmpty (producedRecordsSamples ss) then Inr (Inl ErrNoDataSamples)
      else
        bindE (Head (consumedRecordsSamples ss)) (\<lambda>ch.
        bindE (Tail (consumedRecordsSamples ss)) (\<lambda>ct.
        bindE (Head (producedRecordsSamples ss)) (\<lambda>ph.
        bindE (Tail (producedRecordsSamples ss)) (\<lambda>pt.
          let consumed = ch - ct; produced = ph - pt in
          if produced = 0 then Inr (Inl ErrNoDataSamples)
          else Inr (Inr (percentage consumed produced)))))))"

definition consuming_report :: "status_service \<Rightarrow> gopanic + consuming_status" where
  "consuming_report ss =
     (let timeWindow = int64 (StatusCheckInterval (ss_canaryConfig ss) * Count (consumedRecordsSamples ss)) in
      bindE (consumedPercentage ss) (\<lambda>r. case r of
          Inl e \<Rightarrow> Inr \<lparr>TimeWindow = timeWindow, Percentage = (if e = ErrNoDataSamples then -1 else 0)\<rparr>
        | Inr p \<Rightarrow> Inr \<lparr>TimeWindow = timeWindow, Percentage = p\<rparr>))"

text \<open>The body of the response; its content type is \<open>application/json\<close>.\<close>

definition StatusHandler :: "(rat \<Rightarrow> string) \<Rightarrow> status_service \<Rightarrow> gopanic + string" where
  "StatusHandler fmt_float ss = bindE (consuming_report ss) (\<lambda>st.
     Inr (''{'' @ [CHR 0x22] @ ''Consuming'' @ [CHR 0x22] @ '':{'' @ [CHR 0x22] @ ''TimeWindow'' @ [CHR 0x22] @ '':'' @ Itoa (TimeWindow st)
       @ '','' @ [CHR 0x22] @ ''Percentage'' @ [CHR 0x22] @ '':'' @ fmt_float (Percentage st) @ ''}}''))"

definition ss_Open :: "('e, unit) status_routine" where
  "ss_Open =
     andthen (set_self (ss_loop_update start_loop)) (\<lambda>_.
     andthen (get_self (\<lambda>ss. StatusCheckInterval (ss_canaryConfig ss))) (\<lambda>interval.
     andthen (checked (NewTicker interval)) (\<lambda>_. ret ())))"

definition ss_Close :: "('e, unit) status_routine" where
  "ss_Close = andthen (get_self ss_loop) (\<lambda>l.
     andthen (checked (stop_loop l)) (\<lambda>l'. set_self (ss_loop_update (\<lambda>_. l'))))"

section \<open>Properties\<close>

text \<open>A sequence of status checks, with the values of the two counters at each of them.\<close>

fun checks :: "status_service \<Rightarrow> (u64 \<times> u64) list \<Rightarrow> gopanic + status_service" where
  "checks ss [] = Inr ss"
| "checks ss ((p, c) # rest) = bindE (sampled ss p c) (\<lambda>ss'. checks ss' rest)"

definition rings_ok :: "status_service \<Rightarrow> nat \<Rightarrow> u64 list \<Rightarrow> u64 list \<Rightarrow> bool" where
  "rings_ok ss n ps cs \<longleftrightarrow>
     ring_ok (producedRecordsSamples ss) \<and> capacity (producedRecordsSamples ss) = n
     \<and> window (producedRecordsSamples ss) = lastn n ps
     \<and> ring_ok (consumedRecordsSamples ss) \<and> capacity (consumedRecordsSamples ss) = n
     \<and> window (consumedRecordsSamples ss) = lastn n cs"

lemma sampled_ok:
  assumes "rings_ok ss n ps cs" "0 < n"
  shows "\<exists>ss'. sampled ss p c = Inr ss' \<and> rings_ok ss' n (ps @ [p]) (cs @ [c])
     \<and> ss_canaryConfig ss' = ss_canaryConfig ss"
proof -
  from assms obtain rp where rp: "Put (producedRecordsSamples ss) p = Inr rp" "ring_ok rp" "capacity rp = n"
    "window rp = lastn n (lastn n ps @ [p])"
    using ring.put_ok [of "producedRecordsSamples ss" p] by (auto simp: rings_ok_def)
  from assms obtain rc where rc: "Put (consumedRecordsSamples ss) c = Inr rc" "ring_ok rc" "capacity rc = n"
    "window rc = lastn n (lastn n cs @ [c])"
    using ring.put_ok [of "consumedRecordsSamples ss" c] by (auto simp: rings_ok_def)
  have ne: "window rp \<noteq> []" "window rc \<noteq> []" using rp rc assms(2) by simp_all
  note ends = ring.head_ok [OF rp(2) ne(1)] ring.tail_ok [OF rp(2) ne(1)]
    ring.head_ok [OF rc(2) ne(2)] ring.tail_ok [OF rc(2) ne(2)]
  show ?thesis using rp rc ends by (simp add: sampled_def rings_ok_def lastn_append)
qed

lemma checks_ok:
  "rings_ok ss n ps cs \<Longrightarrow> 0 < n \<Longrightarrow>
     \<exists>ss'. checks ss vs = Inr ss' \<and> rings_ok ss' n (ps @ map fst vs) (cs @ map snd vs)
        \<and> ss_canaryConfig ss' = ss_canaryConfig ss"
proof (induction vs arbitrary: ss ps cs)
  case (Cons v vs)
  obtain p c where v: "v = (p, c)" by (cases v)
  from sampled_ok [OF Cons.prems, of p c] obtain ss1 where
    ss1: "sampled ss p c = Inr ss1" "rings_ok ss1 n (ps @ [p]) (cs @ [c])" "ss_canaryConfig ss1 = ss_canaryConfig ss"
    by blast
  from Cons.IH [OF ss1(2) Cons.prems(2)] ss1 show ?case by (auto simp: v)
qed auto

text \<open>The report of a service whose rings hold the last values of two sequences of samples.\<close>

lemma report_of_rings:
  assumes ok: "rings_ok ss n ps cs" and n: "0 < n" and k: "k = min n (length ps)"
    and len: "length cs = length ps" and ne: "ps \<noteq> []"
  shows "consuming_report ss = Inr \<lparr>TimeWindow = int64 (StatusCheckInterval (ss_canaryConfig ss) * int k),
     Percentage = (if last ps - ps ! (length ps - k) = 0 then -1
       else percentage (last cs - cs ! (length cs - k)) (last ps - ps ! (length ps - k)))\<rparr>"
proof -
  let ?p = "producedRecordsSamples ss" and ?c = "consumedRecordsSamples ss"
  from ok have p: "ring_ok ?p" "window ?p = lastn n ps"
    and cc: "ring_ok ?c" "window ?c = lastn n cs" by (simp_all add: rings_ok_def)
  have "cs \<noteq> []" using ne len by auto
  then have wne: "window ?p \<noteq> []" "window ?c \<noteq> []" using p cc ne n by simp_all
  have "\<not> IsEmpty ?p" using ring.is_empty_ok [OF p(1)] wne by simp
  moreover have "Head ?p = Inr (last ps)" "Tail ?p = Inr (ps ! (length ps - k))"
    using ring.head_ok [OF p(1) wne(1)] ring.tail_ok [OF p(1) wne(1)] p ne n
    by (simp_all add: hd_lastn k)
  moreover have "Head ?c = Inr (last cs)" "Tail ?c = Inr (cs ! (length cs - k))"
    using ring.head_ok [OF cc(1) wne(2)] ring.tail_ok [OF cc(1) wne(2)] cc n \<open>cs \<noteq> []\<close>
    by (simp_all add: hd_lastn k len)
  moreover have "Count ?c = int k" using ring.count_ok [OF cc(1)] cc k len by simp
  ultimately show ?thesis
    by (simp add: consuming_report_def consumedPercentage_def Let_def)
qed

text \<open>
  What the status page reports. Let a service made for a window of at least one whole interval have
  run any non-empty sequence of checks. The report never panics; its time window is the interval times
  the number of samples kept; and its percentage is that of the differences between the newest samples
  and the oldest ones kept, of the consumed and of the produced counter, or -1 when the produced counter
  did not change between them.
\<close>

theorem status_report:
  assumes new: "NewStatusService c = Inr ss" and "0 < length (rb_buffer (producedRecordsSamples ss))"
    and run: "checks ss vs = Inr ss'" "vs \<noteq> []"
    and k: "k = min (length (rb_buffer (producedRecordsSamples ss))) (length vs)"
    and dp: "dp = fst (last vs) - fst (vs ! (length vs - k))"
    and dc: "dc = snd (last vs) - snd (vs ! (length vs - k))"
  shows "consuming_report ss' = Inr \<lparr>TimeWindow = int64 (StatusCheckInterval c * int k),
     Percentage = (if dp = 0 then -1 else percentage dc dp)\<rparr>"
proof -
  let ?n = "length (rb_buffer (producedRecordsSamples ss))"
  from new obtain r where r: "NewTimeWindowRing (StatusTimeWindow c) (StatusCheckInterval c) = Inr r"
    and ss: "producedRecordsSamples ss = r" "consumedRecordsSamples ss = r" "ss_canaryConfig ss = c"
    by (auto simp: NewStatusService_def bindE_Inr_iff)
  with assms(2) have "rings_ok ss ?n [] []"
    using NewTimeWindowRing_ok [OF r] by (simp add: rings_ok_def capacity_def)
  from checks_ok [OF this assms(2), of vs] run ss have ok: "rings_ok ss' ?n (map fst vs) (map snd vs)"
    and c: "ss_canaryConfig ss' = c" by auto
  have kl: "length vs - k < length vs" using k run(2) assms(2) by (cases vs) auto
  from report_of_rings [OF ok assms(2), of k] run(2) k kl show ?thesis
    by (simp add: c last_map dp dc)
qed

text \<open>
  C40: the percentage is one. When no more was consumed than produced, and fewer than 90 thousand billion
  records were produced in the window, the percentage shown lies between 0 and 100; it is exactly 0 when
  nothing was consumed and exactly 100 when everything was.
\<close>

theorem percentage_bounds:
  assumes "0 < produced" "consumed \<le> produced" "uint produced * 100 < 2 ^ 53"
  shows "0 \<le> percentage consumed produced \<and> percentage consumed produced \<le> 100
    \<and> percentage 0 produced = 0 \<and> percentage produced produced = 100"
proof -
  let ?P = "uint produced" and ?C = "uint consumed"
  have C: "0 \<le> ?C" "?C \<le> ?P" using assms(2) by (simp_all add: word_le_def)
  have P: "0 < ?P" using assms(1) by (simp add: word_less_def)
  have prod: "uint (w * 100) = uint w * 100" if "w \<le> produced" for w :: u64
    using that assms(3) by (simp add: uint_word_ariths word_le_def)
  have times: "float64 (w * 100) = of_int (uint w * 100)" if "w \<le> produced" for w :: u64
    unfolding float64_def prod [OF that]
    by (rule fl_of_int) (use that assms(3) in \<open>simp_all add: word_le_def\<close>)
  have plain: "float64 produced = of_int ?P"
    unfolding float64_def by (rule fl_of_int) (use P assms(3) in simp_all)
  have hundred: "fl 100 = 100" and tenk: "fl 10000 = 10000"
    using fl_of_int [of 100] fl_of_int [of 10000] by simp_all
  have round: "math_Round 10000 = 10000" "math_Round 0 = 0"
    using math_Round_of_int [of 10000] math_Round_of_int [of 0] by simp_all
  have "of_int (?C * 100) / of_int ?P \<le> (100::rat)"
    using C P by (simp only: pos_divide_le_eq of_int_0_less_iff)
  from fl_mono [OF this] have "fl (of_int (?C * 100) / of_int ?P) \<le> 100" by (simp add: hundred)
  then have "fl (of_int (?C * 100) / of_int ?P) * 100 \<le> 10000" by simp
  from math_Round_mono [OF fl_mono [OF this]]
  have "math_Round (fl (fl (of_int (?C * 100) / of_int ?P) * 100)) / 100 \<le> 100" by (simp add: tenk round)
  from fl_mono [OF this] have "percentage consumed produced \<le> 100"
    using times [OF assms(2)] plain by (simp add: percentage_def hundred Let_def)
  moreover have "0 \<le> percentage consumed produced" by (simp add: percentage_def Let_def fl_nonneg)
  moreover have "percentage 0 produced = 0" by (simp add: percentage_def Let_def float64_def fl_def round)
  moreover have "of_int ?P \<noteq> (0::rat)" using P by (simp only: of_int_eq_0_iff)
  then have "percentage produced produced = 100"
    using times [of produced] plain P by (simp add: percentage_def Let_def hundred tenk round)
  ultimately show ?thesis by simp
qed

theorem status_report_witness:
  "(case NewStatusService (sample_config\<lparr>StatusTimeWindow := 90000, StatusCheckInterval := 30000\<rparr>) of
      Inr ss \<Rightarrow> (case checks ss [(1, 1), (4, 2), (7, 4), (9, 5)] of
          Inr ss' \<Rightarrow> consuming_report ss' =
            Inr \<lparr>TimeWindow = 90000, Percentage = percentage 3 5\<rparr>
        | Inl _ \<Rightarrow> False)
    | Inl _ \<Rightarrow> False)"
proof -
  let ?c = "sample_config\<lparr>StatusTimeWindow := 90000, StatusCheckInterval := 30000\<rparr>"
  have "\<exists>ss. NewStatusService ?c = Inr ss \<and> length (rb_buffer (producedRecordsSamples ss)) = 3
      \<and> ring_ok (producedRecordsSamples ss) \<and> window (producedRecordsSamples ss) = []
      \<and> consumedRecordsSamples ss = producedRecordsSamples ss"
    by (simp add: NewStatusService_def NewTimeWindowRing_def bindE_def maxBufferBuckets_def Let_def
        ring_ok_def window_def capacity_def)
  then obtain ss where ss: "NewStatusService ?c = Inr ss" "length (rb_buffer (producedRecordsSamples ss)) = 3"
    and "rings_ok ss 3 [] []" by (auto simp: rings_ok_def capacity_def)
  then have "\<exists>ss'. checks ss [(1, 1), (4, 2), (7, 4), (9, 5)] = Inr ss'"
    using checks_ok [of ss 3 "[]" "[]" "[(1, 1), (4, 2), (7, 4), (9, 5)]"] by auto
  then obtain ss' where ss': "checks ss [(1, 1), (4, 2), (7, 4), (9, 5)] = Inr ss'" by blast
  show ?thesis
    using status_report [OF ss(1) _ ss' _ refl refl refl] ss ss' by simp
qed

theorem percentage_bounds_witness:
  "percentage 1 3 \<le> 100 \<and> percentage 3 3 = 100"
  using percentage_bounds [of 3 1] by simp

text \<open>Nothing in the code keeps the consumed records below the produced ones: those of a window can be older than it.\<close>

lemma percentage_beyond_all: "percentage 3 2 = 150"
  by code_simp

end
