(* ===== verification/Canary_Manager.thy ===== *)
theory Canary_Manager
  imports Topic_Service Producer_Service Consumer_Service Connection_Service Status_Service
begin

text \<open>
  The canary manager, \<open>internal/workers/canary_manager.go\<close>: the worker that drives the five services.
  Its state holds theirs; a call on a service runs on that part of the state and on the common
  world. The periodic goroutines of the services run between the steps of the manager in the
  program; here they are routines of their own (\<open>connectionCheck\<close>, \<open>statusCheck\<close>, \<open>consume_loop\<close>,
  \<open>ConsumeClaim\<close>), and their start and end is that of \<open>Service_Loop\<close>.
\<close>

section \<open>Model\<close>

record canary_manager =
  cm_canaryConfig :: canary_config
  cm_topicService :: topic_service
  cm_producerService :: producer_service
  cm_consumerService :: consumer_service
  cm_connectionService :: connection_service
  cm_statusService :: status_service
  cm_loop :: loop_control

type_synonym ('e, 'a) manager_routine = "(canary_manager, 'e, 'a) routine"

definition expectedClusterSizeError :: string where
  "expectedClusterSizeError = ''strimzi_canary_expected_cluster_size_error_total''"

definition NewCanaryManager :: "canary_config \<Rightarrow> topic_service \<Rightarrow> producer_service \<Rightarrow> consumer_service
    \<Rightarrow> connection_service \<Rightarrow> status_service \<Rightarrow> canary_manager" where
  "NewCanaryManager canaryConfig topicService producerService consumerService connectionService statusService =
     \<lparr>cm_canaryConfig = canaryConfig, cm_topicService = topicService, cm_producerService = producerService,
      cm_consumerService = consumerService, cm_connectionService = connectionService,
      cm_statusService = statusService, cm_loop = (None, 0)\<rparr>"

definition manager_metrics :: "(string \<times> string list) list" where
  "manager_metrics = [(expectedClusterSizeError, [])]"

definition RegisterMetrics :: "'e externals \<Rightarrow> canary_manager \<Rightarrow> ('c, 'e, unit) routine" where
  "RegisterMetrics api cm =
     andthen (for_each (register api (PrometheusConstantLabels (cm_canaryConfig cm))) manager_metrics) (\<lambda>_.
       metric_init expectedClusterSizeError [])"

abbreviation on_topic :: "('e, 'a) topic_routine \<Rightarrow> ('e, 'a) manager_routine" where
  "on_topic \<equiv> on_field cm_topicService cm_topicService_update"

abbreviation on_producer :: "('e, 'a) producer_routine \<Rightarrow> ('e, 'a) manager_routine" where
  "on_producer \<equiv> on_field cm_producerService cm_producerService_update"

abbreviation on_consumer :: "('e, 'a) consumer_routine \<Rightarrow> ('e, 'a) manager_routine" where
  "on_consumer \<equiv> on_field cm_consumerService cm_consumerService_update"

abbreviation on_connection :: "('e, 'a) connection_routine \<Rightarrow> ('e, 'a) manager_routine" where
  "on_connection \<equiv> on_field cm_connectionService cm_connectionService_update"

abbreviation on_status :: "('e, 'a) status_routine \<Rightarrow> ('e, 'a) manager_routine" where
  "on_status \<equiv> on_field cm_statusService cm_statusService_update"

text \<open>The loop of \<open>Start\<close>: the first reconcile, retried while the cluster has not the expected size.\<close>

lemma case_option_go_mono [partial_function_mono]:
  assumes "\<And>x. r = Some x \<Longrightarrow> mono_option (\<lambda>f. F f x s)" "r = None \<Longrightarrow> mono_option (\<lambda>f. G f s)"
  shows "mono_option (\<lambda>f. (case r of None \<Rightarrow> G f | Some x \<Rightarrow> F f x) s)"
  using assms by (cases r) simp_all

partial_function (option) first_reconcile ::
  "'e externals \<Rightarrow> backoff \<Rightarrow> (canary_manager, 'e world) ctx
     \<Rightarrow> (unit, (canary_manager, 'e world) ctx) outcome option" where
  "first_reconcile api b s =
     andthen (on_topic (ts_Reconcile api)) (\<lambda>r. case snd r of
         None \<Rightarrow>
           andthen (on_consumer (Consume api)) (\<lambda>_. on_producer (Send api (Assignments (fst r))))
       | Some err \<Rightarrow>
           if err = ErrExpectedClusterSize then
             (case fst (Delay b) of
                Inl backoffErr \<Rightarrow> crash (Fatal ''Max attempts waiting for the expected cluster size'')
              | Inr delay \<Rightarrow>
                  andthen (metric_inc expectedClusterSizeError []) (\<lambda>_.
                  andthen (extern (Sleep delay) (x_sleep api delay)) (\<lambda>_.
                    first_reconcile api (snd (Delay b)))))
           else crash (Fatal ''Error starting canary manager'')) s"

definition cm_Start :: "'e externals \<Rightarrow> ('e, unit) manager_routine" where
  "cm_Start api =
     andthen (set_self (cm_loop_update start_loop)) (\<lambda>_.
     andthen (on_connection (cn_Open api)) (\<lambda>_.
     andthen (on_status ss_Open) (\<lambda>_.
     andthen (get_self cm_canaryConfig) (\<lambda>c.
     andthen (first_reconcile api (NewBackoff (BootstrapBackoffMaxAttempts c)
                (int64 (BootstrapBackoffScale c * Millisecond)) MaxDefault)) (\<lambda>_.
     andthen (checked (NewTicker (ReconcileInterval c))) (\<lambda>_. ret ()))))))"

definition cm_Stop :: "'e externals \<Rightarrow> ('e, unit) manager_routine" where
  "cm_Stop api =
     andthen (get_self cm_loop) (\<lambda>l.
     andthen (checked (stop_loop l)) (\<lambda>l'.
     andthen (set_self (cm_loop_update (\<lambda>_. l'))) (\<lambda>_.
     andthen (on_producer (ps_Close api)) (\<lambda>_.
     andthen (on_consumer (cs_Close api)) (\<lambda>_.
     andthen (on_topic (ts_Close api)) (\<lambda>_.
     andthen (on_connection (cn_Close api)) (\<lambda>_.
       on_status ss_Close)))))))"

text \<open>\<open>reflect.DeepEqual\<close> on two non-nil maps: the same keys with the same values.\<close>

definition same_map :: "(int \<times> int) list \<Rightarrow> (int \<times> int) list \<Rightarrow> bool" where
  "same_map m n \<longleftrightarrow> (\<forall>k \<in> set (map fst m) \<union> set (map fst n). map_of m k = map_of n k)"

definition leaders_changed :: "reconcile_result \<Rightarrow> goerror + (int \<times> int) list \<Rightarrow> bool" where
  "leaders_changed result r = (case r of Inl err \<Rightarrow> True | Inr leaders \<Rightarrow> \<not> same_map (Leaders result) leaders)"

definition cm_reconcile :: "'e externals \<Rightarrow> ('e, unit) manager_routine" where
  "cm_reconcile api = andthen (on_topic (ts_Reconcile api)) (\<lambda>(result, err). case err of
       Some e \<Rightarrow> ret ()
     | None \<Rightarrow>
         andthen (whenever (RefreshProducerMetadata result) (on_producer (ps_Refresh api))) (\<lambda>_.
         andthen (on_consumer (cs_Leaders api)) (\<lambda>leaders.
         andthen (whenever (leaders_changed result leaders) (on_consumer (cs_Refresh api))) (\<lambda>_.
           on_producer (Send api (Assignments result))))))"

lemma same_map_eq: "same_map m n \<longleftrightarrow> map_of m = map_of n"
proof
  assume *: "same_map m n"
  show "map_of m = map_of n"
  proof
    fix k show "map_of m k = map_of n k"
    proof (cases "k \<in> set (map fst m) \<union> set (map fst n)")
      case False
      then have "map_of m k = None" "map_of n k = None" by (auto simp: map_of_eq_None_iff)
      then show ?thesis by simp
    qed (use * in \<open>simp add: same_map_def\<close>)
  qed
qed (simp add: same_map_def)

section \<open>Requests of the services\<close>

text \<open>Requests that produce or consume records, and those that join a group.\<close>

fun traffic :: "call \<Rightarrow> bool" where
  "traffic (SendMessage h m) = True"
| "traffic (MarkMessage m) = True"
| "traffic (GroupConsume h t) = True"
| "traffic (WaitReady d) = True"
| "traffic _ = False"

abbreviation silent :: "('c, 'e world) ctx \<Rightarrow> ('c, 'e world) ctx \<Rightarrow> bool" where
  "silent \<equiv> adds (\<lambda>c. \<not> traffic c)"

lemma silent_intros:
  "\<not> traffic c \<Longrightarrow> silent s (s\<lparr>world := (world s)\<lparr>env := e, calls := calls (world s) @ [c]\<rparr>\<rparr>)"
  "silent s (s\<lparr>world := (world s)\<lparr>env := e\<rparr>\<rparr>)"
  "silent s (s\<lparr>world := count_up k m (world s)\<rparr>)"
  "silent s (s\<lparr>world := (world s)\<lparr>histogram := h\<rparr>\<rparr>)"
  "silent s (s\<lparr>self := f (self s)\<rparr>)"
  by (auto simp: adds_def)

lemmas silent_rules = adds.safe_steps safe_world silent_intros adds_refl

lemma reconcile_silent: "safe True (\<lambda>_. True) (only (\<lambda>c. \<not> traffic c)) (ts_Reconcile api) s"
  unfolding ts_Reconcile_def reconcileTopic_def reconcile_missing_def reconcile_existing_def
    reassign_existing_def Let_def
  by (intro only_rules only_parts only_describe only_alter) simp_all

abbreviation closing_failed :: crash where
  "closing_failed \<equiv> Fatal ''Error closing the Sarama cluster admin''"

text \<open>What \<open>Start\<close> needs of a reconcile: it may not return (\<open>d\<close>), or crash as \<open>C\<close> says.\<close>

definition reconciles :: "bool \<Rightarrow> (crash \<Rightarrow> bool) \<Rightarrow> 'e externals \<Rightarrow> bool" where
  "reconciles d C api = (\<forall>s. safe d C (only (\<lambda>c. \<not> traffic c)) (ts_Reconcile api) s)"

lemma reconciles_partly: "reconciles True (\<lambda>_. True) api"
  by (simp add: reconciles_def reconcile_silent)

lemma reconciles_totally:
  "moves_settle api \<Longrightarrow> answers_topics api \<Longrightarrow>
     reconciles False (\<lambda>c. c = closing_failed) api"
  unfolding reconciles_def
proof
  fix s :: "(topic_service, 'a world) ctx"
  assume "moves_settle api" "answers_topics api"
  from reconcile_safe [OF this, of s] reconcile_silent [of api s]
  show "safe False (\<lambda>c. c = closing_failed) (only (\<lambda>c. \<not> traffic c)) (ts_Reconcile api) s"
    by (auto simp: safe_def gowp_def split: option.splits outcome.splits)
qed

text \<open>The connection check keeps its configuration, and crashes only when it cannot close the client.\<close>

definition probing :: "(connection_service, 'e world) ctx \<Rightarrow> (connection_service, 'e world) ctx \<Rightarrow> bool" where
  "probing s s' \<longleftrightarrow> silent s s' \<and> cn_canaryConfig (self s') = cn_canaryConfig (self s)"

interpretation probing: step_preorder probing
  by unfold_locales (auto simp: probing_def intro: adds_trans)

lemma probing_intros:
  "\<not> traffic c \<Longrightarrow> probing s (s\<lparr>world := (world s)\<lparr>env := e, calls := calls (world s) @ [c]\<rparr>\<rparr>)"
  "probing s (s\<lparr>world := (world s)\<lparr>env := e\<rparr>\<rparr>)"
  "probing s (s\<lparr>world := count_up k m (world s)\<rparr>)"
  "probing s (s\<lparr>world := (world s)\<lparr>histogram := h\<rparr>\<rparr>)"
  "probing s (s\<lparr>self := cn_admin_update x (self s)\<rparr>)"
  "probing s (s\<lparr>self := cn_brokers_update y (self s)\<rparr>)"
  "probing s (s\<lparr>self := cn_loop_update z (self s)\<rparr>)"
  by (auto simp: probing_def adds_def)

lemmas probing_rules = probing.safe_steps safe_world probing_intros probing.refl

lemma cn_open_admin_returned:
  "cn_open_admin api s = Some (Returned True s') \<Longrightarrow> \<exists>h. cn_admin (self s') = Some h"
  by (auto simp: cn_open_admin_def returned_iffs returned_case_iffs get_self_returned set_self_returned)

lemma cn_close_admin_safe:
  "cn_admin (self s) = Some h \<Longrightarrow> C closing_failed \<Longrightarrow> safe d C probing (cn_close_admin api) s"
  unfolding cn_close_admin_def by (intro probing_rules) (simp_all add: get_self_returned)

lemma refresh_brokers_safe:
  assumes "cn_admin (self s) = Some h" "C closing_failed"
  shows "safe d C probing (refresh_brokers api) s"
  unfolding refresh_brokers_def using assms
  by (intro probing_rules cn_close_admin_safe [of _ h])
    (auto simp: get_self_returned set_self_returned dest!: extern_returned)

lemma check_broker_safe: "safe d C probing (check_broker api b) s"
  unfolding check_broker_def Let_def by (intro probing_rules) simp_all

lemma connectionCheck_safe:
  assumes "C closing_failed"
  shows "safe d C probing (connectionCheck api) s"
proof -
  have refresh: "safe d C probing (refresh_brokers api) s'"
    if "cn_open_admin api s = Some (Returned a s')" "\<not> \<not> a" for a s'
    using that assms cn_open_admin_returned [of api s s'] refresh_brokers_safe by auto
  have opens: "safe d C probing (cn_open_admin api) s"
    unfolding cn_open_admin_def by (intro probing_rules) simp_all
  show ?thesis
    unfolding connectionCheck_def
    by (rule probing.safe_andthen [OF opens], rule safe_cases, rule probing.safe_ret,
        rule probing.safe_andthen [OF refresh]; (assumption)?)
      (intro probing_rules probing.safe_for_each check_broker_safe)
qed

lemma cn_Open_safe:
  assumes "C closing_failed"
    and "\<And>p. NewTicker (ConnectionCheckInterval (cn_canaryConfig (self s))) = Inl p \<Longrightarrow> C (Panic p)"
  shows "safe d C probing (cn_Open api) s"
  unfolding cn_Open_def using assms
  by (intro probing_rules connectionCheck_safe) (auto simp: probing_def get_self_returned set_self_returned)

lemma ss_Open_safe:
  assumes "\<And>p. NewTicker (StatusCheckInterval (ss_canaryConfig (self s))) = Inl p \<Longrightarrow> C (Panic p)"
  shows "safe d C silent ss_Open s"
  unfolding ss_Open_def using assms
  by (intro silent_rules) (auto simp: get_self_returned set_self_returned)

section \<open>The start\<close>

text \<open>
  The way from \<open>s\<close> to the state in which the first reconcile succeeds: the requests made, and the
  parts of the state that are as they were.
\<close>

definition waiting :: "(canary_manager, 'e world) ctx \<Rightarrow> (canary_manager, 'e world) ctx \<Rightarrow> bool" where
  "waiting s t \<longleftrightarrow> silent s t \<and> cm_producerService (self t) = cm_producerService (self s)
     \<and> cm_consumerService (self t) = cm_consumerService (self s)
     \<and> ts_canaryConfig (cm_topicService (self t)) = ts_canaryConfig (cm_topicService (self s))
     \<and> cm_canaryConfig (self t) = cm_canaryConfig (self s)"

interpretation waiting: step_preorder waiting
  by unfold_locales (auto simp: waiting_def intro: adds_trans)

text \<open>
  \<open>requests\<close> are those of a reconcile of the topic that starts after the requests \<open>before\<close> and succeeds
  with \<open>result\<close>.
\<close>

definition reconciled_by :: "'e externals \<Rightarrow> canary_config \<Rightarrow> call list \<Rightarrow> call list \<Rightarrow> reconcile_result \<Rightarrow> bool" where
  "reconciled_by api c before requests result \<longleftrightarrow> (\<exists>t t'. ts_canaryConfig (self t) = c \<and> calls (world t) = before
     \<and> ts_Reconcile api t = Some (Returned (result, None) t') \<and> calls (world t') = before @ requests)"

lemma reconciled_by_requests:
  assumes "reconciled_by api c before requests result"
  shows "\<exists>as h bs. requests = as @ [DescribeCluster h, DescribeTopics h [Topic c]] @ bs"
    and "\<forall>x\<in>set requests. \<not> traffic x"
proof -
  from assms obtain t t' where t: "ts_canaryConfig (self t) = c" "calls (world t) = before"
    "ts_Reconcile api t = Some (Returned (result, None) t')" "calls (world t') = before @ requests"
    by (auto simp: reconciled_by_def)
  from reconcile_describes [OF t(3)] t show "\<exists>as h bs. requests = as @ [DescribeCluster h, DescribeTopics h [Topic c]] @ bs" by simp
  from safe_returnedD [OF reconcile_silent t(3)] t show "\<forall>x\<in>set requests. \<not> traffic x" by (auto simp: only_def adds_def)
qed

definition started :: "'e externals \<Rightarrow> (canary_manager, 'e world) ctx \<Rightarrow> (canary_manager, 'e world) ctx \<Rightarrow> bool" where
  "started api s s' \<longleftrightarrow> (\<exists>pre requests result k sent.
     calls (world s') = calls (world s) @ pre @ requests @ timed_out_attempts k @ [WaitReady waitConsumeTimeout] @ sent
   \<and> (\<forall>x\<in>set pre. \<not> traffic x) \<and> k \<le> 3
   \<and> reconciled_by api (ts_canaryConfig (cm_topicService (self s))) (calls (world s) @ pre) requests result
   \<and> round_of (cm_producerService (self s)) (length (Assignments result)) sent
   \<and> cs_cancel (cm_consumerService (self s')) = Some k
   \<and> cm_canaryConfig (self s') = cm_canaryConfig (self s))"

definition start_failures :: "string set" where
  "start_failures = {''Max attempts waiting for the expected cluster size'', ''Error starting canary manager'',
     ''Error joining the consumer group'', ''Error closing the Sarama cluster admin''}"

text \<open>How a start that fails ends: for one of the reasons known, and with no message sent.\<close>

abbreviation unsent :: "('c, 'e world) ctx \<Rightarrow> ('c, 'e world) ctx \<Rightarrow> bool" where
  "unsent \<equiv> adds (\<lambda>c. \<forall>h m. c \<noteq> SendMessage h m)"

definition start_failed :: "(crash \<Rightarrow> bool) \<Rightarrow> (canary_manager, 'e world) ctx \<Rightarrow> crash
    \<Rightarrow> (canary_manager, 'e world) ctx \<Rightarrow> bool" where
  "start_failed C s c s' \<longleftrightarrow> (C c \<or> (\<exists>m\<in>start_failures. c = Fatal m)) \<and> unsent s s'"

lemma silent_unsent: "silent s s' \<Longrightarrow> unsent s s'"
  by (erule adds_mono) auto

lemma timed_out_unsent: "SendMessage h m \<notin> set (timed_out_attempts k)"
  by (auto simp: timed_out_attempts_def timed_out_def)

lemma gowp_first_reconcile:
  "gowp d (first_reconcile api b) Q E s = gowp d (
     andthen (on_topic (ts_Reconcile api)) (\<lambda>r. case snd r of
         None \<Rightarrow>
           andthen (on_consumer (Consume api)) (\<lambda>_. on_producer (Send api (Assignments (fst r))))
       | Some err \<Rightarrow>
           if err = ErrExpectedClusterSize then
             (case fst (Delay b) of
                Inl backoffErr \<Rightarrow> crash (Fatal ''Max attempts waiting for the expected cluster size'')
              | Inr delay \<Rightarrow>
                  andthen (metric_inc expectedClusterSizeError []) (\<lambda>_.
                  andthen (extern (Sleep delay) (x_sleep api delay)) (\<lambda>_.
                    first_reconcile api (snd (Delay b)))))
           else crash (Fatal ''Error starting canary manager''))) Q E s"
  unfolding gowp_def by (subst first_reconcile.simps) (rule refl)

lemma gowp_Send:
  assumes "\<And>s' cs x. self s' = (self s)\<lparr>ps_index := x\<rparr> \<Longrightarrow> calls (world s') = calls (world s) @ cs \<Longrightarrow>
     round_of (self s) (length asg) cs \<Longrightarrow> Q () s'"
  shows "gowp d (Send api asg) Q E s"
  using Send_round [of api asg s] assms by (auto simp: gowp_def)

lemma join_and_send:
  assumes w: "waiting s0 s" and before: "\<forall>x\<in>set pre. \<not> traffic x"
    and rec: "reconciled_by api (ts_canaryConfig (cm_topicService (self s0))) (calls (world s0) @ pre) requests result"
    and after: "calls (world s) = calls (world s0) @ pre @ requests"
  shows "gowp False (andthen (on_consumer (Consume api)) (\<lambda>_. on_producer (Send api (Assignments result))))
     (\<lambda>_. started api s0) (start_failed C s0) s"
  unfolding gowp_andthen gowp_on_field
proof (rule gowp_mono [OF gowp_Consume], goal_cases)
  case (1 u i)
  then obtain k where k: "k \<le> 3" "joined_after k \<lparr>self = cm_consumerService (self s), world = world s\<rparr> i" by blast
  show ?case
  proof (rule gowp_Send, goal_cases)
    case (1 j cs x)
    have "round_of (cm_producerService (self s0)) (length (Assignments result)) cs"
      using 1(3) w by (simp add: waiting_def)
    then show ?case
      unfolding started_def using 1(2) k w rec before after
      by (intro exI [of _ pre] exI [of _ requests] exI [of _ result] exI [of _ k] exI [of _ cs])
        (simp add: joined_after_def waiting_def)
  qed
next
  case (2 c i)
  from w have "unsent s0 s" by (simp add: waiting_def silent_unsent)
  moreover have "unsent s \<lparr>self = (self s)\<lparr>cm_consumerService := self i\<rparr>, world = world i\<rparr>"
    using 2 timed_out_unsent by (auto simp: gave_up_def adds_def)
  ultimately have "unsent s0 \<lparr>self = (self s)\<lparr>cm_consumerService := self i\<rparr>, world = world i\<rparr>"
    by (rule adds_trans)
  with 2 show ?case by (simp add: gave_up_def start_failures_def start_failed_def)
qed

lemma waiting_intros:
  "only (\<lambda>c. \<not> traffic c) \<lparr>self = cm_topicService (self s), world = world s\<rparr> i \<Longrightarrow>
     waiting s \<lparr>self = (self s)\<lparr>cm_topicService := self i\<rparr>, world = world i\<rparr>"
  "\<not> traffic c \<Longrightarrow> waiting s (s\<lparr>world := (world s)\<lparr>env := e, calls := calls (world s) @ [c]\<rparr>\<rparr>)"
  "waiting s (s\<lparr>world := count_up k m (world s)\<rparr>)"
  by (auto simp: waiting_def only_def adds_def)

lemma first_reconcile_spec:
  assumes ok: "backoff_ok b" and rec: "reconciles d C api" and "waiting s0 s"
  shows "gowp d (first_reconcile api b) (\<lambda>_. started api s0) (start_failed C s0) s"
  using assms(1,3)
proof (induction b arbitrary: s rule: bo.retry_induct)
  case (retry b)
  let ?E = "start_failed C s0"
  let ?t = "\<lparr>self = cm_topicService (self s), world = world s\<rparr>"
  have safe: "safe d C (only (\<lambda>c. \<not> traffic c)) (ts_Reconcile api) ?t"
    using rec by (simp add: reconciles_def)
  show ?case
  proof (subst gowp_first_reconcile, simp only: gowp_andthen gowp_on_field, rule gowp_safeI [OF safe], goal_cases)
    case (1 r i)
    obtain result err where r: "r = (result, err)" by (cases r)
    let ?s = "\<lparr>self = (self s)\<lparr>cm_topicService := self i\<rparr>, world = world i\<rparr>"
    have w: "waiting s0 ?s"
      using waiting.trans [OF retry.prems waiting_intros(1) [OF 1(2)]] .
    show ?case
    proof (cases err)
      case None
      from retry.prems obtain pre where pre: "calls (world s) = calls (world s0) @ pre" "\<forall>x\<in>set pre. \<not> traffic x"
        by (auto simp: waiting_def adds_def)
      from 1(2) obtain requests where requests: "calls (world i) = calls (world s) @ requests" by (auto simp: only_def adds_def)
      have "ts_canaryConfig (self ?t) = ts_canaryConfig (cm_topicService (self s0))"
        using retry.prems by (simp add: waiting_def)
      with 1(1) r None pre(1) requests
      have "reconciled_by api (ts_canaryConfig (cm_topicService (self s0))) (calls (world s0) @ pre) requests result"
        unfolding reconciled_by_def by (intro exI [of _ ?t] exI [of _ i]) simp
      from gowp_weaken [OF join_and_send [OF w pre(2) this], of d] r None pre(1) requests show ?thesis by simp
    next
      case (Some e)
      have again: "gowp d (first_reconcile api b') (\<lambda>_. started api s0) ?E u"
        if "Delay b = (Inr x, b')" "waiting ?s u" for x b' u
        using retry.IH [OF that(1) _ waiting.trans [OF w that(2)]] bo.granted [OF retry.hyps that(1)] by simp
      have sleeps: "waiting ?s (?s\<lparr>world := (count_up 1 (expectedClusterSizeError, []) (world ?s))
          \<lparr>env := env', calls := calls (world ?s) @ [Sleep x]\<rparr>\<rparr>)" for x env'
        by (auto simp: waiting_def adds_def)
      have stop: "?E (Fatal m) ?s" if "m \<in> start_failures" for m
        using that w by (auto simp: start_failed_def waiting_def silent_unsent)
      show ?thesis
        using r Some again [OF _ sleeps] stop
        by (cases "Delay b") (auto simp: go_simps start_failures_def split: sum.splits prod.splits)
    qed
  next
    case (2 c i)
    have "waiting s0 \<lparr>self = (self s)\<lparr>cm_topicService := self i\<rparr>, world = world i\<rparr>"
      using waiting.trans [OF retry.prems waiting_intros(1) [OF 2(2)]] .
    with 2(1) show ?case by (simp add: start_failed_def waiting_def silent_unsent)
  qed
qed

text \<open>The whole of \<open>Start\<close>, from what is known of a reconcile and of the tickers.\<close>

lemma start_spec:
  assumes rec: "reconciles d C api" and closing: "C closing_failed"
    and "\<And>p. NewTicker (ConnectionCheckInterval (cn_canaryConfig (cm_connectionService (self s)))) = Inl p \<Longrightarrow> C (Panic p)"
    and "\<And>p. NewTicker (StatusCheckInterval (ss_canaryConfig (cm_statusService (self s)))) = Inl p \<Longrightarrow> C (Panic p)"
  shows "gowp d (cm_Start api) (\<lambda>_. started api s)
     (\<lambda>c s'. start_failed C s c s' \<or> (\<exists>p. NewTicker (ReconcileInterval (cm_canaryConfig (self s))) = Inl p)) s"
proof -
  let ?E = "\<lambda>c s'. start_failed C s c s' \<or> (\<exists>p. NewTicker (ReconcileInterval (cm_canaryConfig (self s))) = Inl p)"
  let ?s0 = "s\<lparr>self := cm_loop_update start_loop (self s)\<rparr>"
  let ?b = "NewBackoff (BootstrapBackoffMaxAttempts (cm_canaryConfig (self s)))
    (int64 (BootstrapBackoffScale (cm_canaryConfig (self s)) * Millisecond)) MaxDefault"
  have ok: "backoff_ok ?b" using int64_range by (intro NewBackoff_ok) simp
  have main: "gowp d (first_reconcile api ?b)
      (\<lambda>_. gowp d (andthen (checked (NewTicker (ReconcileInterval (cm_canaryConfig (self s))))) (\<lambda>_. ret ()))
         (\<lambda>_. started api s) ?E) ?E t" if "waiting s t" for t
  proof (rule gowp_mono [OF first_reconcile_spec [OF ok rec that]], goal_cases)
    case (1 u t')
    then show ?case by (auto simp: go_simps split: sum.splits)
  qed simp
  show ?thesis
    unfolding cm_Start_def gowp_andthen [of _ "set_self _"] gowp_andthen [of _ "on_connection _"]
      gowp_andthen [of _ "on_status _"] gowp_andthen [of _ "get_self _"] gowp_set_self gowp_on_field gowp_get_self
  proof (rule gowp_safeI [OF cn_Open_safe [where C = C]], goal_cases)
    case (3 u i)
    show ?case
    proof (rule gowp_safeI [OF ss_Open_safe [where C = C]], goal_cases)
      case (2 v j)
      have "waiting s \<lparr>self = cm_statusService_update (\<lambda>_. self j)
            (cm_connectionService_update (\<lambda>_. self i) (self ?s0)), world = world j\<rparr>"
        using 3(2) 2(2) adds_trans [of _ s] by (auto simp: waiting_def probing_def adds_def)
      from main [OF this] show ?case by (simp add: gowp_andthen)
    next
      case (3 c j)
      then have "unsent s \<lparr>self = (self ?s0), world = world j\<rparr>"
        using adds_trans [OF silent_unsent] \<open>probing _ i\<close> silent_unsent
        by (fastforce simp: adds_def probing_def)
      with 3(1) show ?case by (simp add: start_failed_def adds_def)
    qed (use assms(4) in auto)
  next
    case (4 c i)
    then have "unsent s \<lparr>self = self ?s0, world = world i\<rparr>"
      using silent_unsent [of "\<lparr>self = cm_connectionService (self ?s0), world = world ?s0\<rparr>" i]
      by (simp add: adds_def probing_def)
    with 4(1) show ?case by (simp add: start_failed_def adds_def)
  qed (use assms(2,3) in auto)
qed

lemma start_total:
  assumes "moves_settle api" and "answers_topics api"
    and "\<forall>i\<in>{ConnectionCheckInterval (cn_canaryConfig (cm_connectionService (self s))),
           StatusCheckInterval (ss_canaryConfig (cm_statusService (self s))),
           ReconcileInterval (cm_canaryConfig (self s))}. 0 < i \<and> i < 2 ^ 43"
  shows "gowp False (cm_Start api) (\<lambda>_. started api s)
     (\<lambda>c s'. (\<exists>m\<in>start_failures. c = Fatal m) \<and> unsent s s') s"
proof (rule gowp_mono [OF start_spec [where C = "\<lambda>c. c = closing_failed", OF reconciles_totally]], goal_cases)
  case (7 c s')
  moreover have "\<exists>m\<in>start_failures. closing_failed = Fatal m" by (simp add: start_failures_def)
  ultimately show ?case using assms(3) by (auto simp: start_failed_def NewTicker_ok)
qed (use assms in \<open>auto simp: NewTicker_ok\<close>)

section \<open>Properties\<close>

lemma dynamic_partitions:
  assumes "ts_Reconcile api t = Some (Returned (result, None) t')" "isDynamicReassignmentEnabled (self t)"
  shows "\<exists>bs h e e'. x_DescribeCluster api h e = ((bs, None), e') \<and> length bs \<le> length (Assignments result)"
proof -
  from reconcile_result [OF assms(2,1)] obtain bs k m h e e' where
    "x_DescribeCluster api h e = ((bs, None), e')" "good_result api bs k m result" by blast
  moreover from this have "length bs \<le> length (Assignments result)" by (simp add: good_result_def)
  ultimately show ?thesis by blast
qed

text \<open>
  C9: the start-up order. When \<open>Start\<close> returns, the requests it made are, in this order: those of
  the connection check and of the reconciles that failed, none of which produces, consumes or joins a group; those
  of a reconcile of the topic that succeeded, among them the description of the cluster and then that of the topic; at most
  three attempts to join the group that timed out, and one that succeeded; and then one message for
  each partition that the reconcile has assigned, from 0 on. So nothing is sent before the topic is known to exist and the consumer
  has joined. With dynamic reassignment the partitions sent to are at least as many as the brokers that
  the cluster reported.
\<close>

theorem start_sequence:
  assumes "cm_Start api s = Some (Returned () s')"
  shows "\<exists>c pre requests result as h bs k sent. c = ts_canaryConfig (cm_topicService (self s))
     \<and> calls (world s') = calls (world s) @ pre @ requests @ timed_out_attempts k @ [WaitReady waitConsumeTimeout] @ sent
     \<and> (\<forall>x\<in>set (pre @ requests). \<not> traffic x) \<and> k \<le> 3 \<and> cs_cancel (cm_consumerService (self s')) = Some k
     \<and> reconciled_by api c (calls (world s) @ pre) requests result
     \<and> requests = as @ [DescribeCluster h, DescribeTopics h [Topic c]] @ bs
     \<and> round_of (cm_producerService (self s)) (length (Assignments result)) sent
     \<and> (isDynamicReassignmentEnabled (cm_topicService (self s)) \<longrightarrow>
          (\<exists>brokers h e e'. x_DescribeCluster api h e = ((brokers, None), e') \<and> length brokers \<le> length (Assignments result)))"
proof -
  let ?c = "ts_canaryConfig (cm_topicService (self s))"
  from gowp_ReturnedD [OF start_spec [OF reconciles_partly] assms] obtain pre requests result k sent where
    start: "calls (world s') = calls (world s) @ pre @ requests @ timed_out_attempts k @ [WaitReady waitConsumeTimeout] @ sent"
    "\<forall>x\<in>set pre. \<not> traffic x" "k \<le> 3" "cs_cancel (cm_consumerService (self s')) = Some k"
    "round_of (cm_producerService (self s)) (length (Assignments result)) sent"
    and rec: "reconciled_by api ?c (calls (world s) @ pre) requests result"
    by (auto simp: started_def)
  from reconciled_by_requests(1) [OF rec] obtain as h bs where
    "requests = as @ [DescribeCluster h, DescribeTopics h [Topic ?c]] @ bs" by blast
  moreover from rec obtain t t' where "ts_Reconcile api t = Some (Returned (result, None) t')" "ts_canaryConfig (self t) = ?c"
    unfolding reconciled_by_def by blast
  from dynamic_partitions [OF this(1)] this(2) have "isDynamicReassignmentEnabled (cm_topicService (self s)) \<longrightarrow>
      (\<exists>bs h e e'. x_DescribeCluster api h e = ((bs, None), e') \<and> length bs \<le> length (Assignments result))"
    by (simp add: isDynamicReassignmentEnabled_def)
  moreover have "\<forall>x\<in>set (pre @ requests). \<not> traffic x"
    using start(2) reconciled_by_requests(2) [OF rec] by auto
  ultimately show ?thesis using start rec by blast
qed

text \<open>
  The start ends. If the waits for reassignments settle, the cluster answers describe requests with
  metadata for the topic, and the three intervals are positive, \<open>Start\<close> ends, whatever fails: it returns,
  or it terminates the process for one of four reasons, and then no message has been sent. It never
  panics, and the retries while the cluster has not the expected size run out.
\<close>

theorem start_ends:
  assumes "moves_settle api" and "answers_topics api"
    and "\<forall>i\<in>{ConnectionCheckInterval (cn_canaryConfig (cm_connectionService (self s))),
           StatusCheckInterval (ss_canaryConfig (cm_statusService (self s))),
           ReconcileInterval (cm_canaryConfig (self s))}. 0 < i \<and> i < 2 ^ 43"
  shows "(\<exists>s'. cm_Start api s = Some (Returned () s'))
     \<or> (\<exists>m\<in>start_failures. \<exists>s'. cm_Start api s = Some (Crashed (Fatal m) s') \<and> unsent s s')"
proof -
  from gowp_outcome [OF start_total [OF assms]] show ?thesis by auto
qed

definition sample_cm :: "canary_config \<Rightarrow> canary_manager" where
  "sample_cm c = NewCanaryManager c (new_topic_service c sample_sarama)
     \<lparr>ps_canaryConfig = c, ps_client = 9, ps_producer = 11, ps_index = 0\<rparr>
     \<lparr>cs_canaryConfig = c, cs_client = 9, cs_consumerGroup = 13, cs_cancel = None, cs_ready = Open\<rparr>
     (new_connection_service c sample_sarama)
     (case NewStatusService c of Inr ss \<Rightarrow> ss | Inl _ \<Rightarrow> undefined)"

lemma sample_cm_fields:
  "0 < StatusCheckInterval c \<Longrightarrow> 0 \<le> StatusTimeWindow c \<Longrightarrow> StatusTimeWindow c < 2 ^ 63 \<Longrightarrow>
     ss_canaryConfig (cm_statusService (sample_cm c)) = c"
  "cm_canaryConfig (sample_cm c) = c" "cn_canaryConfig (new_connection_service c sample_sarama) = c"
  "cm_topicService (sample_cm c) = new_topic_service c sample_sarama"
  "cm_connectionService (sample_cm c) = new_connection_service c sample_sarama"
  "ps_producer (cm_producerService (sample_cm c)) = 11" "ps_canaryConfig (cm_producerService (sample_cm c)) = c"
  by (simp_all add: sample_cm_def NewCanaryManager_def NewStatusService_def NewTimeWindowRing_pos new_connection_service_def)

theorem start_ends_witness:
  "\<exists>r. cm_Start sim_api \<lparr>self = sample_cm sample_config, world = start_world three_brokers\<rparr> = Some r"
proof -
  let ?s = "\<lparr>self = sample_cm sample_config, world = start_world three_brokers\<rparr>"
  have "ss_canaryConfig (cm_statusService (sample_cm sample_config)) = sample_config"
    by (rule sample_cm_fields) (simp_all add: sample_config_def)
  then have "\<forall>i\<in>{ConnectionCheckInterval (cn_canaryConfig (cm_connectionService (self ?s))),
           StatusCheckInterval (ss_canaryConfig (cm_statusService (self ?s))),
           ReconcileInterval (cm_canaryConfig (self ?s))}. 0 < i \<and> i < 2 ^ 43"
    by (simp add: sample_cm_fields sample_config_def)
  from start_ends [OF sim_settles sim_answers this] show ?thesis by blast
qed

lemma reconcile_refuses:
  assumes static: "ExpectedClusterSize (ts_canaryConfig (self t)) \<noteq> ExpectedClusterSizeDefault"
    and size: "\<forall>h e. int (length (fst (fst (x_DescribeCluster api h e)))) \<noteq> ExpectedClusterSize (ts_canaryConfig (self t))"
    and unknown: "\<forall>h ts e ms e'. x_DescribeTopics api h ts e = (Inr ms, e') \<longrightarrow> ms \<noteq> [] \<longrightarrow> tm_Err (ms ! 0) = ErrUnknownTopicOrPartition"
    and run: "ts_Reconcile api t = Some (Returned (result, err) t')"
  shows "err \<noteq> None"
proof
  assume "err = None"
  with run reconcile_path [of api t result t'] obtain s1 s2 s3 s4 bs m where
    opened: "ensure_admin api t = Some (Returned None s1)" and
    descr: "with_admin (\<lambda>h. extern (DescribeCluster h) (x_DescribeCluster api h)) s1 = Some (Returned (bs, None) s2)" and
    topics: "describeCanaryTopic api s2 = Some (Returned (Inr m) s3)" and
    w: "whenever (\<not> ts_initialized (self s3)) (init_topic_metrics m) s3 = Some (Returned () s4)" and
    rest: "tm_Err m = ErrUnknownTopicOrPartition \<and> reconcile_missing api bs m s4 = Some (Returned (result, None) t')
       \<or> tm_Err m = ErrNoError \<and> reconcile_existing api bs m s4 = Some (Returned (result, None) t')"
    by blast
  have c: "ts_canaryConfig (self s4) = ts_canaryConfig (self t)"
    using ensure_admin_facts [OF opened] descr quiet_returned(2) [OF descr] describe_counts [OF topics refl] quiet_whenever [OF w]
    by (auto simp: quiet_def)
  have "int (length bs) \<noteq> ExpectedClusterSize (ts_canaryConfig (self t))"
    using descr size by (auto dest!: with_admin_returned extern_returned) (metis fst_conv)+
  with c static have "reconcile_missing api bs m s4 = ret (no_result, Some ErrExpectedClusterSize) s4"
    by (intro reconcile_missing_static) (simp_all add: isDynamicReassignmentEnabled_def)
  moreover have "tm_Err m = ErrUnknownTopicOrPartition"
    using topics unknown
    by (auto simp: describeCanaryTopic_def returned_iffs returned_case_iffs at_index_Inr_iff topic_name_returned
        dest!: with_admin_returned extern_returned) blast
  ultimately show False using rest by (auto simp: ret_def)
qed

text \<open>
  C10: a cluster that never has the expected size. With an expected cluster size set, no topic in the
  cluster, and a number of brokers that is never the expected one, \<open>Start\<close> gives up after the retries
  configured (or at once on another error): the process is terminated, and not a single
  message has been sent.
\<close>

theorem unmet_size_never_sends:
  assumes "moves_settle api" and "answers_topics api"
    and "\<forall>i\<in>{ConnectionCheckInterval (cn_canaryConfig (cm_connectionService (self s))),
           StatusCheckInterval (ss_canaryConfig (cm_statusService (self s))),
           ReconcileInterval (cm_canaryConfig (self s))}. 0 < i \<and> i < 2 ^ 43"
    and n: "n = ExpectedClusterSize (ts_canaryConfig (cm_topicService (self s)))"
    and static: "n \<noteq> ExpectedClusterSizeDefault"
    and size: "\<forall>h e. int (length (fst (fst (x_DescribeCluster api h e)))) \<noteq> n"
    and unknown: "\<forall>h ts e ms e'. x_DescribeTopics api h ts e = (Inr ms, e') \<longrightarrow> ms \<noteq> [] \<longrightarrow> tm_Err (ms ! 0) = ErrUnknownTopicOrPartition"
  shows "\<exists>m\<in>start_failures. \<exists>s'. cm_Start api s = Some (Crashed (Fatal m) s') \<and> unsent s s'"
proof -
  have "\<not> started api s s'" for s'
  proof
    assume "started api s s'"
    then obtain t t' result where "ts_Reconcile api t = Some (Returned (result, None) t')"
      "ts_canaryConfig (self t) = ts_canaryConfig (cm_topicService (self s))"
      by (auto simp: started_def reconciled_by_def)
    with reconcile_refuses [of t api result None t'] n static size unknown show False by simp
  qed
  with gowp_outcome [OF start_total [OF assms(1-3)]] show ?thesis by auto
qed

section \<open>A periodic reconcile\<close>

definition leader_query :: "call \<Rightarrow> bool" where
  "leader_query c = (case c of GetPartitions h t \<Rightarrow> True | GetLeader h t p \<Rightarrow> True | _ \<Rightarrow> False)"

lemma leaders_of_total:
  "gowp False (leaders_of api ps ls) (\<lambda>_ s'. self s' = self s \<and> adds leader_query s s') (\<lambda>_ _. False) s"
proof (induction ps arbitrary: ls s)
  case Nil
  show ?case by (simp add: go_simps)
next
  case (Cons p ps)
  have "gowp False (leaders_of api ps ls') (\<lambda>_ s'. self s' = self s \<and> adds leader_query s s') (\<lambda>_ _. False) t"
    if "self t = self s" "adds leader_query s t" for t ls'
    using Cons.IH [of ls' t] by (rule gowp_mono) (use that in \<open>auto intro: adds_trans\<close>)
  then show ?case
    by (auto simp: go_simps adds_def leader_query_def split: prod.splits sum.splits)
qed

lemma cs_Leaders_total:
  "\<exists>r s' ls. cs_Leaders api s = Some (Returned r s') \<and> self s' = self s
     \<and> calls (world s') = calls (world s) @ ls \<and> (\<forall>c\<in>set ls. leader_query c)"
proof -
  have "gowp False (leaders_of api ps ls) (\<lambda>_ s'. self s' = self s \<and> adds leader_query s s') (\<lambda>_ _. False) t"
    if "self t = self s" "adds leader_query s t" for t ps ls
    using leaders_of_total [of api ps ls t] by (rule gowp_mono) (use that in \<open>auto intro: adds_trans\<close>)
  then have "gowp False (cs_Leaders api) (\<lambda>_ s'. self s' = self s \<and> adds leader_query s s') (\<lambda>_ _. False) s"
    by (auto simp: cs_Leaders_def go_simps adds_def leader_query_def split: prod.splits sum.splits)
  from gowp_returns [OF this] show ?thesis by (auto simp: adds_def)
qed

text \<open>The requests of the two metadata refreshes.\<close>

definition producer_refresh :: "canary_manager \<Rightarrow> call" where
  "producer_refresh cm = RefreshMetadata (ps_client (cm_producerService cm)) (Topic (ps_canaryConfig (cm_producerService cm)))"

definition consumer_refresh :: "canary_manager \<Rightarrow> call" where
  "consumer_refresh cm = RefreshMetadata (cs_client (cm_consumerService cm)) (Topic (cs_canaryConfig (cm_consumerService cm)))"

lemma ps_Refresh_calls:
  "gowp False (ps_Refresh api) (\<lambda>_ s'. self s' = self s
     \<and> calls (world s') = calls (world s) @ [RefreshMetadata (ps_client (self s)) (Topic (ps_canaryConfig (self s)))])
   (\<lambda>_ _. False) s"
  by (auto simp: ps_Refresh_def go_simps split: prod.splits option.splits)

lemma cs_Refresh_calls:
  "gowp False (cs_Refresh api) (\<lambda>_ s'. self s' = self s
     \<and> calls (world s') = calls (world s) @ [RefreshMetadata (cs_client (self s)) (Topic (cs_canaryConfig (self s)))])
   (\<lambda>_ _. False) s"
  by (auto simp: cs_Refresh_def go_simps split: prod.splits option.splits)

text \<open>The part of a periodic reconcile that follows a successful reconcile of the topic.\<close>

lemma on_field_run:
  "gowp False m Q E \<lparr>self = get (self s), world = world s\<rparr> \<Longrightarrow>
     (\<And>a i. Q a i \<Longrightarrow> P a \<lparr>self = upd (\<lambda>_. self i) (self s), world = world i\<rparr>) \<Longrightarrow>
     (\<And>c i. E c i \<Longrightarrow> F c \<lparr>self = upd (\<lambda>_. self i) (self s), world = world i\<rparr>) \<Longrightarrow>
     gowp False (on_field get upd m) P F s"
  unfolding gowp_on_field by (rule gowp_mono)

definition round_made :: "'e externals \<Rightarrow> reconcile_result \<Rightarrow> canary_manager \<Rightarrow> call list \<Rightarrow> bool" where
  "round_made api result cm cs \<longleftrightarrow> (\<exists>u r u' ls msgs.
     cs_Leaders api u = Some (Returned r u') \<and> calls (world u') = calls (world u) @ ls \<and> (\<forall>c\<in>set ls. leader_query c)
     \<and> cs = (if RefreshProducerMetadata result then [producer_refresh cm] else []) @ ls
           @ (if leaders_changed result r then [consumer_refresh cm] else []) @ msgs
     \<and> round_of (cm_producerService cm) (length (Assignments result)) msgs)"

lemma round_made_frame [simp]: "round_made api result (cm_topicService_update f cm) = round_made api result cm"
  by (simp add: round_made_def producer_refresh_def consumer_refresh_def fun_eq_iff)

lemma round_made_sends:
  "round_made api result cm cs \<Longrightarrow>
     \<exists>pre msgs. cs = pre @ msgs \<and> round_of (cm_producerService cm) (length (Assignments result)) msgs"
  unfolding round_made_def by (metis append_assoc)

lemma round_spec:
  "gowp False
     (andthen (whenever (RefreshProducerMetadata result) (on_producer (ps_Refresh api))) (\<lambda>_.
      andthen (on_consumer (cs_Leaders api)) (\<lambda>leaders.
      andthen (whenever (leaders_changed result leaders) (on_consumer (cs_Refresh api))) (\<lambda>_.
        on_producer (Send api (Assignments result))))))
     (\<lambda>_ s'. \<exists>cs. calls (world s') = calls (world s) @ cs \<and> round_made api result (self s) cs)
     (\<lambda>_ _. False) s"
proof -
  have send: "gowp False (on_producer (Send api (Assignments result)))
      (\<lambda>_ s'. \<exists>msgs. calls (world s') = calls (world t) @ msgs
         \<and> round_of (cm_producerService (self t)) (length (Assignments result)) msgs) (\<lambda>_ _. False) t" for t
    unfolding gowp_on_field by (rule gowp_Send) auto
  have cons: "gowp False (whenever b (on_consumer (cs_Refresh api)))
      (\<lambda>_ s'. self s' = self t \<and> calls (world s') = calls (world t) @ (if b then [consumer_refresh (self t)] else []))
      (\<lambda>_ _. False) t" for b t
    by (cases b) (auto simp: gowp_ret consumer_refresh_def intro!: on_field_run [OF cs_Refresh_calls])
  have prod: "gowp False (whenever b (on_producer (ps_Refresh api)))
      (\<lambda>_ s'. self s' = self t \<and> calls (world s') = calls (world t) @ (if b then [producer_refresh (self t)] else []))
      (\<lambda>_ _. False) t" for b t
    by (cases b) (auto simp: gowp_ret producer_refresh_def intro!: on_field_run [OF ps_Refresh_calls])
  show ?thesis
    unfolding gowp_andthen
  proof (rule gowp_mono [OF prod], goal_cases)
    case (1 x1 s1)
    let ?u = "\<lparr>self = cm_consumerService (self s1), world = world s1\<rparr>"
    obtain r u' ls where u: "cs_Leaders api ?u = Some (Returned r u')" "self u' = self ?u"
      "calls (world u') = calls (world s1) @ ls" "\<forall>c\<in>set ls. leader_query c"
      using cs_Leaders_total [of api ?u] by auto
    show ?case
      unfolding gowp_on_field [of _ cm_consumerService]
    proof (rule returns_gowp [where m = "cs_Leaders api", OF u(1)], rule gowp_mono [OF cons], goal_cases)
      case (1 x2 s2)
      show ?case
      proof (rule gowp_mono [OF send], goal_cases)
        case (1 x3 s3)
        then obtain msgs where msgs: "calls (world s3) = calls (world s2) @ msgs"
          "round_of (cm_producerService (self s2)) (length (Assignments result)) msgs" by blast
        show ?case
          by (rule exI, rule conjI [rotated], unfold round_made_def,
              rule exI [of _ ?u], rule exI [of _ r], rule exI [of _ u'], rule exI [of _ ls], rule exI [of _ msgs],
              intro conjI, rule u(1))
            (use u msgs \<open>self s1 = self s \<and> _\<close> \<open>self s2 = _ \<and> _\<close> in \<open>simp_all add: consumer_refresh_def\<close>)
      qed simp
    qed simp
  qed simp
qed

text \<open>
  C5: a periodic reconcile, given the run of the topic service it begins with. It always returns.
  When the topic could not be reconciled it makes no further request. Otherwise it refreshes the
  producer's metadata exactly when the topic service asks for it, then asks for the leaders, refreshes the
  consumer's metadata exactly when they are unknown or differ from those of the topic service, and
  last sends one message to each partition of the assignment, in this order.
\<close>

theorem reconcile_round:
  assumes run: "ts_Reconcile api \<lparr>self = cm_topicService (self s), world = world s\<rparr> = Some (Returned (result, err) t)"
  shows "\<exists>s'. cm_reconcile api s = Some (Returned () s') \<and>
     (if err \<noteq> None then calls (world s') = calls (world t)
      else \<exists>cs. calls (world s') = calls (world t) @ cs \<and> round_made api result (self s) cs)"
proof -
  let ?s = "\<lparr>self = (self s)\<lparr>cm_topicService := self t\<rparr>, world = world t\<rparr>"
  have topic: "on_topic (ts_Reconcile api) s = Some (Returned (result, err) ?s)"
    using run by (simp add: on_field_returned)
  then have step: "andthen (on_topic (ts_Reconcile api)) f s = f (result, err) ?s" for f :: "_ \<Rightarrow> ('a, unit) manager_routine"
    by (simp add: andthen_def)
  show ?thesis
  proof (cases err)
    case None
    with gowp_returns [OF round_spec [of result api ?s]] show ?thesis
      unfolding cm_reconcile_def step by simp
  next
    case (Some e)
    then show ?thesis unfolding cm_reconcile_def step by (simp add: ret_def)
  qed
qed

section \<open>The stop\<close>

lemma stop_runs:
  assumes running: "fst (cm_loop (self s)) = Some OpenChan"
      "fst (cn_loop (cm_connectionService (self s))) = Some OpenChan"
      "fst (ss_loop (cm_statusService (self s))) = Some OpenChan"
    and "cs_cancel (cm_consumerService (self s)) = Some k" "cn_admin (cm_connectionService (self s)) = Some h"
    and closes: "\<forall>p e. fst (x_ProducerClose api p e) = None" "\<forall>g e. fst (x_ConsumerGroupClose api g e) = None"
      "\<forall>a e. fst (x_AdminClose api a e) = None"
  shows "gowp False (cm_Stop api) (\<lambda>_ s'.
     calls (world s') = calls (world s) @ [ProducerClose (ps_producer (cm_producerService (self s))), CancelContext k,
          ConsumerGroupClose (cs_consumerGroup (cm_consumerService (self s)))]
          @ (case ts_admin (cm_topicService (self s)) of None \<Rightarrow> [] | Some a \<Rightarrow> [AdminClose a]) @ [AdminClose h]
     \<and> ts_admin (cm_topicService (self s')) = None \<and> cn_admin (cm_connectionService (self s')) = None
     \<and> cm_loop (self s') = (Some ClosedChan, 0) \<and> cn_loop (cm_connectionService (self s')) = (Some ClosedChan, 0)
     \<and> ss_loop (cm_statusService (self s')) = (Some ClosedChan, 0)) (\<lambda>_ _. False) s"
proof -
  have p: "x_ProducerClose api p e = (r, e') \<Longrightarrow> r = None" for p e r e' using closes(1) by (metis fst_conv)
  have g: "x_ConsumerGroupClose api p e = (r, e') \<Longrightarrow> r = None" for p e r e' using closes(2) by (metis fst_conv)
  have a: "x_AdminClose api p e = (r, e') \<Longrightarrow> r = None" for p e r e' using closes(3) by (metis fst_conv)
  show ?thesis
    using assms(1-5)
    by (auto simp: cm_Stop_def ps_Close_def cs_Close_def ts_Close_def cn_Close_def cn_close_admin_def ss_Close_def
        stop_loop_def go_simps split: prod.splits option.splits dest: p g a)
qed

text \<open>
  The stop. On a running manager whose services were started and whose clients close without an
  error, \<open>Stop\<close> returns after it has closed, in this order, the producer, the consumer (cancelling the
  context of the attempt that joined, then closing the group), the admin client of the topic service if
  it has one, and that of the connection service; no admin client is left, the three loops are
  closed and waited for, and a second \<open>Stop\<close> panics on the closed channel before it closes
  anything.
\<close>

theorem stop_order:
  assumes running: "fst (cm_loop (self s)) = Some OpenChan"
      "fst (cn_loop (cm_connectionService (self s))) = Some OpenChan"
      "fst (ss_loop (cm_statusService (self s))) = Some OpenChan"
    and "cs_cancel (cm_consumerService (self s)) = Some k" "cn_admin (cm_connectionService (self s)) = Some h"
    and closes: "\<forall>p e. fst (x_ProducerClose api p e) = None" "\<forall>g e. fst (x_ConsumerGroupClose api g e) = None"
      "\<forall>a e. fst (x_AdminClose api a e) = None"
  shows "\<exists>s'. cm_Stop api s = Some (Returned () s')
     \<and> calls (world s') = calls (world s) @ [ProducerClose (ps_producer (cm_producerService (self s))), CancelContext k,
          ConsumerGroupClose (cs_consumerGroup (cm_consumerService (self s)))]
          @ (case ts_admin (cm_topicService (self s)) of None \<Rightarrow> [] | Some a \<Rightarrow> [AdminClose a]) @ [AdminClose h]
     \<and> ts_admin (cm_topicService (self s')) = None \<and> cn_admin (cm_connectionService (self s')) = None
     \<and> [cm_loop (self s'), cn_loop (cm_connectionService (self s')), ss_loop (cm_statusService (self s'))]
         = replicate 3 (Some ClosedChan, 0)
     \<and> cm_Stop api s' = Some (Crashed (Panic CloseOfClosedChannel) s')"
proof -
  have twice: "cm_Stop api s' = Some (Crashed (Panic CloseOfClosedChannel) s')"
    if "cm_loop (self s') = (Some ClosedChan, 0)" for s'
    using that by (simp add: cm_Stop_def andthen_def get_self_def gets_def stop_loop_def crash_def)
  from gowp_returns [OF stop_runs [OF assms]] twice show ?thesis by (auto simp: eval_nat_numeral)
qed

theorem stop_order_witness:
  "\<exists>s'. cm_Stop sim_api \<lparr>self = (sample_cm sample_config)\<lparr>cm_loop := (Some OpenChan, 1),
        cm_connectionService := (new_connection_service sample_config sample_sarama)\<lparr>cn_admin := Some 7, cn_loop := (Some OpenChan, 1)\<rparr>,
        cm_statusService := (cm_statusService (sample_cm sample_config))\<lparr>ss_loop := (Some OpenChan, 1)\<rparr>,
        cm_consumerService := sample_cs\<lparr>cs_cancel := Some 0\<rparr>\<rparr>, world = start_world three_brokers\<rparr> = Some (Returned () s')
     \<and> calls (world s') = [ProducerClose 11, CancelContext 0, ConsumerGroupClose 13, AdminClose 7]"
proof -
  let ?s = "\<lparr>self = (sample_cm sample_config)\<lparr>cm_loop := (Some OpenChan, 1),
        cm_connectionService := (new_connection_service sample_config sample_sarama)\<lparr>cn_admin := Some 7, cn_loop := (Some OpenChan, 1)\<rparr>,
        cm_statusService := (cm_statusService (sample_cm sample_config))\<lparr>ss_loop := (Some OpenChan, 1)\<rparr>,
        cm_consumerService := sample_cs\<lparr>cs_cancel := Some 0\<rparr>\<rparr>, world = start_world three_brokers\<rparr>"
  have "ts_admin (cm_topicService (self ?s)) = None" "calls (world ?s) = []" "cs_consumerGroup sample_cs = 13"
    by (simp_all add: sample_cm_fields new_topic_service_def start_world_def sample_cs_def)
  with stop_order [of ?s 0 7 sim_api] show ?thesis by (auto simp: sim_api_def sample_cm_fields)
qed

section \<open>Witnesses for the manager\<close>

theorem reconcile_round_witness:
  "\<exists>s' before cs n. cm_reconcile sim_api \<lparr>self = sample_cm sample_config, world = start_world one_partition\<rparr> = Some (Returned () s')
     \<and> calls (world s') = before @ cs \<and> round_of (cm_producerService (sample_cm sample_config)) 3 (drop n cs)"
proof -
  let ?s = "\<lparr>self = sample_cm sample_config, world = start_world one_partition\<rparr>"
  let ?t = "\<lparr>self = new_topic_service sample_config sample_sarama, world = start_world one_partition\<rparr>"
  have "map_option (\<lambda>((r, err), cs). (length (Assignments r), err)) (observed (ts_Reconcile sim_api) ?t) = Some (3, None)"
    by code_simp
  then obtain result t where run: "ts_Reconcile sim_api ?t = Some (Returned (result, None) t)"
    and n: "length (Assignments result) = 3"
    by (auto simp: observed_def split: option.splits outcome.splits)
  have "ts_Reconcile sim_api \<lparr>self = cm_topicService (self ?s), world = world ?s\<rparr> = Some (Returned (result, None) t)"
    using run by (simp add: sample_cm_fields)
  from reconcile_round [OF this] obtain s' cs where
    s': "cm_reconcile sim_api ?s = Some (Returned () s')" "calls (world s') = calls (world t) @ cs"
    "round_made sim_api result (self ?s) cs" by auto
  from round_made_sends [OF s'(3)] n obtain pre msgs where
    "cs = pre @ msgs" "round_of (cm_producerService (sample_cm sample_config)) 3 msgs" by auto
  then have "round_of (cm_producerService (sample_cm sample_config)) 3 (drop (length pre) cs)" by simp
  with s'(1,2) show ?thesis by blast
qed

definition no_topic_api :: "cluster externals" where
  "no_topic_api = sim_api\<lparr>x_DescribeCluster := \<lambda>h e. ((brokers_up three_brokers, None), e),
     x_DescribeTopics := \<lambda>h ts e. (Inr (map (described three_brokers) ts), e)\<rparr>"

theorem unmet_size_never_sends_witness:
  "\<exists>m\<in>start_failures. \<exists>s'. cm_Start no_topic_api
      \<lparr>self = sample_cm (sample_config\<lparr>ExpectedClusterSize := 2\<rparr>), world = start_world three_brokers\<rparr>
    = Some (Crashed (Fatal m) s')"
proof -
  let ?c = "sample_config\<lparr>ExpectedClusterSize := 2\<rparr>"
  let ?s = "\<lparr>self = sample_cm ?c, world = start_world three_brokers\<rparr>"
  have settles: "moves_settle no_topic_api"
  proof -
    have "settled_after no_topic_api h t ps k e = settled_after sim_api h t ps k e" for h t ps k e
      by (induction k arbitrary: e) (simp_all add: no_topic_api_def split: prod.splits sum.splits)
    with sim_settles show ?thesis by (simp add: moves_settle_def)
  qed
  have topics: "answers_topics no_topic_api"
    by (simp add: answers_topics_def no_topic_api_def described_def three_brokers_def)
  have "ss_canaryConfig (cm_statusService (sample_cm ?c)) = ?c"
    by (rule sample_cm_fields) (simp_all add: sample_config_def)
  then have i: "\<forall>i\<in>{ConnectionCheckInterval (cn_canaryConfig (cm_connectionService (self ?s))),
           StatusCheckInterval (ss_canaryConfig (cm_statusService (self ?s))),
           ReconcileInterval (cm_canaryConfig (self ?s))}. 0 < i \<and> i < 2 ^ 43"
    by (simp add: sample_cm_fields sample_config_def)
  have n: "2 = ExpectedClusterSize (ts_canaryConfig (cm_topicService (self ?s)))"
    by (simp add: sample_cm_fields new_topic_service_def)
  have size: "\<forall>h e. int (length (fst (fst (x_DescribeCluster no_topic_api h e)))) \<noteq> 2"
    by (simp add: no_topic_api_def three_brokers_def)
  have "ms \<noteq> [] \<longrightarrow> tm_Err (ms ! 0) = ErrUnknownTopicOrPartition"
    if "x_DescribeTopics no_topic_api h ts e = (Inr ms, e')" for h ts e ms e'
    using that by (cases ts) (auto simp: no_topic_api_def described_def three_brokers_def)
  then have unknown: "\<forall>h ts e ms e'. x_DescribeTopics no_topic_api h ts e = (Inr ms, e') \<longrightarrow>
      ms \<noteq> [] \<longrightarrow> tm_Err (ms ! 0) = ErrUnknownTopicOrPartition" by blast
  have "(2::int) \<noteq> ExpectedClusterSizeDefault" by (simp add: ExpectedClusterSizeDefault_def)
  from unmet_size_never_sends [OF settles topics i n this size unknown] show ?thesis by blast
qed

text \<open>A start on a cluster of one broker that returns, step by step.\<close>

definition one_broker :: cluster where
  "one_broker = one_partition\<lparr>brokers_up := [\<lparr>ID = 0, Rack = ''''\<rparr>]\<rparr>"

lemma world_eta:
  "env w = e \<Longrightarrow> \<lparr>env = e, counter = counter w, histogram = histogram w, calls = calls w,
      RecordsProducedCounter = RecordsProducedCounter w, RecordsConsumedCounter = RecordsConsumedCounter w\<rparr> = w"
  by (cases w) simp

lemma sim_opens:
  assumes "env w = one_broker"
  shows "\<exists>t. cn_Open sim_api \<lparr>self = new_connection_service sample_config sample_sarama, world = w\<rparr>
     = Some (Returned () t) \<and> env (world t) = one_broker\<lparr>now_ns := 6000000\<rparr>
     \<and> cn_admin (self t) = Some 7 \<and> cn_loop (self t) = (Some OpenChan, 1)"
proof -
  have "(case cn_Open sim_api \<lparr>self = new_connection_service sample_config sample_sarama,
      world = \<lparr>env = one_broker, counter = c, histogram = h, calls = cs,
        RecordsProducedCounter = p, RecordsConsumedCounter = r\<rparr>\<rparr>
     of Some (Returned u t) \<Rightarrow> env (world t) = one_broker\<lparr>now_ns := 6000000\<rparr>
       \<and> cn_admin (self t) = Some 7 \<and> cn_loop (self t) = (Some OpenChan, 1) | _ \<Rightarrow> False)" for c h cs p r
    by code_simp
  note run = this [of "counter w" "histogram w" "calls w" "RecordsProducedCounter w" "RecordsConsumedCounter w"]
  show ?thesis using run unfolding world_eta [OF assms] by (auto split: option.splits outcome.splits)
qed

lemma sim_reconciles:
  assumes "env w = one_broker\<lparr>now_ns := 6000000\<rparr>"
  shows "\<exists>r t. ts_Reconcile sim_api \<lparr>self = new_topic_service sample_config sample_sarama, world = w\<rparr>
     = Some (Returned (r, None) t) \<and> failing (env (world t)) = None"
proof -
  have "(case ts_Reconcile sim_api \<lparr>self = new_topic_service sample_config sample_sarama,
      world = \<lparr>env = one_broker\<lparr>now_ns := 6000000\<rparr>, counter = c, histogram = h, calls = cs,
        RecordsProducedCounter = p, RecordsConsumedCounter = r\<rparr>\<rparr>
    of Some (Returned (r, err) t) \<Rightarrow> err = None \<and> failing (env (world t)) = None | _ \<Rightarrow> False)" for c h cs p r
    by code_simp
  note run = this [of "counter w" "histogram w" "calls w" "RecordsProducedCounter w" "RecordsConsumedCounter w"]
  show ?thesis using run unfolding world_eta [OF assms] by (auto split: option.splits outcome.splits)
qed

lemma sim_joins:
  "failing (env (world s)) = None \<Longrightarrow> \<exists>t. Consume sim_api s = Some (Returned () t) \<and> cs_cancel (self t) = Some 0"
  unfolding Consume_def
  by (subst join_loop.simps) (simp add: andthen_def set_self_def modify_def wait_def extern_def sim_api_def ret_def)

text \<open>A manager that runs: its loops and those of its services, a joined group and an admin client.\<close>

definition running_manager :: "canary_manager \<Rightarrow> bool" where
  "running_manager cm \<longleftrightarrow> fst (cm_loop cm) = Some OpenChan \<and> fst (cn_loop (cm_connectionService cm)) = Some OpenChan
     \<and> fst (ss_loop (cm_statusService cm)) = Some OpenChan
     \<and> cs_cancel (cm_consumerService cm) = Some 0 \<and> cn_admin (cm_connectionService cm) = Some 7"

lemma sample_ss: "ss_loop (cm_statusService (sample_cm sample_config)) = (None, 0)"
  by (simp add: sample_cm_def NewCanaryManager_def NewStatusService_def NewTimeWindowRing_pos sample_config_def)

lemma sim_starts:
  assumes "env w = one_broker"
  shows "\<exists>s'. cm_Start sim_api \<lparr>self = sample_cm sample_config, world = w\<rparr> = Some (Returned () s') \<and> running_manager (self s')"
proof -
  let ?s = "\<lparr>self = sample_cm sample_config, world = w\<rparr>"
  have c: "ss_canaryConfig (cm_statusService (sample_cm sample_config)) = sample_config"
    by (rule sample_cm_fields) (simp_all add: sample_config_def)
  have l: "cm_loop (sample_cm sample_config) = (None, 0)" by (simp add: sample_cm_def NewCanaryManager_def)
  have ticks: "0 < StatusCheckInterval sample_config" "StatusCheckInterval sample_config < 2 ^ 43"
    "0 < ReconcileInterval sample_config" "ReconcileInterval sample_config < 2 ^ 43"
    by (simp_all add: sample_config_def)
  from sim_opens [OF assms] obtain t where t: "cn_Open sim_api \<lparr>self = new_connection_service sample_config sample_sarama,
      world = w\<rparr> = Some (Returned () t)" "env (world t) = one_broker\<lparr>now_ns := 6000000\<rparr>"
      "cn_admin (self t) = Some 7" "cn_loop (self t) = (Some OpenChan, 1)" by blast
  from sim_reconciles [OF t(2)] obtain r u where u: "ts_Reconcile sim_api
      \<lparr>self = new_topic_service sample_config sample_sarama, world = world t\<rparr> = Some (Returned (r, None) u)"
    "failing (env (world u)) = None" by blast
  have join: "gowp False (Consume sim_api) (\<lambda>_ i. cs_cancel (self i) = Some 0) (\<lambda>_ _. False) \<lparr>self = x, world = world u\<rparr>" for x
    using sim_joins [of "\<lparr>self = x, world = world u\<rparr>"] u(2) by (auto simp: gowp_def)
  have send: "gowp False (Send sim_api asg) (\<lambda>_ _. True) (\<lambda>_ _. False) v" for asg v
    by (rule gowp_Send) simp
  have first: "gowp False (first_reconcile sim_api b)
      (\<lambda>_ v'. cs_cancel (cm_consumerService (self v')) = Some 0 \<and> cm_loop (self v') = cm_loop (self v)
        \<and> cm_connectionService (self v') = cm_connectionService (self v)
        \<and> cm_statusService (self v') = cm_statusService (self v)) (\<lambda>_ _. False) v"
    if "cm_topicService (self v) = new_topic_service sample_config sample_sarama" "world v = world t" for b v
  proof (subst gowp_first_reconcile, unfold gowp_andthen gowp_on_field that,
      rule returns_gowp [where m = "ts_Reconcile sim_api", OF u(1)])
  qed (simp add: gowp_andthen gowp_on_field, rule gowp_mono [OF join], rule gowp_mono [OF send], simp_all)
  have "gowp False (cm_Start sim_api) (\<lambda>_ s'. running_manager (self s')) (\<lambda>_ _. False) ?s"
    unfolding cm_Start_def gowp_andthen gowp_set_self gowp_on_field [of _ cm_connectionService]
  proof (rule returns_gowp [where m = "cn_Open sim_api"])
    show "cn_Open sim_api \<lparr>self = cm_connectionService (self (?s\<lparr>self := cm_loop_update start_loop (self ?s)\<rparr>)),
        world = world (?s\<lparr>self := cm_loop_update start_loop (self ?s)\<rparr>)\<rparr> = Some (Returned () t)"
      using t(1) by (simp add: sample_cm_fields)
  qed (use c l ticks t(3,4) in \<open>simp add: ss_Open_def go_simps NewTicker_ok sample_cm_fields,
      intro gowp_mono [OF first], simp_all add: sample_cm_fields sample_ss NewTicker_ok go_simps running_manager_def start_loop_def\<close>)
  from gowp_returns [OF this] show ?thesis by auto
qed

theorem start_sequence_witness:
  "\<exists>s'. cm_Start sim_api \<lparr>self = sample_cm sample_config, world = start_world one_broker\<rparr> = Some (Returned () s')
     \<and> (\<exists>k. cs_cancel (cm_consumerService (self s')) = Some k \<and> k \<le> 3)"
proof -
  from sim_starts [of "start_world one_broker"] obtain s' where
    "cm_Start sim_api \<lparr>self = sample_cm sample_config, world = start_world one_broker\<rparr> = Some (Returned () s')"
    by (auto simp: start_world_def)
  from start_sequence [OF this] this show ?thesis by blast
qed

end
