(* ===== verification/Record_Tally.thy ===== *)
theory Record_Tally
  imports Topic_Service Producer_Service Consumer_Service Connection_Service Status_Service
begin

text \<open>
  The two package counters of records against the history of requests. \<open>tallied\<close> relates two worlds
  when the history grew and the counters with it: by one for each record sent, and for each record
  consumed; \<open>P\<close> bounds the requests that were added. Every routine of the services keeps this relation, and the parts of its receiver that the
  code never assigns after the construction.
\<close>

section \<open>Counters and history\<close>

fun is_send :: "call \<Rightarrow> bool" where
  "is_send (SendMessage h m) = True"
| "is_send _ = False"

fun is_mark :: "call \<Rightarrow> bool" where
  "is_mark (MarkMessage m) = True"
| "is_mark _ = False"

abbreviation plain :: "call \<Rightarrow> bool" where
  "plain c \<equiv> \<not> is_send c \<and> \<not> is_mark c"

definition sends :: "call list \<Rightarrow> nat" where
  "sends cs = length (filter is_send cs)"

definition marks :: "call list \<Rightarrow> nat" where
  "marks cs = length (filter is_mark cs)"

lemma tally_simps [simp]:
  "sends [] = 0" "marks [] = 0" "sends (cs @ ds) = sends cs + sends ds" "marks (cs @ ds) = marks cs + marks ds"
  "sends (c # cs) = (if is_send c then 1 else 0) + sends cs" "marks (c # cs) = (if is_mark c then 1 else 0) + marks cs"
  by (simp_all add: sends_def marks_def)

lemma plain_tally: "\<forall>c\<in>set cs. plain c \<Longrightarrow> sends cs = 0 \<and> marks cs = 0"
  by (auto simp: sends_def marks_def filter_empty_conv)

definition tallied :: "(call \<Rightarrow> bool) \<Rightarrow> 'e world \<Rightarrow> 'e world \<Rightarrow> bool" where
  "tallied P w w' \<longleftrightarrow> (\<exists>cs. calls w' = calls w @ cs \<and> (\<forall>c\<in>set cs. P c)
     \<and> RecordsProducedCounter w' = RecordsProducedCounter w + of_nat (sends cs)
     \<and> RecordsConsumedCounter w' = RecordsConsumedCounter w + of_nat (marks cs))"

lemma tallied_refl [simp]: "tallied P w w"
  by (simp add: tallied_def)

lemma tallied_trans: "tallied P w w' \<Longrightarrow> tallied P w' w'' \<Longrightarrow> tallied P w w''"
  unfolding tallied_def by (elim exE conjE, rule exI [of _ "_ @ _"]) (auto simp: add_ac)

lemma tallied_mono: "tallied P w w' \<Longrightarrow> (\<And>c. P c \<Longrightarrow> Q c) \<Longrightarrow> tallied Q w w'"
  unfolding tallied_def by blast

lemma tallied_sends: "tallied P w w' \<Longrightarrow> (\<And>c. P c \<Longrightarrow> \<not> is_send c) \<Longrightarrow> sends (calls w') = sends (calls w)"
  by (auto simp: tallied_def sends_def filter_empty_conv)

text \<open>What is counted stays counted, so that the counters agree with the whole history.\<close>

definition agrees :: "'e world \<Rightarrow> bool" where
  "agrees w \<longleftrightarrow> RecordsProducedCounter w = of_nat (sends (calls w))
     \<and> RecordsConsumedCounter w = of_nat (marks (calls w))"

lemma tallied_agrees: "tallied P w w' \<Longrightarrow> agrees w \<Longrightarrow> agrees w'"
  by (auto simp: tallied_def agrees_def)

section \<open>Routines\<close>

text \<open>\<open>keeps P f\<close>: the requests satisfy \<open>P\<close> and are counted, and what \<open>f\<close> reads of the receiver stays.\<close>

definition keeps :: "(call \<Rightarrow> bool) \<Rightarrow> ('c \<Rightarrow> 'x) \<Rightarrow> ('c, 'e world) ctx \<Rightarrow> ('c, 'e world) ctx \<Rightarrow> bool" where
  "keeps P f s s' \<longleftrightarrow> f (self s') = f (self s) \<and> tallied P (world s) (world s')"

interpretation keeps: step_preorder "keeps P f" for P f
  by unfold_locales (auto simp: keeps_def intro: tallied_trans)

lemma keeps_intros:
  "P c \<Longrightarrow> plain c \<Longrightarrow> keeps P f s (s\<lparr>world := (world s)\<lparr>env := e, calls := calls (world s) @ [c]\<rparr>\<rparr>)"
  "keeps P f s (s\<lparr>world := (world s)\<lparr>env := e\<rparr>\<rparr>)"
  "keeps P f s (s\<lparr>world := count_up k m (world s)\<rparr>)"
  "keeps P f s (s\<lparr>world := (world s)\<lparr>histogram := h\<rparr>\<rparr>)"
  "f (g (self s)) = f (self s) \<Longrightarrow> keeps P f s (s\<lparr>self := g (self s)\<rparr>)"
  "(\<And>c. c \<in> set cs \<Longrightarrow> P c \<and> plain c) \<Longrightarrow> keeps P f s (after_polls s e cs)"
  using plain_tally [of cs] by (auto simp: keeps_def tallied_def after_polls_def)

lemmas keeps_rules = keeps.safe_steps safe_world safe_topic_name
  safe_with_admin [OF keeps.step_preorder_axioms] keeps_intros keeps.refl

lemma safe_unfold: "(\<And>Q E. gowp d m Q E s = gowp d n Q E s) \<Longrightarrow> safe d C R n s \<Longrightarrow> safe d C R m s"
  by (simp add: safe_def)

lemma safe_weaken: "safe d C R m s \<Longrightarrow> (\<And>s'. R s s' \<Longrightarrow> R' s s') \<Longrightarrow> (\<And>c. C c \<Longrightarrow> C' c) \<Longrightarrow> safe d C' R' m s"
  by (auto simp: safe_def elim!: gowp_mono)


text \<open>The topic service: its configuration.\<close>

lemma topic_parts_keep:
  "safe True (\<lambda>_. True) (keeps plain ts_canaryConfig) (ensure_admin api) s"
  "safe True (\<lambda>_. True) (keeps plain ts_canaryConfig) (ts_Close api) s"
  "safe True (\<lambda>_. True) (keeps plain ts_canaryConfig) (alterTopicConfiguration api) s"
  "safe True (\<lambda>_. True) (keeps plain ts_canaryConfig) (createTopic api brokers) s"
  "safe True (\<lambda>_. True) (keeps plain ts_canaryConfig) (init_topic_metrics m) s"
  "safe True (\<lambda>_. True) (keeps plain ts_canaryConfig) (reconciled result m) s"
  "safe True (\<lambda>_. True) (keeps plain ts_canaryConfig) (describeCanaryTopic api) s"
  unfolding ensure_admin_def ts_Close_def alterTopicConfiguration_def createTopic_def
    init_topic_metrics_def reconciled_def describeCanaryTopic_def Let_def
  by (intro keeps_rules; simp)+

lemma topic_alter_keeps: "safe True (\<lambda>_. True) (keeps plain ts_canaryConfig) (alterTopicAssignments api cur brokers) s"
  unfolding alterTopicAssignments_def alterAssignments_def Let_def
  by (intro keeps_rules safe_await) (use set_polls in fastforce)+

lemma ts_Reconcile_keeps: "safe True (\<lambda>_. True) (keeps plain ts_canaryConfig) (ts_Reconcile api) s"
  unfolding ts_Reconcile_def reconcileTopic_def reconcile_missing_def reconcile_existing_def
    reassign_existing_def Let_def
  by (intro keeps_rules topic_parts_keep topic_alter_keeps) simp_all

text \<open>The connection service: its configuration and its loop; the status service: its configuration.\<close>

definition cn_frame :: "connection_service \<Rightarrow> canary_config \<times> loop_control" where
  "cn_frame cn = (cn_canaryConfig cn, cn_loop cn)"

lemma cn_frame_update [simp]:
  "cn_frame (cn_admin_update f cn) = cn_frame cn" "cn_frame (cn_brokers_update g cn) = cn_frame cn"
  by (simp_all add: cn_frame_def)

lemma connectionCheck_keeps: "safe True (\<lambda>_. True) (keeps plain cn_frame) (connectionCheck api) s"
  unfolding connectionCheck_def cn_open_admin_def refresh_brokers_def cn_close_admin_def check_broker_def Let_def
  by (intro keeps_rules keeps.safe_for_each) simp_all

text \<open>The consumer service: everything but the cancel function and the channel.\<close>

definition cs_frame :: "consumer_service \<Rightarrow> canary_config \<times> handle \<times> handle" where
  "cs_frame cs = (cs_canaryConfig cs, cs_client cs, cs_consumerGroup cs)"

lemma cs_frame_update [simp]:
  "cs_frame (cs_cancel_update f cs) = cs_frame cs" "cs_frame (cs_ready_update g cs) = cs_frame cs"
  by (simp_all add: cs_frame_def)

text \<open>While it runs, only the channel changes.\<close>

definition cs_settled :: "consumer_service \<Rightarrow> (canary_config \<times> handle \<times> handle) \<times> nat option" where
  "cs_settled cs = (cs_frame cs, cs_cancel cs)"

lemma cs_settled_update [simp]: "cs_settled (cs_ready_update g cs) = cs_settled cs"
  by (simp add: cs_settled_def)

lemma session_parts_keep:
  "safe True (\<lambda>_. True) (keeps plain f) (call_group api) s"
  "safe True (\<lambda>_. True) (keeps plain cs_settled) Setup s"
  "safe True (\<lambda>_. True) (keeps plain cs_settled) (after_call api i err) s"
  by (auto simp: safe_def call_group_def Setup_def after_call_def go_simps keeps_def tallied_def tally_simps
      split: prod.splits channel.splits)

lemma leaders_of_keeps: "safe True (\<lambda>_. True) (keeps plain f) (leaders_of api ps ls) s"
  by (induction ps arbitrary: ls s) (simp_all, intro keeps_rules; simp)+

lemma consumer_parts_keep:
  "safe True (\<lambda>_. True) (keeps plain f) (cs_Refresh api) s"
  "safe True (\<lambda>_. True) (keeps plain f) (cs_Leaders api) s"
  "safe True (\<lambda>_. True) (keeps plain f) count_consumer_error s"
  "safe True (\<lambda>_. True) (keeps plain cs_frame) (cs_Close api) s"
  unfolding cs_Refresh_def cs_Leaders_def count_consumer_error_def cs_Close_def cs_cancel_call_def
  by (intro keeps_rules leaders_of_keeps; simp)+

lemma join_loop_keeps:
  assumes "backoff_ok b" shows "safe True (\<lambda>_. True) (keeps plain cs_frame) (join_loop api i b) s"
  using assms
proof (induction b arbitrary: i s rule: bo.retry_induct)
  case (retry b)
  have again: "safe True (\<lambda>_. True) (keeps plain cs_frame) (join_loop api j (snd (Delay b))) t" if "fst (Delay b) = Inr d" for d j t
    using that retry.IH [of d "snd (Delay b)"] bo.granted [OF retry.hyps, of d "snd (Delay b)"]
    by (metis prod.collapse)
  show ?case
    by (rule safe_unfold [OF gowp_join_loop], unfold wait_def cs_cancel_call_def)
      (intro keeps_rules again; simp)
qed

lemma Consume_keeps: "safe True (\<lambda>_. True) (keeps plain cs_frame) (Consume api) s"
  unfolding Consume_def by (rule join_loop_keeps) (simp add: NewBackoff_ok)


text \<open>The producer service: everything but the index, which numbers the records sent.\<close>

definition ps_frame :: "producer_service \<Rightarrow> canary_config \<times> handle \<times> handle" where
  "ps_frame ps = (ps_canaryConfig ps, ps_client ps, ps_producer ps)"

definition numbering :: "producer_service \<Rightarrow> 'e world \<Rightarrow> int" where
  "numbering ps w = int64 (ps_index ps - int (sends (calls w)))"

definition numbers :: "(producer_service, 'e world) ctx \<Rightarrow> (producer_service, 'e world) ctx \<Rightarrow> bool" where
  "numbers s s' \<longleftrightarrow> keeps (\<lambda>c. \<not> is_mark c) ps_frame s s' \<and> numbering (self s') (world s') = numbering (self s) (world s)
     \<and> (ps_index (self s') = ps_index (self s) \<or> ps_index (self s') = int64 (ps_index (self s')))"

interpretation numbers: step_preorder numbers
  by unfold_locales (auto simp: numbers_def intro: keeps.trans keeps.refl)

lemma send_one_numbers: "safe d C numbers (send_one api i) s"
proof -
  have "int64 (int64 (ps_index (self s) + 1) - (1 + int k)) = int64 (ps_index (self s) - int k)" for k
    using int64_add [of "ps_index (self s) + 1" "- int k - 1"] by (simp add: algebra_simps)
  then show ?thesis
    unfolding safe_def
    by (auto simp: send_one_def newCanaryMessage_def go_simps Let_def numbers_def numbering_def keeps_def
        ps_frame_def tallied_def split: prod.splits sum.splits)
qed

lemma Send_numbers: "safe d C numbers (Send api asg) s"
  unfolding Send_def Let_def by (intro numbers.safe_for_each send_one_numbers)

lemma producer_parts_keep:
  "safe True (\<lambda>_. True) (keeps plain f) (ps_Refresh api) s"
  "safe True (\<lambda>_. True) (keeps plain f) (ps_Close api) s"
  unfolding ps_Refresh_def ps_Close_def by (intro keeps_rules; simp)+

text \<open>A claim: one mark and one count for each message.\<close>

lemma ConsumeClaim_keeps: "safe d C (keeps (\<lambda>c. \<not> is_send c) (\<lambda>cs. cs)) (ConsumeClaim api ms) s"
  unfolding ConsumeClaim_def
proof (intro keeps.safe_for_each)
  show "safe d C (keeps (\<lambda>c. \<not> is_send c) (\<lambda>cs. cs)) (claim_message api m) t" for m t
    unfolding safe_def
    by (auto simp: claim_message_def go_simps Let_def keeps_def tallied_def split: prod.splits)
qed

text \<open>A status check: no request, and the samples of the two counters.\<close>

lemma statusCheck_run:
  assumes "rings_ok (self s) n ps cs" "0 < n"
  shows "\<exists>ss. statusCheck s = Some (Returned () (s\<lparr>self := ss\<rparr>)) \<and> ss_canaryConfig ss = ss_canaryConfig (self s)
     \<and> rings_ok ss n (ps @ [RecordsProducedCounter (world s)]) (cs @ [RecordsConsumedCounter (world s)])"
  using sampled_ok [OF assms, of "RecordsProducedCounter (world s)" "RecordsConsumedCounter (world s)"]
  by (auto simp: statusCheck_def set_self_def modify_def)

end
