(* ===== verification/Canary_System.thy ===== *)
theory Canary_System
  imports Canary_Manager Record_Tally
begin

text \<open>
  The running canary: the steps its goroutines take between the start and the stop of the manager, each
  the body of one handler on the state they share: the periodic reconcile, connection check and status
  check, the messages of a claim, the errors of the consumer group, and the goroutines that call the group's
  \<open>Consume\<close>, each of whose iterations is three steps, the call, the group handler's \<open>Setup\<close> while the call is under
  way, and the return of the call with its error, in the context \<open>i\<close> of the goroutine. Any number of them may be alive, and their
  steps come in any order, of which those that the library can bring about are some. A step is a whole handler:
  the order of handlers is arbitrary, their interleaving within one another is not modelled. What
  holds in every reachable state is proved once for the steps, by rule induction.
\<close>

section \<open>Model\<close>

datatype service_event =
    ReconcileTick
  | ConnectionTick
  | StatusTick
  | GroupError
  | Claimed "consumer_message list"
  | GroupCalled
  | GroupSetUp
  | CallEnded nat "goerror option"

fun handle :: "'e externals \<Rightarrow> service_event \<Rightarrow> ('e, unit) manager_routine" where
  "handle api ReconcileTick = cm_reconcile api"
| "handle api ConnectionTick = on_connection (connectionCheck api)"
| "handle api StatusTick = on_status statusCheck"
| "handle api GroupError = on_consumer count_consumer_error"
| "handle api (Claimed messages) = on_consumer (ConsumeClaim api messages)"
| "handle api GroupCalled = on_consumer (andthen (call_group api) (\<lambda>_. ret ()))"
| "handle api GroupSetUp = on_consumer Setup"
| "handle api (CallEnded i err) = on_consumer (andthen (after_call api i err) (\<lambda>_. ret ()))"

fun_cases handle_cases: "handle api ev = m"

definition serve :: "'e externals \<Rightarrow> service_event list \<Rightarrow> ('e, unit) manager_routine" where
  "serve api evs = for_each (handle api) evs"

section \<open>What every step keeps\<close>

text \<open>The parts of the state that the code assigns when it is built and never after.\<close>

definition ss_frame :: "status_service \<Rightarrow> canary_config \<times> ring \<times> ring" where
  "ss_frame ss = (ss_canaryConfig ss, producedRecordsSamples ss, consumedRecordsSamples ss)"

definition frame :: "canary_manager \<Rightarrow> canary_config \<times> canary_config \<times> (canary_config \<times> handle \<times> handle)
    \<times> (canary_config \<times> handle \<times> handle) \<times> canary_config \<times> canary_config \<times> ring \<times> ring" where
  "frame cm = (cm_canaryConfig cm, ts_canaryConfig (cm_topicService cm), ps_frame (cm_producerService cm),
     cs_frame (cm_consumerService cm), cn_canaryConfig (cm_connectionService cm), ss_frame (cm_statusService cm))"

definition well :: "(canary_manager, 'e world) ctx \<Rightarrow> (canary_manager, 'e world) ctx \<Rightarrow> bool" where
  "well s s' \<longleftrightarrow> frame (self s') = frame (self s) \<and> tallied (\<lambda>_. True) (world s) (world s')
     \<and> numbering (cm_producerService (self s')) (world s') = numbering (cm_producerService (self s)) (world s)
     \<and> (int64_value (ps_index (cm_producerService (self s))) \<longrightarrow> int64_value (ps_index (cm_producerService (self s'))))"

interpretation well: step_preorder well
  by unfold_locales (auto simp: well_def intro: tallied_trans)

text \<open>The loops, and the attempt that joined.\<close>

definition loops :: "canary_manager \<Rightarrow> loop_control \<times> loop_control \<times> loop_control \<times> nat option" where
  "loops cm = (cm_loop cm, cn_loop (cm_connectionService cm), ss_loop (cm_statusService cm),
     cs_cancel (cm_consumerService cm))"

definition steady :: "(canary_manager, 'e world) ctx \<Rightarrow> (canary_manager, 'e world) ctx \<Rightarrow> bool" where
  "steady s s' \<longleftrightarrow> well s s' \<and> loops (self s') = loops (self s)"

interpretation steady: step_preorder steady
  by unfold_locales (auto simp: steady_def intro: well.refl well.trans)

lemma numbering_same: "sends (calls w') = sends (calls w) \<Longrightarrow> numbering ps w' = numbering ps w"
  by (simp add: numbering_def)

lemma tallied_True: "tallied P w w' \<Longrightarrow> tallied (\<lambda>_. True) w w'"
  by (erule tallied_mono) simp

text \<open>A method of a service, seen from the manager.\<close>

lemma steady_fields:
  "keeps plain ts_canaryConfig \<lparr>self = cm_topicService (self s), world = world s\<rparr> i \<Longrightarrow>
     steady s \<lparr>self = (self s)\<lparr>cm_topicService := self i\<rparr>, world = world i\<rparr>"
  "numbers \<lparr>self = cm_producerService (self s), world = world s\<rparr> j \<Longrightarrow>
     steady s \<lparr>self = (self s)\<lparr>cm_producerService := self j\<rparr>, world = world j\<rparr>"
  "keeps (\<lambda>c. \<not> is_send c) cs_settled \<lparr>self = cm_consumerService (self s), world = world s\<rparr> k \<Longrightarrow>
     steady s \<lparr>self = (self s)\<lparr>cm_consumerService := self k\<rparr>, world = world k\<rparr>"
  "keeps plain cn_frame \<lparr>self = cm_connectionService (self s), world = world s\<rparr> l \<Longrightarrow>
     steady s \<lparr>self = (self s)\<lparr>cm_connectionService := self l\<rparr>, world = world l\<rparr>"
proof -
  assume "keeps plain ts_canaryConfig \<lparr>self = cm_topicService (self s), world = world s\<rparr> i"
  then have "ts_canaryConfig (self i) = ts_canaryConfig (cm_topicService (self s))" "tallied plain (world s) (world i)"
    by (simp_all add: keeps_def)
  then show "steady s \<lparr>self = (self s)\<lparr>cm_topicService := self i\<rparr>, world = world i\<rparr>"
    using tallied_sends [of plain "world s" "world i"] tallied_True [of plain "world s" "world i"]
    by (simp add: steady_def well_def frame_def loops_def numbering_def)
next
  assume "numbers \<lparr>self = cm_producerService (self s), world = world s\<rparr> j"
  then show "steady s \<lparr>self = (self s)\<lparr>cm_producerService := self j\<rparr>, world = world j\<rparr>"
    using tallied_True [of "\<lambda>c. \<not> is_mark c" "world s" "world j"] int64_range [of "ps_index (self j)"]
    by (auto simp: steady_def well_def numbers_def keeps_def frame_def loops_def int64_value_def)
next
  assume "keeps (\<lambda>c. \<not> is_send c) cs_settled \<lparr>self = cm_consumerService (self s), world = world s\<rparr> k"
  then have "cs_settled (self k) = cs_settled (cm_consumerService (self s))" "tallied (\<lambda>c. \<not> is_send c) (world s) (world k)"
    by (simp_all add: keeps_def)
  then show "steady s \<lparr>self = (self s)\<lparr>cm_consumerService := self k\<rparr>, world = world k\<rparr>"
    using tallied_sends [of "\<lambda>c. \<not> is_send c" "world s" "world k"] tallied_True [of "\<lambda>c. \<not> is_send c" "world s" "world k"]
    by (simp add: steady_def well_def frame_def loops_def numbering_def cs_settled_def)
next
  assume "keeps plain cn_frame \<lparr>self = cm_connectionService (self s), world = world s\<rparr> l"
  then have "cn_frame (self l) = cn_frame (cm_connectionService (self s))" "tallied plain (world s) (world l)"
    by (simp_all add: keeps_def)
  then show "steady s \<lparr>self = (self s)\<lparr>cm_connectionService := self l\<rparr>, world = world l\<rparr>"
    using tallied_sends [of plain "world s" "world l"] tallied_True [of plain "world s" "world l"]
    by (simp add: steady_def well_def frame_def loops_def numbering_def cn_frame_def)
qed

text \<open>The steps of the handlers that do not sample.\<close>

lemma keeps_weaken: "keeps P f s s' \<Longrightarrow> (\<And>c. P c \<Longrightarrow> Q c) \<Longrightarrow> keeps Q f s s'"
  by (auto simp: keeps_def elim: tallied_mono)

lemma keeps_frame: "keeps P f s s' \<Longrightarrow> (\<And>x y. f x = f y \<Longrightarrow> g x = g y) \<Longrightarrow> keeps P g s s'"
  unfolding keeps_def by blast

lemma on_service_steady:
  "safe True (\<lambda>_. True) steady (on_topic (ts_Reconcile api)) s"
  "safe True (\<lambda>_. True) steady (on_producer (ps_Refresh api)) s"
  "safe True (\<lambda>_. True) steady (on_producer (Send api asg)) s"
  "safe True (\<lambda>_. True) steady (on_consumer (cs_Leaders api)) s"
  "safe True (\<lambda>_. True) steady (on_consumer (cs_Refresh api)) s"
  "safe True (\<lambda>_. True) steady (on_consumer count_consumer_error) s"
  "safe True (\<lambda>_. True) steady (on_consumer (ConsumeClaim api ms)) s"
  "safe True (\<lambda>_. True) steady (on_connection (connectionCheck api)) s"
  "safe True (\<lambda>_. True) steady (on_consumer (andthen (call_group api) (\<lambda>_. ret ()))) s"
  "safe True (\<lambda>_. True) steady (on_consumer Setup) s"
  "safe True (\<lambda>_. True) steady (on_consumer (andthen (after_call api i err) (\<lambda>_. ret ()))) s"
proof -
  have same: "numbers t t'" if "keeps plain (\<lambda>ps. ps) t t'" for t t' :: "(producer_service, 'a world) ctx"
    using that tallied_sends [of plain "world t" "world t'"] by (auto simp: numbers_def keeps_def numbering_def elim: tallied_mono)
  show "safe True (\<lambda>_. True) steady (on_topic (ts_Reconcile api)) s"
    by (rule safe_on_field [OF ts_Reconcile_keeps]) (rule steady_fields)
  show "safe True (\<lambda>_. True) steady (on_producer (ps_Refresh api)) s"
    by (rule safe_on_field [OF producer_parts_keep(1)]) (intro steady_fields same)
  show "safe True (\<lambda>_. True) steady (on_producer (Send api asg)) s"
    by (rule safe_on_field [OF Send_numbers]) (rule steady_fields)
  show "safe True (\<lambda>_. True) steady (on_consumer (cs_Leaders api)) s"
    by (rule safe_on_field [OF consumer_parts_keep(2)]) (rule steady_fields, erule keeps_weaken, simp)
  show "safe True (\<lambda>_. True) steady (on_consumer (cs_Refresh api)) s"
    by (rule safe_on_field [OF consumer_parts_keep(1)]) (rule steady_fields, erule keeps_weaken, simp)
  show "safe True (\<lambda>_. True) steady (on_consumer count_consumer_error) s"
    by (rule safe_on_field [OF consumer_parts_keep(3)]) (rule steady_fields, erule keeps_weaken, simp)
  show "safe True (\<lambda>_. True) steady (on_consumer (ConsumeClaim api ms)) s"
    by (rule safe_on_field [OF ConsumeClaim_keeps]) (rule steady_fields, erule keeps_frame, simp)
  show "safe True (\<lambda>_. True) steady (on_consumer Setup) s"
    by (rule safe_on_field [OF session_parts_keep(2)]) (rule steady_fields, erule keeps_weaken, simp)
  have "safe True (\<lambda>_. True) (keeps plain cs_settled) (andthen (call_group api) (\<lambda>_. ret ())) t"
    "safe True (\<lambda>_. True) (keeps plain cs_settled) (andthen (after_call api i err) (\<lambda>_. ret ())) t" for t
    by (intro keeps.safe_andthen session_parts_keep keeps.safe_ret)+
  note ends = this
  show "safe True (\<lambda>_. True) steady (on_consumer (andthen (call_group api) (\<lambda>_. ret ()))) s"
    by (rule safe_on_field [OF ends(1)]) (rule steady_fields, erule keeps_weaken, simp)
  show "safe True (\<lambda>_. True) steady (on_consumer (andthen (after_call api i err) (\<lambda>_. ret ()))) s"
    by (rule safe_on_field [OF ends(2)]) (rule steady_fields, erule keeps_weaken, simp)
  show "safe True (\<lambda>_. True) steady (on_connection (connectionCheck api)) s"
    by (rule safe_on_field [OF connectionCheck_keeps]) (rule steady_fields)
qed

lemma handle_steady:
  assumes "ev \<noteq> StatusTick" shows "safe True (\<lambda>_. True) steady (handle api ev) s"
proof (cases ev)
  case ReconcileTick
  then show ?thesis
    by (simp add: cm_reconcile_def) (intro steady.safe_steps on_service_steady)
qed (use assms in \<open>simp_all add: on_service_steady\<close>)


text \<open>The start keeps the same, and the loops once they are open; the stop the same.\<close>

definition opened :: "(canary_manager, 'e world) ctx \<Rightarrow> (canary_manager, 'e world) ctx \<Rightarrow> bool" where
  "opened s s' \<longleftrightarrow> well s s' \<and> cm_loop (self s') = cm_loop (self s)
     \<and> cn_loop (cm_connectionService (self s')) = cn_loop (cm_connectionService (self s))
     \<and> ss_loop (cm_statusService (self s')) = ss_loop (cm_statusService (self s))"

interpretation opened: step_preorder opened
proof unfold_locales
  show "opened s s" for s :: "(canary_manager, 'a world) ctx" by (simp add: opened_def well.refl)
  show "opened s s''" if "opened s s'" "opened s' s''" for s s' s'' :: "(canary_manager, 'a world) ctx"
    using that well.trans [of s s' s''] by (simp add: opened_def)
qed

lemma steady_opened: "steady s s' \<Longrightarrow> opened s s'"
  by (simp add: steady_def opened_def loops_def)

lemma steady_well: "steady s s' \<Longrightarrow> well s s'"
  by (simp add: steady_def)

lemma opened_well: "opened s s' \<Longrightarrow> well s s'"
  by (simp add: opened_def)

lemma well_fields:
  "keeps plain cs_frame \<lparr>self = cm_consumerService (self s), world = world s\<rparr> k \<Longrightarrow>
     opened s \<lparr>self = (self s)\<lparr>cm_consumerService := self k\<rparr>, world = world k\<rparr>"
  "keeps plain cn_canaryConfig \<lparr>self = cm_connectionService (self s), world = world s\<rparr> l \<Longrightarrow>
     well s \<lparr>self = (self s)\<lparr>cm_connectionService := self l\<rparr>, world = world l\<rparr>"
  "keeps plain ss_frame \<lparr>self = cm_statusService (self s), world = world s\<rparr> m \<Longrightarrow>
     well s \<lparr>self = (self s)\<lparr>cm_statusService := self m\<rparr>, world = world m\<rparr>"
proof -
  assume "keeps plain cs_frame \<lparr>self = cm_consumerService (self s), world = world s\<rparr> k"
  then have "cs_frame (self k) = cs_frame (cm_consumerService (self s))" "tallied plain (world s) (world k)"
    by (simp_all add: keeps_def)
  then show "opened s \<lparr>self = (self s)\<lparr>cm_consumerService := self k\<rparr>, world = world k\<rparr>"
    using tallied_sends [of plain "world s" "world k"] tallied_True [of plain "world s" "world k"]
    by (simp add: opened_def well_def frame_def numbering_def)
next
  assume "keeps plain cn_canaryConfig \<lparr>self = cm_connectionService (self s), world = world s\<rparr> l"
  then have "cn_canaryConfig (self l) = cn_canaryConfig (cm_connectionService (self s))" "tallied plain (world s) (world l)"
    by (simp_all add: keeps_def)
  then show "well s \<lparr>self = (self s)\<lparr>cm_connectionService := self l\<rparr>, world = world l\<rparr>"
    using tallied_sends [of plain "world s" "world l"] tallied_True [of plain "world s" "world l"]
    by (simp add: well_def frame_def numbering_def)
next
  assume "keeps plain ss_frame \<lparr>self = cm_statusService (self s), world = world s\<rparr> m"
  then have "ss_frame (self m) = ss_frame (cm_statusService (self s))" "tallied plain (world s) (world m)"
    by (simp_all add: keeps_def)
  then show "well s \<lparr>self = (self s)\<lparr>cm_statusService := self m\<rparr>, world = world m\<rparr>"
    using tallied_sends [of plain "world s" "world m"] tallied_True [of plain "world s" "world m"]
    by (simp add: well_def frame_def numbering_def)
qed

lemma loop_parts_keep:
  "safe True (\<lambda>_. True) (keeps plain cn_canaryConfig) (cn_Open api) s"
  "safe True (\<lambda>_. True) (keeps plain cn_canaryConfig) (cn_Close api) s"
  "safe True (\<lambda>_. True) (keeps plain ss_frame) ss_Open t"
  "safe True (\<lambda>_. True) (keeps plain ss_frame) ss_Close t"
proof -
  have check: "safe True (\<lambda>_. True) (keeps plain cn_canaryConfig) (connectionCheck api) s" for s
    by (rule safe_weaken [OF connectionCheck_keeps], erule keeps_frame) (simp_all add: cn_frame_def)
  show "safe True (\<lambda>_. True) (keeps plain cn_canaryConfig) (cn_Open api) s"
    unfolding cn_Open_def by (intro keeps_rules check) simp_all
  show "safe True (\<lambda>_. True) (keeps plain cn_canaryConfig) (cn_Close api) s"
    unfolding cn_Close_def cn_close_admin_def by (intro keeps_rules) simp_all
  show "safe True (\<lambda>_. True) (keeps plain ss_frame) ss_Open t"
    unfolding ss_Open_def by (intro keeps_rules) (simp_all add: ss_frame_def)
  show "safe True (\<lambda>_. True) (keeps plain ss_frame) ss_Close t"
    unfolding ss_Close_def by (intro keeps_rules) (simp_all add: ss_frame_def)
qed

lemma opened_intros:
  "plain c \<Longrightarrow> opened s (s\<lparr>world := (world s)\<lparr>env := e, calls := calls (world s) @ [c]\<rparr>\<rparr>)"
  "opened s (s\<lparr>world := count_up k m (world s)\<rparr>)"
  "well s (s\<lparr>self := cm_loop_update f (self s)\<rparr>)"
  by (auto simp: opened_def well_def frame_def numbering_def tallied_def plain_tally)

lemma first_reconcile_opened:
  assumes "backoff_ok b" shows "safe True (\<lambda>_. True) opened (first_reconcile api b) s"
  using assms
proof (induction b arbitrary: s rule: bo.retry_induct)
  case (retry b)
  have again: "safe True (\<lambda>_. True) opened (first_reconcile api (snd (Delay b))) t" if "fst (Delay b) = Inr d" for d t
    using that retry.IH [of d "snd (Delay b)"] bo.granted [OF retry.hyps, of d "snd (Delay b)"]
    by (metis prod.collapse)
  have parts: "safe True (\<lambda>_. True) opened (on_topic (ts_Reconcile api)) t"
    "safe True (\<lambda>_. True) opened (on_producer (Send api asg)) t"
    "safe True (\<lambda>_. True) opened (on_consumer (Consume api)) t" for t asg
    by (rule safe_weaken [OF on_service_steady(1) steady_opened], assumption, simp)
      (rule safe_weaken [OF on_service_steady(3) steady_opened], assumption, simp,
       rule safe_on_field [OF Consume_keeps], rule well_fields)
  show ?case
    by (rule safe_unfold [OF gowp_first_reconcile])
      (intro opened.safe_steps safe_world opened_intros again parts; simp)
qed

lemma Start_well: "safe True (\<lambda>_. True) well (cm_Start api) s"
proof -
  have first: "safe True (\<lambda>_. True) well (first_reconcile api (NewBackoff a (int64 x) MaxDefault)) t" for a x t
    by (rule safe_weaken [OF first_reconcile_opened]) (use int64_range in \<open>auto intro!: NewBackoff_ok simp: opened_def\<close>)
  show ?thesis
    unfolding cm_Start_def
    by (intro well.safe_steps safe_world opened_intros first well.refl
        safe_on_field [OF loop_parts_keep(1)] safe_on_field [OF loop_parts_keep(3)] well_fields TrueI)
qed

lemma Stop_well: "safe True (\<lambda>_. True) well (cm_Stop api) s"
proof -
  have same: "numbers t t'" if "keeps plain (\<lambda>ps. ps) t t'" for t t' :: "(producer_service, 'a world) ctx"
    using that tallied_sends [of plain "world t" "world t'"] by (auto simp: numbers_def keeps_def numbering_def elim: tallied_mono)
  have producer: "safe True (\<lambda>_. True) well (on_producer (ps_Close api)) t" for t
    by (rule safe_on_field [OF producer_parts_keep(2)]) (rule steady_well [OF steady_fields(2) [OF same]])
  have consumer: "safe True (\<lambda>_. True) well (on_consumer (cs_Close api)) t" for t
    by (rule safe_on_field [OF consumer_parts_keep(4)]) (rule opened_well [OF well_fields(1)])
  have topic: "safe True (\<lambda>_. True) well (on_topic (ts_Close api)) t" for t
    by (rule safe_on_field [OF topic_parts_keep(2)]) (rule steady_well [OF steady_fields(1)])
  show ?thesis
    unfolding cm_Stop_def
    by (intro well.safe_steps safe_world opened_intros producer consumer topic well.refl
        safe_on_field [OF loop_parts_keep(2)] safe_on_field [OF loop_parts_keep(4)] well_fields TrueI)
qed


section \<open>Reachable states\<close>

text \<open>A manager as \<open>main\<close> builds it, with the clients \<open>p\<close> and \<open>q\<close>: nothing has been started.\<close>

definition fresh_manager :: "canary_config \<Rightarrow> sarama_config \<Rightarrow> status_service \<Rightarrow> handle \<Rightarrow> handle \<Rightarrow> canary_manager \<Rightarrow> bool" where
  "fresh_manager c config ss p q cm \<longleftrightarrow> (\<exists>producer group. cm = NewCanaryManager c (new_topic_service c config)
     \<lparr>ps_canaryConfig = c, ps_client = p, ps_producer = producer, ps_index = 0\<rparr>
     \<lparr>cs_canaryConfig = c, cs_client = q, cs_consumerGroup = group, cs_cancel = None, cs_ready = Open\<rparr>
     (new_connection_service c config) ss)"

text \<open>
  The life of a manager. A phase is entered by a method that returns; a crash ends the process in the
  state it leaves.
\<close>

datatype phase = Made | Running | Stopped | Exited

definition next_phase :: "phase \<Rightarrow> ('a, 's) outcome \<Rightarrow> phase" where
  "next_phase p r = (case r of Returned a s \<Rightarrow> p | Crashed c s \<Rightarrow> Exited)"

inductive reachable :: "'e externals \<Rightarrow> (canary_manager, 'e world) ctx \<Rightarrow> phase \<Rightarrow> (canary_manager, 'e world) ctx \<Rightarrow> bool"
  for api :: "'e externals" and s0 :: "(canary_manager, 'e world) ctx" where
  made: "reachable api s0 Made s0"
| begun: "reachable api s0 Made s \<Longrightarrow> cm_Start api s = Some r \<Longrightarrow> reachable api s0 (next_phase Running r) (final_state r)"
| served: "reachable api s0 Running s \<Longrightarrow> handle api ev s = Some r \<Longrightarrow> reachable api s0 (next_phase Running r) (final_state r)"
| halted: "reachable api s0 Running s \<Longrightarrow> cm_Stop api s = Some r \<Longrightarrow> reachable api s0 (next_phase Stopped r) (final_state r)"

text \<open>The invariant of all phases: one configuration, two rings of the samples, counters that agree with the history.\<close>

definition configured :: "canary_config \<Rightarrow> canary_manager \<Rightarrow> bool" where
  "configured c cm \<longleftrightarrow> cm_canaryConfig cm = c \<and> ts_canaryConfig (cm_topicService cm) = c
     \<and> ps_canaryConfig (cm_producerService cm) = c \<and> cs_canaryConfig (cm_consumerService cm) = c
     \<and> cn_canaryConfig (cm_connectionService cm) = c \<and> ss_canaryConfig (cm_statusService cm) = c"

definition sound :: "canary_config \<Rightarrow> nat \<Rightarrow> u64 list \<Rightarrow> u64 list \<Rightarrow> (canary_manager, 'e world) ctx \<Rightarrow> bool" where
  "sound c n P C s \<longleftrightarrow> configured c (self s) \<and> rings_ok (cm_statusService (self s)) n P C \<and> agrees (world s)
     \<and> numbering (cm_producerService (self s)) (world s) = 0 \<and> int64_value (ps_index (cm_producerService (self s)))"

lemma sound_well: "sound c n P C s \<Longrightarrow> well s s' \<Longrightarrow> sound c n P C s'"
  by (auto simp: sound_def well_def configured_def frame_def ps_frame_def cs_frame_def ss_frame_def rings_ok_def
      intro: tallied_agrees)

lemma StatusTick_run:
  assumes "sound c n P C s" "0 < n"
  shows "\<exists>s'. handle api StatusTick s = Some (Returned () s') \<and> world s' = world s \<and> loops (self s') = loops (self s)
     \<and> sound c n (P @ [RecordsProducedCounter (world s)]) (C @ [RecordsConsumedCounter (world s)]) s'"
proof -
  let ?t = "\<lparr>self = cm_statusService (self s), world = world s\<rparr>"
  from assms have "rings_ok (self ?t) n P C" by (simp add: sound_def)
  from statusCheck_run [OF this assms(2)] obtain ss where ss: "statusCheck ?t = Some (Returned () (?t\<lparr>self := ss\<rparr>))"
    "ss_canaryConfig ss = ss_canaryConfig (self ?t)"
    "rings_ok ss n (P @ [RecordsProducedCounter (world s)]) (C @ [RecordsConsumedCounter (world s)])" by auto
  have "ss_loop ss = ss_loop (self ?t)"
    using ss(1) by (auto simp: statusCheck_def sampled_def bindE_Inr_iff checked_simps set_self_returned returned_iffs)
  with ss assms(1) show ?thesis
    by (simp add: on_field_def sound_def configured_def loops_def)
qed

lemma sound_index:
  assumes "sound c n P C s"
  shows "ps_index (cm_producerService (self s)) = int64 (int (sends (calls (world s))))"
proof -
  let ?i = "ps_index (cm_producerService (self s))" and ?n = "int (sends (calls (world s)))"
  have "int64 ((?i - ?n) + ?n) = int64 ?n"
    using int64_add [of "?i - ?n" ?n] assms by (simp add: sound_def numbering_def)
  with assms show ?thesis by (simp add: sound_def int64_value_def)
qed

text \<open>The three loops after a start and after a stop.\<close>

definition trio :: "canary_manager \<Rightarrow> loop_control list" where
  "trio cm = [cm_loop cm, cn_loop (cm_connectionService cm), ss_loop (cm_statusService cm)]"

lemma cn_Open_loop: "gowp True (cn_Open api) (\<lambda>_ t. cn_loop (self t) = start_loop (cn_loop (self s))) (\<lambda>_ _. True) s"
  unfolding cn_Open_def gowp_andthen gowp_set_self
  by (rule gowp_safeI [OF connectionCheck_keeps])
    (auto simp: go_simps keeps_def cn_frame_def split: sum.splits)

lemma Start_loops: "gowp True (cm_Start api) (\<lambda>_ s'. trio (self s') = map start_loop (trio (self s))) (\<lambda>_ _. True) s"
proof -
  have ok: "backoff_ok (NewBackoff a (int64 x) MaxDefault)" for a x
    using int64_range by (intro NewBackoff_ok) simp
  show ?thesis
    unfolding cm_Start_def gowp_andthen gowp_set_self gowp_on_field
  proof (rule gowp_mono [OF cn_Open_loop], goal_cases)
    case (1 a i)
    then show ?case
      by (auto simp: ss_Open_def go_simps trio_def opened_def split: sum.splits
          intro!: gowp_safeI [OF first_reconcile_opened [OF ok]])
  qed simp
qed

lemma Stop_loops: "gowp True (cm_Stop api) (\<lambda>_ s'. trio (self s') = replicate 3 (Some ClosedChan, 0)) (\<lambda>_ _. True) s"
proof -
  have stop: "stop_loop l = Inr l' \<longleftrightarrow> fst l = Some OpenChan \<and> l' = (Some ClosedChan, 0)" for l l'
    by (auto simp: stop_loop_def split: option.splits chan_state.splits)
  show ?thesis
    by (auto simp: cm_Stop_def ps_Close_def cs_Close_def cs_cancel_call_def ts_Close_def cn_Close_def cn_close_admin_def
        ss_Close_def go_simps trio_def stop eval_nat_numeral split: prod.splits option.splits sum.splits)
qed


fun phase_ok :: "phase \<Rightarrow> canary_manager \<Rightarrow> bool" where
  "phase_ok Made cm \<longleftrightarrow> trio cm = replicate 3 (None, 0)"
| "phase_ok Running cm \<longleftrightarrow> trio cm = replicate 3 (Some OpenChan, 1) \<and> (\<exists>k\<le>3. cs_cancel (cm_consumerService cm) = Some k)"
| "phase_ok Stopped cm \<longleftrightarrow> trio cm = replicate 3 (Some ClosedChan, 0)"
| "phase_ok Exited cm \<longleftrightarrow> True"

lemma phase_ok_steady: "loops cm' = loops cm \<Longrightarrow> phase_ok ph cm' = phase_ok ph cm"
  by (cases ph) (auto simp: loops_def trio_def)

lemma next_phase_cases:
  "(\<And>a s'. r = Returned a s' \<Longrightarrow> phase_ok p (self s')) \<Longrightarrow> phase_ok (next_phase p r) (self (final_state r))"
  by (cases r) (simp_all add: next_phase_def)

lemma handle_sound:
  assumes s: "sound c n P C s" "0 < n" and run: "handle api ev s = Some r"
  shows "(\<exists>P C. sound c n P C (final_state r)) \<and> loops (self (final_state r)) = loops (self s)"
proof (cases "ev = StatusTick")
  case True
  from StatusTick_run [OF s, of api] obtain s' where s': "handle api StatusTick s = Some (Returned () s')"
    "loops (self s') = loops (self s)" "\<exists>P C. sound c n P C s'" by blast
  from s'(1) True run have "final_state r = s'" by auto
  with s'(2,3) show ?thesis by simp
next
  case False
  from safe_finalD [OF handle_steady [OF False] run] s(1) show ?thesis
    by (auto simp: steady_def intro: sound_well)
qed

lemma reachable_sound:
  assumes "reachable api s0 ph s" and "sound c n [] [] s0" and "phase_ok Made (self s0)" and "0 < n"
  shows "(\<exists>P C. sound c n P C s) \<and> phase_ok ph (self s)"
  using assms(1)
proof induction
  case made
  with assms show ?case by blast
next
  case (begun s r)
  have "phase_ok Running (self s')" if "cm_Start api s = Some (Returned u s')" for u s'
    using that begun.IH gowp_ReturnedD [OF Start_loops that] gowp_ReturnedD [OF start_spec [OF reconciles_partly], OF _ _ _ that]
    by (auto simp: started_def start_loop_def eval_nat_numeral)
  with begun show ?case
    using safe_finalD [OF Start_well begun.hyps(2)] by (auto intro!: next_phase_cases intro: sound_well)
next
  case (served s ev r)
  then obtain P C where "sound c n P C s" "phase_ok Running (self s)" by blast
  note h = handle_sound [OF this(1) assms(4) served.hyps(2)]
  with \<open>phase_ok Running (self s)\<close> have "phase_ok Running (self (final_state r))"
    using phase_ok_steady by blast
  with h show ?case by (cases r) (simp_all add: next_phase_def del: phase_ok.simps(2))
next
  case (halted s r)
  have "phase_ok Stopped (self s')" if "cm_Stop api s = Some (Returned u s')" for u s'
    using gowp_ReturnedD [OF Stop_loops that] by simp
  with halted show ?case
    using safe_finalD [OF Stop_well halted.hyps(2)] by (auto intro!: next_phase_cases intro: sound_well)
qed

lemma fresh_sound:
  assumes "fresh_manager c config ss p q (self s)" and "NewStatusService c = Inr ss" and "agrees (world s)"
    and "sends (calls (world s)) = 0" and "0 < length (rb_buffer (producedRecordsSamples ss))"
  shows "sound c (length (rb_buffer (producedRecordsSamples ss))) [] [] s" "phase_ok Made (self s)"
proof -
  from assms(2) obtain r where r: "NewTimeWindowRing (StatusTimeWindow c) (StatusCheckInterval c) = Inr r"
    and ss: "producedRecordsSamples ss = r" "consumedRecordsSamples ss = r" "ss_canaryConfig ss = c" "ss_loop ss = (None, 0)"
    by (auto simp: NewStatusService_def bindE_Inr_iff)
  have "rings_ok ss (length (rb_buffer r)) [] []"
    using NewTimeWindowRing_ok [OF r] assms(5) by (simp add: rings_ok_def capacity_def ss)
  with assms ss show "sound c (length (rb_buffer (producedRecordsSamples ss))) [] [] s"
    by (auto simp: sound_def configured_def fresh_manager_def NewCanaryManager_def new_topic_service_def
        new_connection_service_def numbering_def int64_value_def)
  from assms ss show "phase_ok Made (self s)"
    by (auto simp: fresh_manager_def NewCanaryManager_def new_connection_service_def trio_def eval_nat_numeral)
qed


section \<open>Termination\<close>

text \<open>
  A handler ends, and of all crashes it can only exit because an admin client could not be closed, or panic
  when the group is set up while the channel \<open>ready\<close> is closed; a stop
  can also panic, on an admin client that is not there.
\<close>

definition handler_crash :: "service_event \<Rightarrow> consumer_service \<Rightarrow> crash \<Rightarrow> bool" where
  "handler_crash ev cs cr \<longleftrightarrow> (if ev = GroupSetUp then cs_ready cs = Closed \<and> cr = Panic CloseOfClosedChannel
     else cr = closing_failed)"

lemma claim_returns: "\<exists>s'. handle api (Claimed ms) s = Some (Returned () s')"
proof -
  have "gowp False (ConsumeClaim api ms) (\<lambda>_ _. True) (\<lambda>_ _. False) t" for t
    unfolding ConsumeClaim_def
    by (rule gowp_for_each) (auto simp: claim_message_def go_simps Let_def split: prod.splits)
  then have "gowp False (handle api (Claimed ms)) (\<lambda>_ _. True) (\<lambda>_ _. False) s" by (simp add: go_simps)
  from gowp_returns [OF this] show ?thesis by auto
qed

lemma handle_total:
  assumes "moves_settle api" "answers_topics api" and "sound c n P C s" "0 < n"
  shows "gowp False (handle api ev) (\<lambda>_ _. ev = GroupSetUp \<longrightarrow> cs_ready (cm_consumerService (self s)) = Open)
     (\<lambda>cr _. handler_crash ev (cm_consumerService (self s)) cr) s"
proof -
  have ends: "gowp False m (\<lambda>_ _. True) (\<lambda>cr _. cr = closing_failed) t"
    if "safe False (\<lambda>cr. cr = closing_failed) R m t" for m :: "('s, 'x) go" and R t
    using that unfolding safe_def by (rule gowp_mono) simp_all
  have other: ?thesis if "gowp False (handle api ev) (\<lambda>_ _. True) (\<lambda>cr _. cr = closing_failed) s" "ev \<noteq> GroupSetUp"
    using that by (simp add: handler_crash_def)
  show ?thesis
  proof (cases "ev = GroupSetUp")
    case True
    then show ?thesis by (simp add: Setup_def go_simps handler_crash_def split: channel.splits)
  next
    case False
    have "gowp False (handle api ev) (\<lambda>_ _. True) (\<lambda>cr _. cr = closing_failed) s"
  proof (cases ev)
    case ReconcileTick
    have round: "gowp False
       (andthen (whenever (RefreshProducerMetadata result) (on_producer (ps_Refresh api))) (\<lambda>_.
        andthen (on_consumer (cs_Leaders api)) (\<lambda>leaders.
        andthen (whenever (leaders_changed result leaders) (on_consumer (cs_Refresh api))) (\<lambda>_.
          on_producer (Send api (Assignments result))))))
       (\<lambda>_ _. True) (\<lambda>cr _. cr = closing_failed) t" for result t
      by (rule gowp_mono [OF round_spec]) simp_all
    show ?thesis
      unfolding ReconcileTick handle.simps cm_reconcile_def gowp_andthen [of _ "on_topic _"] gowp_on_field [of _ cm_topicService]
      by (rule gowp_mono [OF ends [OF reconcile_safe [OF assms(1,2)]]])
        (auto simp: gowp_ret split: option.splits intro: round)
  next
    case ConnectionTick
    then show ?thesis
      by (simp add: gowp_on_field) (rule ends [OF connectionCheck_safe], rule refl)
  next
    case StatusTick
    from StatusTick_run [OF assms(3,4), of api] show ?thesis by (auto simp: StatusTick gowp_def)
  next
    case GroupError
    then show ?thesis by (simp add: count_consumer_error_def go_simps)
  next
    case (Claimed ms)
    from claim_returns [of api ms s] show ?thesis by (auto simp: Claimed gowp_def)
  next
    case GroupCalled
    then show ?thesis by (simp add: call_group_def go_simps split: prod.splits)
  next
    case GroupSetUp
    with False show ?thesis by simp
  next
    case (CallEnded i err)
    then show ?thesis by (simp add: after_call_def go_simps split: prod.splits)
  qed
  from other [OF this False] show ?thesis .
  qed
qed

lemma handle_ok:
  assumes "moves_settle api" "answers_topics api" and "sound c n P C s" "0 < n"
  shows "gowp False (handle api ev) (\<lambda>_ s'. (\<exists>P C. sound c n P C s') \<and> loops (self s') = loops (self s))
     (\<lambda>cr _. cr = closing_failed \<or> ev = GroupSetUp \<and> cr = Panic CloseOfClosedChannel) s"
  using handle_total [OF assms, of ev] handle_sound [OF assms(3,4), of api ev]
  by (auto simp: gowp_def handler_crash_def split: option.splits outcome.splits if_splits)

lemma serve_total:
  assumes "moves_settle api" "answers_topics api" and "sound c n P C s" "0 < n"
  shows "gowp False (serve api evs) (\<lambda>_ s'. (\<exists>P C. sound c n P C s') \<and> loops (self s') = loops (self s))
     (\<lambda>cr _. cr = closing_failed \<or> GroupSetUp \<in> set evs \<and> cr = Panic CloseOfClosedChannel) s"
  unfolding serve_def
proof (rule gowp_for_each)
  show "(\<exists>P C. sound c n P C s) \<and> loops (self s) = loops (self s)" using assms(3) by blast
next
  fix ev and t :: "(canary_manager, 'a world) ctx"
  assume ev: "ev \<in> set evs"
  assume t: "(\<exists>P C. sound c n P C t) \<and> loops (self t) = loops (self s)"
  then obtain P C where sound: "sound c n P C t" by blast
  show "gowp False (handle api ev) (\<lambda>_ s'. (\<exists>P C. sound c n P C s') \<and> loops (self s') = loops (self s))
     (\<lambda>cr _. cr = closing_failed \<or> GroupSetUp \<in> set evs \<and> cr = Panic CloseOfClosedChannel) t"
    by (rule gowp_mono [OF handle_ok [OF assms(1,2) sound assms(4)]]) (use t ev in auto)
qed

definition stop_failures :: "string set" where
  "stop_failures = {''Error closing the Sarama sync producer'', ''Error closing the Sarama consumer'',
     ''Error closing the Sarama cluster admin''}"

lemma stop_total:
  assumes "phase_ok Running (self s)"
  shows "gowp False (cm_Stop api) (\<lambda>_ s'. phase_ok Stopped (self s'))
     (\<lambda>cr _. (\<exists>m\<in>stop_failures. cr = Fatal m)
        \<or> cr = Panic NilDereference \<and> cn_admin (cm_connectionService (self s)) = None) s"
  using assms
  by (auto simp: cm_Stop_def ps_Close_def cs_Close_def cs_cancel_call_def ts_Close_def cn_Close_def cn_close_admin_def
      ss_Close_def go_simps trio_def stop_loop_def stop_failures_def eval_nat_numeral split: prod.splits option.splits)

section \<open>Properties\<close>

text \<open>How the life begins: nothing sent, counters as the history has them, and rings with a bucket at least.\<close>

definition booted :: "canary_config \<Rightarrow> (canary_manager, 'e world) ctx \<Rightarrow> bool" where
  "booted c s \<longleftrightarrow> (\<exists>config ss p q. fresh_manager c config ss p q (self s) \<and> NewStatusService c = Inr ss
      \<and> 0 < length (rb_buffer (producedRecordsSamples ss)))
    \<and> agrees (world s) \<and> sends (calls (world s)) = 0"

abbreviation buckets :: "canary_manager \<Rightarrow> nat" where
  "buckets cm \<equiv> length (rb_buffer (producedRecordsSamples (cm_statusService cm)))"

lemma booted_sound:
  assumes "booted c s"
  shows "sound c (buckets (self s)) [] [] s \<and> phase_ok Made (self s) \<and> 0 < buckets (self s)"
proof -
  from assms obtain config ss p q where ss: "fresh_manager c config ss p q (self s)" "NewStatusService c = Inr ss"
    "0 < length (rb_buffer (producedRecordsSamples ss))" "agrees (world s)" "sends (calls (world s)) = 0"
    by (auto simp: booted_def)
  from fresh_sound [OF ss(1,2,4,5,3)] have "sound c (length (rb_buffer (producedRecordsSamples ss))) [] [] s"
    "phase_ok Made (self s)" by simp_all
  moreover have "cm_statusService (self s) = ss" using ss(1) by (auto simp: fresh_manager_def NewCanaryManager_def)
  ultimately show ?thesis using ss(3) by simp
qed

text \<open>
  C3: well-formedness of the running system. Whatever its goroutines have done, and in whatever order,
  every state that a manager reaches (also one a crash leaves) holds one configuration in all its
  parts, two rings in order with as many samples in each and a 64-bit message number. Between
  \<open>Start\<close> and \<open>Stop\<close> all three loops run, each with one goroutine, and the group was joined in one of
  the first four attempts; after \<open>Stop\<close> all three are closed and waited for.
\<close>

theorem system_well_formed:
  assumes "booted c s0" and "reachable api s0 ph s"
  shows "configured c (self s)
     \<and> ring_ok (producedRecordsSamples (cm_statusService (self s)))
     \<and> ring_ok (consumedRecordsSamples (cm_statusService (self s)))
     \<and> (\<exists>P C. rings_ok (cm_statusService (self s)) (buckets (self s0)) P C)
     \<and> int64_value (ps_index (cm_producerService (self s)))
     \<and> (case ph of
          Made \<Rightarrow> trio (self s) = replicate 3 (None, 0)
        | Running \<Rightarrow> trio (self s) = replicate 3 (Some OpenChan, 1)
            \<and> (\<exists>k\<le>3. cs_cancel (cm_consumerService (self s)) = Some k)
        | Stopped \<Rightarrow> trio (self s) = replicate 3 (Some ClosedChan, 0)
        | Exited \<Rightarrow> True)"
proof -
  from booted_sound [OF assms(1)] reachable_sound [OF assms(2)] obtain P C where
    s: "sound c (buckets (self s0)) P C s" and ph: "phase_ok ph (self s)" by blast
  from s show ?thesis using ph
    by (cases ph) (auto simp: sound_def rings_ok_def)
qed

text \<open>
  C4: the counters tell the history. In every reachable state, the counter of produced records is the
  number of messages the process has asked the cluster to store, that of consumed records the number of
  messages it has marked (both modulo 2^64), and the number that the last message carried is the first of
  them as a 64-bit integer: no handler loses or repeats a count, also when it fails.
\<close>

theorem counters_match_history:
  assumes "booted c s0" and "reachable api s0 ph s"
  shows "RecordsProducedCounter (world s) = of_nat (sends (calls (world s)))
     \<and> RecordsConsumedCounter (world s) = of_nat (marks (calls (world s)))
     \<and> ps_index (cm_producerService (self s)) = int64 (int (sends (calls (world s))))"
proof -
  from booted_sound [OF assms(1)] reachable_sound [OF assms(2)] obtain P C where
    s: "sound c (buckets (self s0)) P C s" by blast
  from s sound_index [OF s] show ?thesis by (simp add: sound_def agrees_def)
qed

text \<open>
  The configurations whose metrics can be given values: a histogram panics when its first value is observed if two of its
  buckets in a row do not increase or a constant label is named \<open>le\<close>, and every metric does if the value of a
  label is not UTF-8, of which ASCII is the part taken here. \<open>latencyBuckets\<close> accepts any list of floats.
  \<open>metric_observe\<close> and its like do not model these panics, so that what is said to never panic is said for
  these configurations.
\<close>

fun not_below :: "go_float \<Rightarrow> go_float \<Rightarrow> bool" where
  "not_below (Finite x) (Finite y) \<longleftrightarrow> y \<le> x"
| "not_below NaN _ \<longleftrightarrow> False"
| "not_below _ NaN \<longleftrightarrow> False"
| "not_below PosInf _ \<longleftrightarrow> True"
| "not_below _ NegInf \<longleftrightarrow> True"
| "not_below _ _ \<longleftrightarrow> False"

definition observable :: "canary_config \<Rightarrow> bool" where
  "observable c \<longleftrightarrow> (\<forall>bs\<in>{ProducerLatencyBuckets c, EndToEndLatencyBuckets c, ConnectionCheckLatencyBuckets c}.
       successively (\<lambda>x y. \<not> not_below x y) bs)
     \<and> (case PrometheusConstantLabels c of None \<Rightarrow> True | Some ls \<Rightarrow> ''le'' \<notin> set (map fst ls))
     \<and> ascii (ClientID c) \<and> ascii (Topic c)"

text \<open>
  C15: a running system goes on. If waits for reassignments settle and describe requests are answered for the
  topic asked, and the configuration is observable, every handler ends in every reachable state between \<open>Start\<close> and \<open>Stop\<close>, whatever the cluster
  answers. The one that sets the group up panics exactly when the channel \<open>ready\<close> is closed at that moment; all
  others return, or exit the process because an admin client cannot be closed, and never panic. \<open>Stop\<close> ends there too, and
  panics only if the connection check has no admin client at that moment.
\<close>

theorem handlers_end:
  assumes "booted c s0" and "reachable api s0 Running s" and "moves_settle api" and "answers_topics api" and "observable c"
  shows "(\<forall>ev. ev \<noteq> GroupSetUp \<longrightarrow> (\<exists>s'. handle api ev s = Some (Returned () s'))
       \<or> (\<exists>s'. handle api ev s = Some (Crashed (Fatal ''Error closing the Sarama cluster admin'') s')))
     \<and> (\<exists>s'. handle api GroupSetUp s = Some (if cs_ready (cm_consumerService (self s)) = Open
          then Returned () s' else Crashed (Panic CloseOfClosedChannel) s'))
     \<and> (\<exists>r. cm_Stop api s = Some r \<and> (\<forall>p s'. r = Crashed (Panic p) s' \<longrightarrow>
          p = NilDereference \<and> cn_admin (cm_connectionService (self s)) = None))"
proof -
  from booted_sound [OF assms(1)] have n: "0 < buckets (self s0)" by simp
  from booted_sound [OF assms(1)] reachable_sound [OF assms(2)] obtain P C where
    s: "sound c (buckets (self s0)) P C s" and ph: "phase_ok Running (self s)" by blast
  have "(\<exists>s'. handle api ev s = Some (Returned () s'))
       \<or> (\<exists>s'. handle api ev s = Some (Crashed (Fatal ''Error closing the Sarama cluster admin'') s'))" if "ev \<noteq> GroupSetUp" for ev
    using gowp_outcome [OF handle_total [OF assms(3,4) s n, of ev]] that by (auto simp: handler_crash_def)
  moreover have "\<exists>s'. handle api GroupSetUp s = Some (if cs_ready (cm_consumerService (self s)) = Open
          then Returned () s' else Crashed (Panic CloseOfClosedChannel) s')"
    using gowp_outcome [OF handle_total [OF assms(3,4) s n, of GroupSetUp]] by (auto simp: handler_crash_def)
  moreover have "\<exists>r. cm_Stop api s = Some r \<and> (\<forall>p s'. r = Crashed (Panic p) s' \<longrightarrow>
          p = NilDereference \<and> cn_admin (cm_connectionService (self s)) = None)"
    using gowp_outcome [OF stop_total [OF ph, of api]] by auto
  ultimately show ?thesis by blast
qed

text \<open>The worlds in which a run of handlers takes its samples.\<close>

fun sampled_worlds :: "'e externals \<Rightarrow> service_event list \<Rightarrow> (canary_manager, 'e world) ctx \<Rightarrow> 'e world list" where
  "sampled_worlds api [] s = []"
| "sampled_worlds api (ev # evs) s = (if ev = StatusTick then [world s] else [])
     @ (case handle api ev s of Some (Returned u s') \<Rightarrow> sampled_worlds api evs s' | _ \<Rightarrow> [])"

lemma handle_tallied:
  assumes "sound c n P C s" "0 < n" and "handle api ev s = Some (Returned u s')"
  shows "tallied (\<lambda>_. True) (world s) (world s')"
proof (cases "ev = StatusTick")
  case True
  from StatusTick_run [OF assms(1,2), of api] assms(3) True show ?thesis by auto
next
  case False
  from safe_returnedD [OF handle_steady [OF False] assms(3)] show ?thesis by (simp add: steady_def well_def)
qed

lemma sound_tick:
  assumes "sound c n P C s" "0 < n" and "handle api ev s = Some (Returned u s')"
    and "ws = (if ev = StatusTick then [world s] else [])"
  shows "sound c n (P @ map RecordsProducedCounter ws) (C @ map RecordsConsumedCounter ws) s'"
proof (cases "ev = StatusTick")
  case True
  from StatusTick_run [OF assms(1,2), of api] assms(3,4) True show ?thesis by auto
next
  case False
  from safe_returnedD [OF handle_steady [OF False] assms(3)] assms(1,4) False show ?thesis
    by (auto simp: steady_def intro: sound_well)
qed

lemma serve_samples:
  "sound c n P C s \<Longrightarrow> 0 < n \<Longrightarrow> serve api evs s = Some (Returned u s') \<Longrightarrow> ws = sampled_worlds api evs s \<Longrightarrow>
     sound c n (P @ map RecordsProducedCounter ws) (C @ map RecordsConsumedCounter ws) s'
     \<and> sorted_wrt (tallied (\<lambda>_. True)) (world s # ws) \<and> length ws = count_list evs StatusTick"
proof (induction evs arbitrary: s P C ws)
  case Nil
  then show ?case by (simp add: serve_def returned_iffs)
next
  case (Cons ev evs)
  then obtain s1 where s1: "handle api ev s = Some (Returned () s1)" "serve api evs s1 = Some (Returned u s')"
    by (auto simp: serve_def returned_iffs)
  let ?w = "if ev = StatusTick then [world s] else []"
  let ?vs = "sampled_worlds api evs s1"
  have ws: "ws = ?w @ ?vs" using Cons.prems(4) s1(1) by simp
  from Cons.IH [OF sound_tick [OF Cons.prems(1,2) s1(1) refl] Cons.prems(2) s1(2) refl]
  have IH: "sound c n ((P @ map RecordsProducedCounter ?w) @ map RecordsProducedCounter ?vs)
        ((C @ map RecordsConsumedCounter ?w) @ map RecordsConsumedCounter ?vs) s'"
    "sorted_wrt (tallied (\<lambda>_. True)) (world s1 # ?vs)" "length ?vs = count_list evs StatusTick" by blast+
  have "tallied (\<lambda>_. True) (world s) v" if "v \<in> set ?vs" for v
    by (rule tallied_trans [OF handle_tallied [OF Cons.prems(1,2) s1(1)]]) (use that IH(2) in simp)
  with IH show ?case by (simp add: ws)
qed

text \<open>
  C12: what the status page says of a run. After a start and any sequence of handlers in which the status
  was checked at least once, the page reports on the samples kept, \<open>k\<close> of them: its
  percentage is that of the messages marked among the messages asked to be stored between the oldest of
  these checks and the newest, counted in the history of requests, or -1 when none was stored.
\<close>

theorem status_of_run:
  assumes "booted c s0" and "cm_Start api s0 = Some (Returned () s1)" and "serve api evs s1 = Some (Returned () s2)"
    and ws: "ws = sampled_worlds api evs s1" and tick: "StatusTick \<in> set evs"
    and k: "k = min (buckets (self s0)) (count_list evs StatusTick)"
  shows "\<exists>between. calls (last ws) = calls (ws ! (length ws - k)) @ between
     \<and> consuming_report (cm_statusService (self s2)) = Inr \<lparr>TimeWindow = int64 (StatusCheckInterval c * int k),
          Percentage = (if (of_nat (sends between) :: u64) = 0 then -1
            else percentage (of_nat (marks between)) (of_nat (sends between)))\<rparr>"
proof -
  let ?n = "buckets (self s0)"
  from booted_sound [OF assms(1)] have s0: "sound c ?n [] [] s0" and n: "0 < ?n" by simp_all
  from safe_returnedD [OF Start_well assms(2)] s0 have s1: "sound c ?n [] [] s1" by (blast intro: sound_well)
  from serve_samples [OF s1 n assms(3) ws]
  have s2: "sound c ?n (map RecordsProducedCounter ws) (map RecordsConsumedCounter ws) s2"
    and sorted: "sorted_wrt (tallied (\<lambda>_. True)) (world s1 # ws)" and len: "length ws = count_list evs StatusTick"
    by simp_all
  have "count_list evs StatusTick \<noteq> 0" using tick by (simp add: count_list_0_iff)
  then have ne: "ws \<noteq> []" and i: "length ws - k < length ws" using len k n by auto
  let ?v = "ws ! (length ws - k)"
  have "tallied (\<lambda>_. True) ?v (last ws)"
  proof (cases "length ws - k = length ws - 1")
    case True
    then show ?thesis using ne by (simp add: last_conv_nth)
  next
    case False
    with i sorted_wrt_nth_less [of "tallied (\<lambda>_. True)" ws "length ws - k" "length ws - 1"] sorted show ?thesis
      by (simp add: last_conv_nth [OF ne])
  qed
  then obtain cs where cs: "calls (last ws) = calls ?v @ cs"
    "RecordsProducedCounter (last ws) - RecordsProducedCounter ?v = of_nat (sends cs)"
    "RecordsConsumedCounter (last ws) - RecordsConsumedCounter ?v = of_nat (marks cs)"
    by (auto simp: tallied_def)
  from s2 have ok: "rings_ok (cm_statusService (self s2)) ?n (map RecordsProducedCounter ws) (map RecordsConsumedCounter ws)"
    and cfg: "ss_canaryConfig (cm_statusService (self s2)) = c" by (simp_all add: sound_def configured_def)
  have "k = min ?n (length (map RecordsProducedCounter ws))" by (simp add: k len)
  from report_of_rings [OF ok n this] ne i cs(2,3) cfg
  have "consuming_report (cm_statusService (self s2)) = Inr \<lparr>TimeWindow = int64 (StatusCheckInterval c * int k),
          Percentage = (if (of_nat (sends cs) :: u64) = 0 then -1
            else percentage (of_nat (marks cs)) (of_nat (sends cs)))\<rparr>"
    by (simp add: last_map)
  with cs(1) show ?thesis by blast
qed


section \<open>Witnesses on the simulated cluster\<close>

lemma sample_booted: "booted sample_config \<lparr>self = sample_cm sample_config, world = start_world e\<rparr>"
proof -
  obtain ss where ss: "NewStatusService sample_config = Inr ss" "0 < length (rb_buffer (producedRecordsSamples ss))"
    by (simp add: NewStatusService_def NewTimeWindowRing_pos sample_config_def)
  then have "cm_statusService (sample_cm sample_config) = ss"
    by (simp add: sample_cm_def NewCanaryManager_def)
  then have "fresh_manager sample_config sample_sarama ss 9 9 (sample_cm sample_config)"
    by (auto simp: fresh_manager_def sample_cm_def NewCanaryManager_def)
  with ss show ?thesis by (auto simp: booted_def agrees_def start_world_def)
qed

lemma reachable_start: "cm_Start api s0 = Some (Returned u s) \<Longrightarrow> reachable api s0 Running s"
  using begun [OF made, of api s0 "Returned u s"] by (simp add: next_phase_def)

lemma reachable_serve: "reachable api s0 Running s \<Longrightarrow> serve api evs s = Some (Returned u s') \<Longrightarrow> reachable api s0 Running s'"
proof (induction evs arbitrary: s)
  case (Cons ev evs)
  then obtain t where t: "handle api ev s = Some (Returned () t)" "serve api evs t = Some (Returned u s')"
    by (auto simp: serve_def returned_iffs)
  from served [OF Cons.prems(1) t(1)] have "reachable api s0 Running t" by (simp add: next_phase_def)
  from Cons.IH [OF this t(2)] show ?case .
qed (simp add: serve_def returned_iffs)

text \<open>A run: the start, a check, the messages of a claim, another check.\<close>

lemma sample_run:
  assumes "s0 = \<lparr>self = sample_cm sample_config, world = start_world one_broker\<rparr>"
  shows "\<exists>s1 s2. cm_Start sim_api s0 = Some (Returned () s1)
     \<and> serve sim_api [StatusTick, Claimed ms, StatusTick] s1 = Some (Returned () s2) \<and> reachable sim_api s0 Running s2"
proof -
  note s0 = booted_sound [OF sample_booted [of one_broker], folded assms]
  from sim_starts [of "start_world one_broker"] assms obtain s1 where s1: "cm_Start sim_api s0 = Some (Returned () s1)"
    by (auto simp: start_world_def)
  from safe_returnedD [OF Start_well s1] s0 have "sound sample_config (buckets (self s0)) [] [] s1" by (blast intro: sound_well)
  from StatusTick_run [OF this] s0 obtain P C t1 where t1: "handle sim_api StatusTick s1 = Some (Returned () t1)"
    "sound sample_config (buckets (self s0)) P C t1" by blast
  from claim_returns obtain t2 where t2: "handle sim_api (Claimed ms) t1 = Some (Returned () t2)" by blast
  from sound_tick [OF t1(2) _ t2 refl] s0 obtain P C where "sound sample_config (buckets (self s0)) P C t2" by auto
  from StatusTick_run [OF this] s0 obtain s2 where s2: "handle sim_api StatusTick t2 = Some (Returned () s2)" by blast
  have "serve sim_api [StatusTick, Claimed ms, StatusTick] s1 = Some (Returned () s2)"
    using t1(1) t2 s2 by (simp add: serve_def andthen_def ret_def)
  moreover from this have "reachable sim_api s0 Running s2"
    by (rule reachable_serve [OF reachable_start [OF s1]])
  ultimately show ?thesis using s1 by blast
qed

theorem system_well_formed_witness:
  "\<exists>s. reachable sim_api \<lparr>self = sample_cm sample_config, world = start_world one_broker\<rparr> Running s
     \<and> configured sample_config (self s) \<and> trio (self s) = replicate 3 (Some OpenChan, 1)"
proof -
  from sample_run [OF refl] obtain s where
    s: "reachable sim_api \<lparr>self = sample_cm sample_config, world = start_world one_broker\<rparr> Running s" by blast
  from system_well_formed [OF sample_booted s] s show ?thesis by auto
qed

theorem counters_match_history_witness:
  "\<exists>s. reachable sim_api \<lparr>self = sample_cm sample_config, world = start_world one_broker\<rparr> Running s
     \<and> RecordsConsumedCounter (world s) = of_nat (marks (calls (world s)))"
proof -
  from sample_run [OF refl] obtain s where
    s: "reachable sim_api \<lparr>self = sample_cm sample_config, world = start_world one_broker\<rparr> Running s" by blast
  from counters_match_history [OF sample_booted s] s show ?thesis by auto
qed

lemma sample_observable: "observable sample_config"
  by (simp add: observable_def sample_config_def ascii_def byte_def)

theorem handlers_end_witness:
  "\<exists>s r. reachable sim_api \<lparr>self = sample_cm sample_config, world = start_world one_broker\<rparr> Running s
     \<and> handle sim_api ReconcileTick s = Some r \<and> (\<forall>p s'. r \<noteq> Crashed (Panic p) s')"
proof -
  from sample_run [OF refl] obtain s where
    s: "reachable sim_api \<lparr>self = sample_cm sample_config, world = start_world one_broker\<rparr> Running s" by blast
  from handlers_end [OF sample_booted s sim_settles sim_answers sample_observable] s show ?thesis by fastforce
qed

theorem status_of_run_witness:
  "\<forall>msg. \<exists>s1 s2 between. cm_Start sim_api \<lparr>self = sample_cm sample_config, world = start_world one_broker\<rparr> = Some (Returned () s1)
     \<and> serve sim_api [StatusTick, Claimed [msg], StatusTick] s1 = Some (Returned () s2)
     \<and> consuming_report (cm_statusService (self s2)) = Inr \<lparr>TimeWindow = 60000, Percentage =
         (if (of_nat (sends between) :: u64) = 0 then -1 else percentage (of_nat (marks between)) (of_nat (sends between)))\<rparr>"
proof
  fix msg
  let ?s0 = "\<lparr>self = sample_cm sample_config, world = start_world one_broker\<rparr>"
  let ?evs = "[StatusTick, Claimed [msg], StatusTick]"
  from sample_run [OF refl] obtain s1 s2 where run: "cm_Start sim_api ?s0 = Some (Returned () s1)"
    "serve sim_api ?evs s1 = Some (Returned () s2)" by blast
  have "buckets (self ?s0) = 10"
    by (simp add: sample_cm_def NewCanaryManager_def NewStatusService_def NewTimeWindowRing_pos sample_config_def)
  then have k: "2 = min (buckets (self ?s0)) (count_list ?evs StatusTick)" by simp
  from status_of_run [OF sample_booted run refl _ k] run
  show "\<exists>s1 s2 between. cm_Start sim_api ?s0 = Some (Returned () s1) \<and> serve sim_api ?evs s1 = Some (Returned () s2)
     \<and> consuming_report (cm_statusService (self s2)) = Inr \<lparr>TimeWindow = 60000, Percentage =
         (if (of_nat (sends between) :: u64) = 0 then -1 else percentage (of_nat (marks between)) (of_nat (sends between)))\<rparr>"
    by (auto simp: sample_config_def)
qed

end
