(* ===== verification/Security.thy ===== *)
theory Security
  imports Simulated_Cluster
begin

text \<open>
  TLS, SASL and the SCRAM client, \<open>internal/security\<close>. The file system, the parsing of PEM blocks and
  key pairs, the constants of Sarama and the SCRAM library are arguments: records of functions
  and values of which nothing is known.
\<close>

section \<open>TLS\<close>

text \<open>
  Files that exist (\<open>os.Stat\<close> reports no error), their contents, whether a system pool can be
  loaded, whether \<open>AppendCertsFromPEM\<close> finds a certificate, and the pairing of certificate and key.
\<close>

record tls_library =
  x_Stat :: "string \<Rightarrow> bool"
  x_ReadFile :: "string \<Rightarrow> goerror + string"
  x_SystemCertPool :: bool
  x_ValidPEM :: "string \<Rightarrow> bool"
  x_X509KeyPair :: "string \<Rightarrow> string \<Rightarrow> goerror option"

definition loadCertKey :: "tls_library \<Rightarrow> string \<Rightarrow> goerror + string" where
  "loadCertKey lib v = (if x_Stat lib v then x_ReadFile lib v else Inr v)"

text \<open>\<open>AppendCertsFromPEM\<close>: the pool with the certificates, and whether there were any.\<close>

definition append_certs :: "tls_library \<Rightarrow> cert_pool option \<Rightarrow> string \<Rightarrow> cert_pool option" where
  "append_certs lib pool pem = (if x_ValidPEM lib pem
     then Some (case pool of None \<Rightarrow> CertPool False [pem] | Some (CertPool b ps) \<Rightarrow> CertPool b (ps @ [pem]))
     else None)"

text \<open>The root certificates: the three ways in which the code sets them or returns early.\<close>

definition root_cas :: "tls_library \<Rightarrow> canary_config \<Rightarrow> (goerror option) + cert_pool option" where
  "root_cas lib c =
     (let pool = (if x_SystemCertPool lib then Some (CertPool True []) else None) in
      if TLSCACert c = '''' then Inr pool
      else (case loadCertKey lib (TLSCACert c) of
          Inl err \<Rightarrow> Inl (Some err)
        | Inr caCert \<Rightarrow>
            (case append_certs lib pool caCert of None \<Rightarrow> Inl None | Some pool' \<Rightarrow> Inr (Some pool'))))"

definition client_certificates :: "tls_library \<Rightarrow> canary_config \<Rightarrow> goerror + (string \<times> string) list" where
  "client_certificates lib c =
     (if TLSClientCert c \<noteq> '''' \<and> TLSClientKey c \<noteq> '''' then
        bindE (loadCertKey lib (TLSClientCert c)) (\<lambda>clientCert.
        bindE (loadCertKey lib (TLSClientKey c)) (\<lambda>clientKey.
          case x_X509KeyPair lib clientCert clientKey of
            Some err \<Rightarrow> Inl err
          | None \<Rightarrow> Inr [(clientCert, clientKey)]))
      else Inr [])"

text \<open>The two results of the function: the configuration, nil when absent, and the error.\<close>

definition NewTLSConfig :: "tls_library \<Rightarrow> canary_config \<Rightarrow> tls_config option \<times> goerror option" where
  "NewTLSConfig lib c = (case root_cas lib c of
       Inl err \<Rightarrow> (None, err)
     | Inr pool \<Rightarrow> (case client_certificates lib c of
           Inl err \<Rightarrow> (None, Some err)
         | Inr certs \<Rightarrow> (Some \<lparr>tls_RootCAs = pool, tls_Certificates = certs,
                               tls_InsecureSkipVerify = TLSInsecureSkipVerify c\<rparr>, None)))"

section \<open>SASL\<close>

record sasl_constants =
  SASLTypePlaintext :: string
  SASLTypeSCRAMSHA256 :: string
  SASLTypeSCRAMSHA512 :: string
  SASLHandshakeV1 :: nat

definition SetAuthConfig ::
  "sasl_constants \<Rightarrow> canary_config \<Rightarrow> sarama_config \<Rightarrow> goerror option \<times> sarama_config" where
  "SetAuthConfig k c sc =
     (if SASLMechanism c = SASLTypePlaintext k \<or> SASLMechanism c = SASLTypeSCRAMSHA256 k
         \<or> SASLMechanism c = SASLTypeSCRAMSHA512 k then
        if SASLUser c = '''' then (Some (NewError ''SASL user must be specified''), sc)
        else if SASLPassword c = '''' then (Some (NewError ''SASL password must be specified''), sc)
        else
          (let sasl = (sc_SASL sc)\<lparr>sasl_Enable := True, sasl_Version := SASLHandshakeV1 k,
                 sasl_Mechanism := SASLMechanism c, sasl_User := SASLUser c, sasl_Password := SASLPassword c\<rparr>;
               sasl' = (if SASLMechanism c = SASLTypeSCRAMSHA256 k then sasl\<lparr>sasl_SCRAM := Some SHA256\<rparr>
                        else if SASLMechanism c = SASLTypeSCRAMSHA512 k then sasl\<lparr>sasl_SCRAM := Some SHA512\<rparr>
                        else sasl)
           in (None, sc\<lparr>sc_SASL := sasl'\<rparr>))
      else (Some (NewError (''SASL mechanism '' @ SASLMechanism c @ '' is not supported'')), sc))"

section \<open>The SCRAM client\<close>

text \<open>\<open>'cl\<close> and \<open>'cv\<close> are the client and the conversation of the SCRAM library.\<close>

record ('cl, 'cv) scram_library =
  x_ScramNewClient :: "scram_hash \<Rightarrow> string \<Rightarrow> string \<Rightarrow> string \<Rightarrow> goerror + 'cl"
  x_NewConversation :: "'cl \<Rightarrow> 'cv"
  x_ScramStep :: "'cv \<Rightarrow> string \<Rightarrow> (string \<times> goerror option) \<times> 'cv"

record ('cl, 'cv) canary_scram =
  Client :: "'cl option"
  ClientConversation :: "'cv option"
  HashGeneratorFcn :: scram_hash

definition scram_generator :: "scram_hash \<Rightarrow> ('cl, 'cv) canary_scram" where
  "scram_generator h = \<lparr>Client = None, ClientConversation = None, HashGeneratorFcn = h\<rparr>"

text \<open>A failed \<open>Begin\<close> has assigned the nil client already; the old conversation stays.\<close>

definition Begin :: "('cl, 'cv) scram_library \<Rightarrow> string \<Rightarrow> string \<Rightarrow> string \<Rightarrow> ('cl, 'cv) canary_scram
    \<Rightarrow> goerror option \<times> ('cl, 'cv) canary_scram" where
  "Begin lib username password authzID sc =
     (case x_ScramNewClient lib (HashGeneratorFcn sc) username password authzID of
        Inl err \<Rightarrow> (Some err, sc\<lparr>Client := None\<rparr>)
      | Inr client \<Rightarrow> (None, sc\<lparr>Client := Some client, ClientConversation := Some (x_NewConversation lib client)\<rparr>))"

definition Step :: "('cl, 'cv) scram_library \<Rightarrow> string \<Rightarrow> ('cl, 'cv) canary_scram
    \<Rightarrow> gopanic + (string \<times> goerror option) \<times> ('cl, 'cv) canary_scram" where
  "Step lib challenge sc = (case ClientConversation sc of
       None \<Rightarrow> Inl NilDereference
     | Some cv \<Rightarrow> (case x_ScramStep lib cv challenge of
           (r, cv') \<Rightarrow> Inr (r, sc\<lparr>ClientConversation := Some cv'\<rparr>)))"

section \<open>Properties\<close>

text \<open>The CA setting can be used: it is absent, or it loads and holds a certificate.\<close>

definition ca_loads :: "tls_library \<Rightarrow> canary_config \<Rightarrow> (string \<Rightarrow> bool) \<Rightarrow> bool" where
  "ca_loads lib c P = (case loadCertKey lib (TLSCACert c) of Inl _ \<Rightarrow> False | Inr pem \<Rightarrow> P pem)"

definition has_client_pair :: "canary_config \<Rightarrow> bool" where
  "has_client_pair c \<longleftrightarrow> TLSClientCert c \<noteq> '''' \<and> TLSClientKey c \<noteq> ''''"

text \<open>What a configuration trusts and carries, and the errors of the client pair, the first of them that occurs.\<close>

definition trusts :: "tls_library \<Rightarrow> canary_config \<Rightarrow> cert_pool option \<Rightarrow> bool" where
  "trusts lib c pool \<longleftrightarrow>
     (if TLSCACert c = '''' then pool = (if x_SystemCertPool lib then Some (CertPool True []) else None)
      else \<exists>pem. loadCertKey lib (TLSCACert c) = Inr pem \<and> x_ValidPEM lib pem \<and> pool = Some (CertPool (x_SystemCertPool lib) [pem]))"

definition carries :: "tls_library \<Rightarrow> canary_config \<Rightarrow> (string \<times> string) list \<Rightarrow> bool" where
  "carries lib c certs \<longleftrightarrow>
     (if has_client_pair c then \<exists>cert key. loadCertKey lib (TLSClientCert c) = Inr cert
        \<and> loadCertKey lib (TLSClientKey c) = Inr key \<and> x_X509KeyPair lib cert key = None \<and> certs = [(cert, key)]
      else certs = [])"

definition pair_fails :: "tls_library \<Rightarrow> canary_config \<Rightarrow> goerror \<Rightarrow> bool" where
  "pair_fails lib c err \<longleftrightarrow> has_client_pair c \<and> (case loadCertKey lib (TLSClientCert c) of
       Inl e \<Rightarrow> err = e
     | Inr cert \<Rightarrow> (case loadCertKey lib (TLSClientKey c) of
           Inl e \<Rightarrow> err = e
         | Inr key \<Rightarrow> x_X509KeyPair lib cert key = Some err))"

lemma root_cas_iffs:
  "root_cas lib c = Inr pool \<longleftrightarrow> trusts lib c pool"
  "root_cas lib c = Inl (Some err) \<longleftrightarrow> TLSCACert c \<noteq> '''' \<and> loadCertKey lib (TLSCACert c) = Inl err"
  by (auto simp: root_cas_def trusts_def append_certs_def Let_def split: sum.splits)

lemma root_cas_silent:
  "root_cas lib c = Inl None \<longleftrightarrow> TLSCACert c \<noteq> '''' \<and> ca_loads lib c (\<lambda>pem. \<not> x_ValidPEM lib pem)"
  by (auto simp: root_cas_def ca_loads_def append_certs_def Let_def split: sum.splits)

lemma client_certificates_iffs:
  "client_certificates lib c = Inr certs \<longleftrightarrow> carries lib c certs"
  "client_certificates lib c = Inl err \<longleftrightarrow> pair_fails lib c err"
  by (auto simp: client_certificates_def carries_def pair_fails_def has_client_pair_def bindE_def split: sum.splits option.splits)

text \<open>
  C36: the outcomes of the TLS settings. The configuration \<open>cfg\<close> is built exactly when it trusts the system pool if no CA is
  set, and else the CA, which loads and holds a certificate, added to the system pool if there is one; carries the client pair
  when both its parts are set, which then load and match, and no pair otherwise; and skips the verification as configured.
  The error \<open>err\<close> is returned exactly when it is that of loading the CA, or, with a CA that is absent or
  valid, the first error of loading the client certificate, loading its key and matching them. When the CA loads
  but holds no certificate, and only then, neither a configuration nor an error is returned; both never are.
\<close>

theorem tls_outcomes:
  "(NewTLSConfig lib c = (Some cfg, None) \<longleftrightarrow> trusts lib c (tls_RootCAs cfg) \<and> carries lib c (tls_Certificates cfg)
        \<and> tls_InsecureSkipVerify cfg = TLSInsecureSkipVerify c)
   \<and> (NewTLSConfig lib c = (None, Some err) \<longleftrightarrow> TLSCACert c \<noteq> '''' \<and> loadCertKey lib (TLSCACert c) = Inl err
        \<or> (\<exists>pool. trusts lib c pool) \<and> pair_fails lib c err)
   \<and> (NewTLSConfig lib c = (None, None) \<longleftrightarrow> TLSCACert c \<noteq> '''' \<and> ca_loads lib c (\<lambda>pem. \<not> x_ValidPEM lib pem))
   \<and> (fst (NewTLSConfig lib c) = None \<or> snd (NewTLSConfig lib c) = None)"
proof (intro conjI)
  show "NewTLSConfig lib c = (Some cfg, None) \<longleftrightarrow> trusts lib c (tls_RootCAs cfg) \<and> carries lib c (tls_Certificates cfg)
      \<and> tls_InsecureSkipVerify cfg = TLSInsecureSkipVerify c"
    unfolding root_cas_iffs [symmetric] client_certificates_iffs [symmetric]
    by (cases cfg) (auto simp: NewTLSConfig_def split: sum.splits)
  show "NewTLSConfig lib c = (None, Some err) \<longleftrightarrow> TLSCACert c \<noteq> '''' \<and> loadCertKey lib (TLSCACert c) = Inl err
      \<or> (\<exists>pool. trusts lib c pool) \<and> pair_fails lib c err"
    unfolding root_cas_iffs [symmetric] client_certificates_iffs [symmetric]
    by (auto simp: NewTLSConfig_def split: sum.splits)
  show "NewTLSConfig lib c = (None, None) \<longleftrightarrow> TLSCACert c \<noteq> '''' \<and> ca_loads lib c (\<lambda>pem. \<not> x_ValidPEM lib pem)"
    unfolding root_cas_silent [symmetric] by (auto simp: NewTLSConfig_def split: sum.splits)
  show "fst (NewTLSConfig lib c) = None \<or> snd (NewTLSConfig lib c) = None"
    by (auto simp: NewTLSConfig_def split: sum.splits)
qed

text \<open>A library on which the first CA holds a certificate and the second does not.\<close>

definition sample_tls :: tls_library where
  "sample_tls = \<lparr>x_Stat = (\<lambda>f. f = ''/ca.crt''), x_ReadFile = (\<lambda>f. Inr ''PEM''), x_SystemCertPool = True,
     x_ValidPEM = (\<lambda>pem. pem = ''PEM''), x_X509KeyPair = (\<lambda>cert key. if cert = key then None else Some (NewError ''mismatch''))\<rparr>"

theorem tls_outcomes_witness:
  "NewTLSConfig sample_tls (sample_config\<lparr>TLSCACert := ''/ca.crt''\<rparr>)
     = (Some \<lparr>tls_RootCAs = Some (CertPool True [''PEM'']), tls_Certificates = [], tls_InsecureSkipVerify = False\<rparr>, None)
   \<and> NewTLSConfig sample_tls (sample_config\<lparr>TLSCACert := ''garbage''\<rparr>) = (None, None)
   \<and> NewTLSConfig sample_tls (sample_config\<lparr>TLSClientCert := ''one'', TLSClientKey := ''other''\<rparr>) = (None, Some (NewError ''mismatch''))"
  using tls_outcomes [of sample_tls "sample_config\<lparr>TLSCACert := ''/ca.crt''\<rparr>"
      "\<lparr>tls_RootCAs = Some (CertPool True [''PEM'']), tls_Certificates = [], tls_InsecureSkipVerify = False\<rparr>"]
    tls_outcomes [of sample_tls "sample_config\<lparr>TLSCACert := ''garbage''\<rparr>"]
    tls_outcomes [of sample_tls "sample_config\<lparr>TLSClientCert := ''one'', TLSClientKey := ''other''\<rparr>" _ "NewError ''mismatch''"]
  by (simp add: ca_loads_def trusts_def carries_def pair_fails_def has_client_pair_def sample_tls_def loadCertKey_def sample_config_def)

text \<open>
  SASL settings. Authentication is set up exactly for the three supported mechanisms with a
  user and a password; then it is enabled with these and the SCRAM client gets the hash of the
  mechanism. Otherwise an error is reported and the Sarama configuration is left as it was. The
  constants of the library are only assumed to be different.
\<close>

theorem sasl_outcomes:
  assumes "distinct [SASLTypePlaintext k, SASLTypeSCRAMSHA256 k, SASLTypeSCRAMSHA512 k]"
    and "supported \<longleftrightarrow> SASLMechanism c \<in> {SASLTypePlaintext k, SASLTypeSCRAMSHA256 k, SASLTypeSCRAMSHA512 k}
           \<and> SASLUser c \<noteq> '''' \<and> SASLPassword c \<noteq> ''''"
    and "set_up = \<lparr>sasl_Enable = True, sasl_Version = SASLHandshakeV1 k, sasl_Mechanism = SASLMechanism c,
           sasl_User = SASLUser c, sasl_Password = SASLPassword c,
           sasl_SCRAM = (if SASLMechanism c = SASLTypeSCRAMSHA256 k then Some SHA256
             else if SASLMechanism c = SASLTypeSCRAMSHA512 k then Some SHA512 else sasl_SCRAM (sc_SASL sc))\<rparr>"
  shows "(fst (SetAuthConfig k c sc) = None \<longleftrightarrow> supported)
    \<and> snd (SetAuthConfig k c sc) = (if supported then sc\<lparr>sc_SASL := set_up\<rparr> else sc)"
  using assms by (auto simp: SetAuthConfig_def Let_def)

definition sarama_sasl :: sasl_constants where
  "sarama_sasl = \<lparr>SASLTypePlaintext = ''PLAIN'', SASLTypeSCRAMSHA256 = ''SCRAM-SHA-256'',
     SASLTypeSCRAMSHA512 = ''SCRAM-SHA-512'', SASLHandshakeV1 = 1\<rparr>"

theorem sasl_outcomes_witness:
  "sasl_SCRAM (sc_SASL (snd (SetAuthConfig sarama_sasl
      (sample_config\<lparr>SASLMechanism := ''SCRAM-SHA-512'', SASLUser := ''me'', SASLPassword := ''secret''\<rparr>) sample_sarama)))
     = Some SHA512"
  using sasl_outcomes [of sarama_sasl True
      "sample_config\<lparr>SASLMechanism := ''SCRAM-SHA-512'', SASLUser := ''me'', SASLPassword := ''secret''\<rparr>"
      _ sample_sarama, OF _ _ refl]
  by (simp add: sarama_sasl_def)

text \<open>
  After a successful \<open>Begin\<close> the steps are those of a fresh conversation of the library, whatever
  the client did before; without one, the first step dereferences nil.
\<close>

fun steps :: "('cl, 'cv) scram_library \<Rightarrow> string list \<Rightarrow> ('cl, 'cv) canary_scram
    \<Rightarrow> gopanic + (string \<times> goerror option) list" where
  "steps lib [] sc = Inr []"
| "steps lib (ch # chs) sc = bindE (Step lib ch sc) (\<lambda>(r, sc'). bindE (steps lib chs sc') (\<lambda>rs. Inr (r # rs)))"

fun conversation :: "('cl, 'cv) scram_library \<Rightarrow> string list \<Rightarrow> 'cv \<Rightarrow> (string \<times> goerror option) list" where
  "conversation lib [] cv = []"
| "conversation lib (ch # chs) cv = (case x_ScramStep lib cv ch of (r, cv') \<Rightarrow> r # conversation lib chs cv')"

lemma steps_conversation: "ClientConversation sc = Some cv \<Longrightarrow> steps lib chs sc = Inr (conversation lib chs cv)"
  by (induction chs arbitrary: sc cv) (auto simp: Step_def split: prod.splits)

lemma scram_conversation:
  assumes "Begin lib u p z sc = (None, sc')" "x_ScramNewClient lib (HashGeneratorFcn sc) u p z = Inr cl"
  shows "steps lib chs sc' = Inr (conversation lib chs (x_NewConversation lib cl))"
  using assms by (intro steps_conversation) (auto simp: Begin_def)

lemma step_before_begin: "Step lib ch (scram_generator h) = Inl NilDereference"
  by (simp add: Step_def scram_generator_def)

end
