(* ===== verification/Client_Setup.thy ===== *)
theory Client_Setup
  imports Canary_System Security
begin

text \<open>
  The set-up of the Kafka clients in \<open>cmd/main.go\<close>: the Sarama configuration with its TLS and SASL settings,
  a client with its retries, and the manager built on two of them. Sarama's default configuration and
  its version parser are arguments.
\<close>

section \<open>Configuration of the Kafka clients\<close>

text \<open>\<open>glog.Fatalf\<close> ends the process; an error of the version parser is returned to \<open>main\<close>.\<close>

definition createSaramaConfig :: "(string \<Rightarrow> goerror + string) \<Rightarrow> sarama_config \<Rightarrow> tls_library \<Rightarrow> sasl_constants
    \<Rightarrow> canary_config \<Rightarrow> crash + (goerror + sarama_config)" where
  "createSaramaConfig ParseKafkaVersion NewConfig tls sasl c =
     (case ParseKafkaVersion (KafkaVersion c) of
        Inl err \<Rightarrow> Inr (Inl err)
      | Inr kafkaVersion \<Rightarrow>
          let config = NewConfig\<lparr>sc_Version := kafkaVersion, sc_ClientID := ClientID c, sc_ManualPartitioner := True,
                sc_ReturnSuccesses := True, sc_WaitForAll := True, sc_RetryMax := 0, sc_ConsumerReturnErrors := True\<rparr> in
          bindE (if TLSEnabled c then
                   (case NewTLSConfig tls c of
                      (cfg, Some err) \<Rightarrow> Inl (Fatal ''Error configuring TLS'')
                    | (cfg, None) \<Rightarrow> Inr (config\<lparr>sc_TLSEnable := True, sc_TLSConfig := cfg\<rparr>))
                 else Inr config) (\<lambda>config.
            if SASLMechanism c \<noteq> '''' then
              (case SetAuthConfig sasl c config of
                 (Some err, _) \<Rightarrow> Inl (Fatal ''Error configuring SASL authentication'')
               | (None, config) \<Rightarrow> Inr (Inr config))
            else Inr (Inr config)))"

definition clientCreationFailed :: string where
  "clientCreationFailed = ''strimzi_canary_client_creation_error_total''"

partial_function (option) client_loop ::
  "'e externals \<Rightarrow> string list \<Rightarrow> sarama_config \<Rightarrow> backoff \<Rightarrow> ('c, 'e world) ctx
     \<Rightarrow> (goerror + handle, ('c, 'e world) ctx) outcome option" where
  "client_loop api servers config b s =
     andthen (extern (NewClient servers) (x_NewClient api servers config)) (\<lambda>r. case r of
         Inr client \<Rightarrow> ret (Inr client)
       | Inl clientErr \<Rightarrow> (case fst (Delay b) of
             Inl backoffErr \<Rightarrow> ret (Inl backoffErr)
           | Inr delay \<Rightarrow>
               andthen (metric_inc clientCreationFailed []) (\<lambda>_.
               andthen (extern (Sleep delay) (x_sleep api delay)) (\<lambda>_.
                 client_loop api servers config (snd (Delay b)))))) s"

definition newClientWithRetry ::
  "'e externals \<Rightarrow> canary_config \<Rightarrow> sarama_config \<Rightarrow> ('c, 'e, goerror + handle) routine" where
  "newClientWithRetry api c config = client_loop api (BootstrapServers c) config
     (NewBackoff (BootstrapBackoffMaxAttempts c) (int64 (BootstrapBackoffScale c * Millisecond)) MaxDefault)"

section \<open>From the configuration to the manager\<close>

definition client_or_fatal :: "string \<Rightarrow> ('c, 'e, goerror + handle) routine \<Rightarrow> ('c, 'e, handle) routine" where
  "client_or_fatal msg m = andthen m (\<lambda>r. case r of Inl err \<Rightarrow> crash (Fatal msg) | Inr h \<Rightarrow> ret h)"

text \<open>The manager, with the two clients.\<close>

definition build_manager :: "'e externals \<Rightarrow> canary_config \<Rightarrow> status_service \<Rightarrow> crash + (goerror + sarama_config)
    \<Rightarrow> ('c, 'e, canary_manager \<times> handle \<times> handle) routine" where
  "build_manager api c statusService created = (case created of
       Inl cr \<Rightarrow> crash cr
     | Inr (Inl err) \<Rightarrow> crash (Fatal ''Error creating Sarama config'')
     | Inr (Inr saramaConfig) \<Rightarrow>
         andthen (client_or_fatal ''Error creating producer Sarama client'' (newClientWithRetry api c saramaConfig)) (\<lambda>producerClient.
         andthen (client_or_fatal ''Error creating consumer Sarama client'' (newClientWithRetry api c saramaConfig)) (\<lambda>consumerClient.
         andthen (NewTopicService api c saramaConfig) (\<lambda>topicService.
         andthen (NewProducerService api c producerClient) (\<lambda>producerService.
         andthen (NewConsumerService api c consumerClient) (\<lambda>consumerService.
         andthen (NewConnectionService api c saramaConfig) (\<lambda>connectionService.
           ret (NewCanaryManager c topicService producerService consumerService connectionService statusService,
                producerClient, consumerClient))))))))"

section \<open>Creating a client\<close>

text \<open>
  The requests of \<open>k\<close> refused attempts with the delays granted between them, and what a run has done
  when it ends with \<open>r\<close>.
\<close>

definition refused_attempts :: "string list \<Rightarrow> duration list \<Rightarrow> call list" where
  "refused_attempts servers ds = concat (map (\<lambda>d. [NewClient servers, Sleep d]) ds)"

definition client_ended :: "string list \<Rightarrow> backoff \<Rightarrow> ('c, 'e world) ctx \<Rightarrow> goerror + handle \<Rightarrow> ('c, 'e world) ctx \<Rightarrow> bool" where
  "client_ended servers b s r s' \<longleftrightarrow> (\<exists>ds x. delays Delay (Suc (length ds)) b = map Inr ds @ [x]
     \<and> calls (world s') = calls (world s) @ refused_attempts servers ds @ [NewClient servers]
     \<and> counted (world s') clientCreationFailed [] = counted (world s) clientCreationFailed [] + length ds
     \<and> (\<forall>err. r = Inl err \<longrightarrow> x = Inl err))"

lemma gowp_client_loop:
  "gowp d (client_loop api servers config b) Q E s = gowp d (
     andthen (extern (NewClient servers) (x_NewClient api servers config)) (\<lambda>r. case r of
         Inr client \<Rightarrow> ret (Inr client)
       | Inl clientErr \<Rightarrow> (case fst (Delay b) of
             Inl backoffErr \<Rightarrow> ret (Inl backoffErr)
           | Inr delay \<Rightarrow>
               andthen (metric_inc clientCreationFailed []) (\<lambda>_.
               andthen (extern (Sleep delay) (x_sleep api delay)) (\<lambda>_.
                 client_loop api servers config (snd (Delay b))))))) Q E s"
  unfolding gowp_def by (subst client_loop.simps) (rule refl)

lemma client_ended_now:
  assumes "calls (world s') = calls (world s) @ [NewClient servers]"
    and "counted (world s') clientCreationFailed [] = counted (world s) clientCreationFailed []"
    and "\<And>err. r = Inl err \<Longrightarrow> fst (Delay b) = Inl err"
  shows "client_ended servers b s r s'"
  unfolding client_ended_def
  by (rule exI [of _ "[]"], rule exI [of _ "fst (Delay b)"])
    (use assms in \<open>simp add: refused_attempts_def split: prod.splits\<close>)

lemma client_ended_later:
  assumes "Delay b = (Inr d, b')" and "client_ended servers b' t r s'"
    and "calls (world t) = calls (world s) @ [NewClient servers, Sleep d]"
    and "counted (world t) clientCreationFailed [] = counted (world s) clientCreationFailed [] + 1"
  shows "client_ended servers b s r s'"
proof -
  from assms(2) obtain ds x where "delays Delay (Suc (length ds)) b' = map Inr ds @ [x]"
    "calls (world s') = calls (world t) @ refused_attempts servers ds @ [NewClient servers]"
    "counted (world s') clientCreationFailed [] = counted (world t) clientCreationFailed [] + length ds"
    "\<forall>err. r = Inl err \<longrightarrow> x = Inl err" unfolding client_ended_def by blast
  with assms(1,3,4) show ?thesis
    unfolding client_ended_def by (intro exI [of _ "d # ds"] exI [of _ x]) (simp add: refused_attempts_def)
qed

lemma client_loop_spec:
  assumes "backoff_ok b"
  shows "gowp False (client_loop api servers config b) (client_ended servers b s) (\<lambda>_ _. False) s"
  using assms
proof (induction b arbitrary: s rule: bo.retry_induct)
  case (retry b)
  have again: "gowp False (client_loop api servers config b') (client_ended servers b s) (\<lambda>_ _. False) t"
    if "Delay b = (Inr d, b')" "calls (world t) = calls (world s) @ [NewClient servers, Sleep d]"
      "counted (world t) clientCreationFailed [] = counted (world s) clientCreationFailed [] + 1" for d b' t
  proof (rule gowp_mono [OF retry.IH [OF that(1)]])
    show "backoff_ok b'" using bo.granted [OF retry.hyps that(1)] by simp
    show "client_ended servers b s r s'" if "client_ended servers b' t r s'" for r s'
      using client_ended_later [OF \<open>Delay b = _\<close> that] \<open>calls (world t) = _\<close> \<open>counted (world t) _ _ = _\<close> .
  qed
  obtain r b' where d: "Delay b = (r, b')" by force
  show ?case
    by (subst gowp_client_loop)
      (use again d in \<open>auto simp: go_simps intro!: client_ended_now split: prod.splits sum.splits\<close>)
qed

text \<open>
  Connecting is bounded. \<open>newClientWithRetry\<close> always returns. It tries to create a client, pausing
  after each refusal for the next delay of the back-off and counting the refusal, until an attempt
  succeeds or the back-off is used up, whose error it then returns; between attempts it makes no
  other request, and there are at most 63 delays whatever is configured, and no more than the
  configured number when it is not negative.
\<close>

theorem client_retries:
  "\<exists>r s' ds x. newClientWithRetry api c config s = Some (Returned r s')
     \<and> delays Delay (Suc (length ds)) (NewBackoff (BootstrapBackoffMaxAttempts c)
          (int64 (BootstrapBackoffScale c * Millisecond)) MaxDefault) = map Inr ds @ [x]
     \<and> calls (world s') = calls (world s) @ refused_attempts (BootstrapServers c) ds @ [NewClient (BootstrapServers c)]
     \<and> counted (world s') clientCreationFailed [] = counted (world s) clientCreationFailed [] + length ds
     \<and> (case r of Inl err \<Rightarrow> x = Inl err | Inr client \<Rightarrow> True)
     \<and> length ds \<le> 63 \<and> length ds \<le> (if BootstrapBackoffMaxAttempts c < 0 then 63 else nat (BootstrapBackoffMaxAttempts c))"
proof -
  let ?b = "NewBackoff (BootstrapBackoffMaxAttempts c) (int64 (BootstrapBackoffScale c * Millisecond)) MaxDefault"
  have ok: "backoff_ok ?b" using int64_range by (intro NewBackoff_ok) simp
  from gowp_returns [OF client_loop_spec [OF ok]] obtain r s' where
    run: "newClientWithRetry api c config s = Some (Returned r s')" "client_ended (BootstrapServers c) ?b s r s'"
    unfolding newClientWithRetry_def by blast
  then obtain ds x where ds: "delays Delay (Suc (length ds)) ?b = map Inr ds @ [x]"
    "calls (world s') = calls (world s) @ refused_attempts (BootstrapServers c) ds @ [NewClient (BootstrapServers c)]"
    "counted (world s') clientCreationFailed [] = counted (world s) clientCreationFailed [] + length ds"
    "\<forall>err. r = Inl err \<longrightarrow> x = Inl err" unfolding client_ended_def by blast
  have "length ds \<le> 63 \<and> (0 \<le> BootstrapBackoffMaxAttempts c \<longrightarrow> length ds \<le> nat (BootstrapBackoffMaxAttempts c))"
  proof (cases ds rule: rev_cases)
    case (snoc ds' d)
    with ds(1) have "delays Delay (Suc (length ds)) ?b ! length ds' = Inr d" by (simp add: nth_append del: delays.simps)
    with granted_index [OF ok, of "length ds'" "Suc (length ds)" d] snoc show ?thesis
      by (auto simp: NewBackoff_def)
  qed simp
  with run(1) ds show ?thesis by (intro exI [of _ r] exI [of _ s'] exI [of _ ds] exI [of _ x]) (auto split: sum.split)
qed


section \<open>Building the manager\<close>

text \<open>The requests of connecting with the delays \<open>ds\<close>, of the producer and of the group.\<close>

definition connecting :: "canary_config \<Rightarrow> duration list \<Rightarrow> call list" where
  "connecting c ds = refused_attempts (BootstrapServers c) ds @ [NewClient (BootstrapServers c)]"

fun setting_up :: "canary_config \<Rightarrow> call \<Rightarrow> bool" where
  "setting_up c (NewClient servers) = (servers = BootstrapServers c)"
| "setting_up c (Sleep d) = True"
| "setting_up c (NewSyncProducer h) = True"
| "setting_up c (NewConsumerGroup g h) = (g = ConsumerGroupID c)"
| "setting_up c _ = False"

lemma connecting_sets_up: "\<forall>x\<in>set (connecting c ds). setting_up c x"
  by (auto simp: connecting_def refused_attempts_def)

definition connected :: "canary_config \<Rightarrow> ('c, 'e world) ctx \<Rightarrow> ('c, 'e world) ctx \<Rightarrow> bool" where
  "connected c s s' \<longleftrightarrow> (\<exists>ds. calls (world s') = calls (world s) @ connecting c ds)"

lemma gowp_client:
  "gowp False (client_or_fatal msg (newClientWithRetry api c config)) (\<lambda>h. connected c s)
     (\<lambda>cr s'. cr = Fatal msg \<and> connected c s s') s"
proof -
  have ok: "backoff_ok (NewBackoff (BootstrapBackoffMaxAttempts c) (int64 (BootstrapBackoffScale c * Millisecond)) MaxDefault)"
    using int64_range by (intro NewBackoff_ok) simp
  show ?thesis
    unfolding client_or_fatal_def gowp_andthen newClientWithRetry_def
    by (rule gowp_mono [OF client_loop_spec [OF ok]])
      (auto simp: client_ended_def connected_def connecting_def go_simps split: sum.splits)
qed

lemma connected_adds: "connected c s s' \<Longrightarrow> adds (setting_up c) s s'"
  using connecting_sets_up by (auto simp: connected_def adds_def)


definition setup_failures :: "string set" where
  "setup_failures = {''Error creating Sarama config'', ''Error creating producer Sarama client'',
     ''Error creating consumer Sarama client'', ''Error creating the Sarama sync producer'',
     ''Error creating the Sarama consumer''}"

text \<open>Every metric that is registered with the constant labels of the configuration, in the order of \<open>main\<close>.\<close>

definition program_metrics :: "(string \<times> string list) list" where
  "program_metrics = topic_metrics @ producer_metrics @ consumer_metrics @ connection_metrics @ manager_metrics"

abbreviation refuses_metric :: "'e externals \<Rightarrow> canary_config \<Rightarrow> crash \<Rightarrow> bool" where
  "refuses_metric api c cr \<equiv> (\<exists>p. cr = Panic p \<and> refused api (PrometheusConstantLabels c) program_metrics p)"

lemma part_refused:
  "refused api consts ms p \<Longrightarrow> ms \<in> {topic_metrics, producer_metrics, consumer_metrics, connection_metrics, manager_metrics}
     \<Longrightarrow> refused api consts program_metrics p"
  by (erule refused_mono) (auto simp: program_metrics_def)

lemma gowp_build_manager:
  "gowp False (build_manager api c ss created)
     (\<lambda>(cm, p, q) s'. (\<exists>config. created = Inr (Inr config) \<and> fresh_manager c config ss p q cm)
        \<and> (\<exists>ds ds'. calls (world s') = calls (world s) @ connecting c ds @ connecting c ds'
             @ [NewSyncProducer p, NewConsumerGroup (ConsumerGroupID c) q]))
     (\<lambda>cr s'. (created = Inl cr \<or> (\<exists>m\<in>setup_failures. cr = Fatal m) \<or> refuses_metric api c cr) \<and> adds (setting_up c) s s') s"
proof (cases created)
  case (Inl cr)
  then show ?thesis by (simp add: build_manager_def go_simps)
next
  case (Inr r)
  show ?thesis
  proof (cases r)
    case (Inl err)
    with Inr show ?thesis by (simp add: build_manager_def go_simps setup_failures_def)
  next
    case (Inr config)
    with \<open>created = Inr r\<close> have created: "created = Inr (Inr config)" by simp
    show ?thesis
      unfolding build_manager_def created sum.case gowp_andthen
    proof (rule gowp_mono [OF gowp_client], goal_cases)
      case (1 p s1)
      show ?case
      proof (rule gowp_mono [OF gowp_client], goal_cases)
        case (1 q s2)
        with \<open>connected c s s1\<close> obtain ds ds' where
          "calls (world s2) = calls (world s) @ connecting c ds @ connecting c ds'"
          by (auto simp: connected_def)
        moreover from this have "adds (setting_up c) s s2"
          using connecting_sets_up by (auto simp: adds_def)
        ultimately show ?case
          by (auto simp: NewTopicService_def NewProducerService_def NewConsumerService_def NewConnectionService_def
              fresh_manager_def setup_failures_def gowp_register_all go_simps adds_def
              dest!: refusal_refused intro: part_refused split: prod.splits sum.splits option.splits)
      next
        case (2 cr s2)
        with \<open>connected c s s1\<close> show ?case
          by (auto simp: setup_failures_def intro: adds_trans dest!: connected_adds)
      qed
    next
      case (2 cr s1)
      then show ?case by (auto simp: setup_failures_def dest!: connected_adds)
    qed
  qed
qed

text \<open>
  Setting up the manager. It always ends: either with a manager in which nothing has been
  started, after connecting two clients, one for a producer and the other for a consumer group of the
  configured name, in that order and with no other request; or the process exits because of the
  Sarama configuration, of a client that could not be created, or of the producer or group that
  could not be created on it, or panics because Prometheus refuses one of the metrics, having asked the cluster for
  nothing else.
\<close>

theorem manager_setup:
  "\<exists>r. build_manager api c ss created s = Some r \<and> (case r of
       Returned (cm, p, q) s' \<Rightarrow> \<exists>config ds ds'. created = Inr (Inr config) \<and> fresh_manager c config ss p q cm
         \<and> calls (world s') = calls (world s) @ connecting c ds @ connecting c ds'
             @ [NewSyncProducer p, NewConsumerGroup (ConsumerGroupID c) q]
     | Crashed cr s' \<Rightarrow> (created = Inl cr \<or> (\<exists>m\<in>setup_failures. cr = Fatal m) \<or> refuses_metric api c cr)
         \<and> adds (setting_up c) s s')"
  using gowp_outcome [OF gowp_build_manager [of api c ss created s]] by (auto simp: gowp_def) blast


section \<open>The settings of the clients\<close>

lemma SetAuthConfig_frame:
  "SetAuthConfig k c sc = (err, sc') \<Longrightarrow> \<exists>sasl. sc' = sc\<lparr>sc_SASL := sasl\<rparr>"
  by (auto simp: SetAuthConfig_def Let_def split: if_splits intro: exI [of _ "sc_SASL sc"])

lemma SetAuthConfig_error: "fst (SetAuthConfig k c sc) = fst (SetAuthConfig k c sc')"
  by (simp add: SetAuthConfig_def Let_def)

text \<open>
  What the Kafka clients are configured with. A configuration is made exactly when the Kafka
  version parses, the TLS settings, if TLS is enabled, give no error and the SASL settings, if a
  mechanism is set, give none; it then carries the version, partitions chosen by the canary itself,
  successes and errors returned, acknowledgement by all replicas and no retries, and TLS is on with
  the configuration of the settings exactly when enabled. An error is returned for the version only;
  the other two end the process.
\<close>

theorem sarama_settings:
  "let created = createSaramaConfig ParseKafkaVersion NewConfig tls k c in
   case ParseKafkaVersion (KafkaVersion c) of
       Inl err \<Rightarrow> created = Inr (Inl err)
     | Inr v \<Rightarrow>
         if TLSEnabled c \<and> snd (NewTLSConfig tls c) \<noteq> None then created = Inl (Fatal ''Error configuring TLS'')
         else if SASLMechanism c \<noteq> '''' \<and> fst (SetAuthConfig k c NewConfig) \<noteq> None
         then created = Inl (Fatal ''Error configuring SASL authentication'')
         else \<exists>sc. created = Inr (Inr sc) \<and> sc_Version sc = v \<and> sc_ClientID sc = ClientID c
           \<and> sc_ManualPartitioner sc \<and> sc_ReturnSuccesses sc \<and> sc_ConsumerReturnErrors sc
           \<and> sc_WaitForAll sc \<and> sc_RetryMax sc = 0
           \<and> (sc_TLSEnable sc, sc_TLSConfig sc) =
               (if TLSEnabled c then (True, fst (NewTLSConfig tls c)) else (sc_TLSEnable NewConfig, sc_TLSConfig NewConfig))"
proof (cases "ParseKafkaVersion (KafkaVersion c)")
  case (Inr v)
  let ?sc = "NewConfig\<lparr>sc_Version := v, sc_ClientID := ClientID c, sc_ManualPartitioner := True,
    sc_ReturnSuccesses := True, sc_WaitForAll := True, sc_RetryMax := 0, sc_ConsumerReturnErrors := True\<rparr>"
  let ?sc' = "?sc\<lparr>sc_TLSEnable := True, sc_TLSConfig := fst (NewTLSConfig tls c)\<rparr>"
  obtain err sasl where auth: "SetAuthConfig k c ?sc = (err, ?sc\<lparr>sc_SASL := sasl\<rparr>)"
    by (metis SetAuthConfig_frame surj_pair)
  obtain sasl' where auth': "SetAuthConfig k c ?sc' = (err, ?sc'\<lparr>sc_SASL := sasl'\<rparr>)"
    by (metis SetAuthConfig_frame SetAuthConfig_error auth fst_conv surj_pair)
  have err: "fst (SetAuthConfig k c NewConfig) = err"
    by (metis SetAuthConfig_error auth fst_conv)
  show ?thesis
    using auth auth'
    unfolding createSaramaConfig_def Let_def Inr sum.case err
    by (cases "NewTLSConfig tls c"; cases "snd (NewTLSConfig tls c)"; cases err; cases "TLSEnabled c";
        cases "SASLMechanism c = ''''") simp_all
qed (simp add: createSaramaConfig_def)

text \<open>
  A CA that loads but holds no certificate goes unnoticed: TLS is on with no configuration at all, so
  that neither the CA, nor the client certificate, nor the setting of the verification has an effect.
\<close>

lemma invalid_ca_is_ignored:
  assumes "ParseKafkaVersion (KafkaVersion c) = Inr v" "TLSEnabled c" "SASLMechanism c = ''''"
    and "TLSCACert c \<noteq> ''''" "ca_loads tls c (\<lambda>pem. \<not> x_ValidPEM tls pem)"
  shows "\<exists>sc. createSaramaConfig ParseKafkaVersion NewConfig tls k c = Inr (Inr sc)
     \<and> sc_TLSEnable sc \<and> sc_TLSConfig sc = None"
proof -
  have "root_cas tls c = Inl None" using assms(4,5) by (simp add: root_cas_silent)
  then have "NewTLSConfig tls c = (None, None)" by (simp add: NewTLSConfig_def)
  with assms(1-3) show ?thesis by (simp add: createSaramaConfig_def Let_def)
qed

end
