(* ===== verification/Http_Server.thy ===== *)
theory Http_Server
  imports Status_Service
begin

text \<open>
  The HTTP server, \<open>internal/servers/http_server.go\<close> with \<open>internal/services/healthcheck.go\<close>: the four
  pages, and the life of the server between the goroutine that listens and the thread that stops it. Of \<open>net/http\<close>
  the model has what the code relies on: registering patterns, looking up a path (exactly, for patterns that do not end
  with a slash, after a redirection to the canonical path), listening
  unless the server has been shut down, and recovering a panic of a handler. The page of the
  Prometheus client is an argument.
\<close>

section \<open>Model\<close>

definition LivenessHandler :: string where
  "LivenessHandler = ''OK''"

definition ReadinessHandler :: string where
  "ReadinessHandler = ''OK''"

datatype page = MetricsPage | LivenessPage | ReadinessPage | StatusPage

type_synonym mux = "(string \<times> page) list"

text \<open>\<open>ServeMux.Handle\<close> panics on an empty pattern and on one registered before.\<close>

definition mux_Handle :: "string \<Rightarrow> page \<Rightarrow> mux \<Rightarrow> gopanic + mux" where
  "mux_Handle pattern page m =
     (if pattern = '''' then Inl (ExplicitPanic ''http: invalid pattern'')
      else if pattern \<in> set (map fst m) then Inl (ExplicitPanic (''http: multiple registrations for '' @ pattern))
      else Inr (m @ [(pattern, page)]))"

text \<open>\<open>hs_launched\<close> counts the goroutines that \<open>Start\<close> made and that have not yet called \<open>ListenAndServe\<close>.\<close>

datatype listener = Unbound | Listening | ShutDown

record http_server =
  hs_Addr :: string
  hs_mux :: mux
  hs_launched :: nat
  hs_listener :: listener

definition NewHttpServer :: "gopanic + http_server" where
  "NewHttpServer =
     bindE (mux_Handle ''/metrics'' MetricsPage []) (\<lambda>m.
     bindE (mux_Handle ''/liveness'' LivenessPage m) (\<lambda>m.
     bindE (mux_Handle ''/readiness'' ReadinessPage m) (\<lambda>m.
     bindE (mux_Handle ''/status'' StatusPage m) (\<lambda>m.
       Inr \<lparr>hs_Addr = '':8080'', hs_mux = m, hs_launched = 0, hs_listener = Unbound\<rparr>))))"

definition hs_Start :: "http_server \<Rightarrow> http_server" where
  "hs_Start hs = hs\<lparr>hs_launched := hs_launched hs + 1\<rparr>"

text \<open>
  The body of the goroutine, with the error of binding the address if there is one. After a shutdown
  \<open>ListenAndServe\<close> returns \<open>ErrServerClosed\<close> at once; the code looks at neither error.
\<close>

definition hs_listen :: "goerror option \<Rightarrow> http_server \<Rightarrow> http_server" where
  "hs_listen bind_error hs =
     (if hs_launched hs = 0 then hs
      else let hs = hs\<lparr>hs_launched := hs_launched hs - 1\<rparr> in
        if hs_listener hs = ShutDown \<or> bind_error \<noteq> None then hs else hs\<lparr>hs_listener := Listening\<rparr>)"

text \<open>\<open>Shutdown\<close> closes the listeners first, and then waits for open connections, at most ten seconds.\<close>

definition hs_Stop :: "http_server \<Rightarrow> http_server" where
  "hs_Stop hs = hs\<lparr>hs_listener := ShutDown\<rparr>"

text \<open>
  The canonical path of \<open>ServeMux\<close>: rooted, without empty segments, \<open>.\<close> and \<open>..\<close>, and with the slash at the end if there
  was one.
\<close>

definition enter :: "string list \<Rightarrow> string \<Rightarrow> string list" where
  "enter names seg = (if seg = '''' \<or> seg = ''.'' then names else if seg = ''..'' then butlast names else names @ [seg])"

definition clean_path :: "string \<Rightarrow> string" where
  "clean_path path = (let names = foldl enter [] (Split CHR ''/'' path) in
     if names = [] then ''/''
     else ''/'' @ Join CHR ''/'' names @ (if last path = CHR ''/'' then ''/'' else ''''))"

text \<open>
  What a client gets for a path, with a method other than \<open>CONNECT\<close>: a refused connection, an aborted one, a permanent
  redirection to a path, or a status with a body.
\<close>

datatype answer = Refused | Aborted | Moved string | NotFound | Page string

definition hs_answer :: "string \<Rightarrow> (rat \<Rightarrow> string) \<Rightarrow> status_service \<Rightarrow> http_server \<Rightarrow> string \<Rightarrow> answer" where
  "hs_answer metrics fmt_float ss hs path =
     (if hs_listener hs \<noteq> Listening then Refused
      else if clean_path path \<noteq> path then Moved (clean_path path)
      else (case map_of (hs_mux hs) path of
          None \<Rightarrow> NotFound
        | Some MetricsPage \<Rightarrow> Page metrics
        | Some LivenessPage \<Rightarrow> Page LivenessHandler
        | Some ReadinessPage \<Rightarrow> Page ReadinessHandler
        | Some StatusPage \<Rightarrow> (case StatusHandler fmt_float ss of Inl p \<Rightarrow> Aborted | Inr body \<Rightarrow> Page body)))"

section \<open>The life of the server\<close>

datatype server_event = StartCalled | ListenCalled "goerror option" | StopCalled

fun server_step :: "http_server \<Rightarrow> server_event \<Rightarrow> http_server" where
  "server_step hs StartCalled = hs_Start hs"
| "server_step hs (ListenCalled e) = hs_listen e hs"
| "server_step hs StopCalled = hs_Stop hs"

lemma NewHttpServer_eq: "NewHttpServer = Inr \<lparr>hs_Addr = '':8080'',
    hs_mux = [(''/metrics'', MetricsPage), (''/liveness'', LivenessPage), (''/readiness'', ReadinessPage), (''/status'', StatusPage)],
    hs_launched = 0, hs_listener = Unbound\<rparr>"
  by (simp add: NewHttpServer_def mux_Handle_def)

lemma server_steps_mux: "hs_mux (foldl server_step hs evs) = hs_mux hs"
proof (induction evs arbitrary: hs)
  case (Cons ev evs)
  have "hs_mux (server_step hs ev) = hs_mux hs"
    by (cases ev) (simp_all add: hs_Start_def hs_listen_def hs_Stop_def Let_def)
  with Cons show ?case by simp
qed simp

lemma shut_down_stays: "hs_listener hs = ShutDown \<Longrightarrow> hs_listener (foldl server_step hs evs) = ShutDown"
proof (induction evs arbitrary: hs)
  case (Cons ev evs)
  have "hs_listener (server_step hs ev) = ShutDown"
    using Cons.prems by (cases ev) (simp_all add: hs_Start_def hs_listen_def hs_Stop_def Let_def)
  with Cons.IH show ?case by simp
qed simp

lemma stopped_stays: "StopCalled \<in> set evs \<Longrightarrow> hs_listener (foldl server_step hs evs) = ShutDown"
proof -
  assume "StopCalled \<in> set evs"
  then obtain ys zs where "evs = ys @ StopCalled # zs" using split_list by metis
  then show ?thesis by (simp add: shut_down_stays hs_Stop_def)
qed

text \<open>The server listens when the goroutine of the only start gets to listen before a stop.\<close>

fun listens :: "server_event \<Rightarrow> bool" where
  "listens (ListenCalled e) = True"
| "listens _ = False"

lemma listens_iff: "hs_listener (hs_listen e hs) = Listening \<longleftrightarrow>
    hs_listener hs = Listening \<or> 0 < hs_launched hs \<and> hs_listener hs \<noteq> ShutDown \<and> e = None"
  by (auto simp: hs_listen_def Let_def)

lemma idle_steps:
  "StartCalled \<notin> set evs \<Longrightarrow> hs_launched hs = 0 \<Longrightarrow> hs_launched (foldl server_step hs evs) = 0
     \<and> hs_listener (foldl server_step hs evs) = (if StopCalled \<in> set evs then ShutDown else hs_listener hs)"
proof (induction evs arbitrary: hs)
  case (Cons ev evs)
  then show ?case by (cases ev) (simp_all add: hs_listen_def hs_Stop_def)
qed simp

lemma launched_steps:
  "StartCalled \<notin> set evs \<Longrightarrow> hs_launched hs = 1 \<Longrightarrow> hs_listener hs = Unbound \<Longrightarrow>
     hs_listener (foldl server_step hs evs) = Listening \<longleftrightarrow> StopCalled \<notin> set evs \<and> find listens evs = Some (ListenCalled None)"
proof (induction evs arbitrary: hs)
  case (Cons ev evs)
  show ?case
  proof (cases ev)
    case (ListenCalled e)
    let ?next = "hs_listen e hs"
    from Cons.prems have "hs_launched ?next = 0" "hs_listener ?next = (if e = None then Listening else Unbound)"
      by (simp_all add: hs_listen_def Let_def)
    with Cons.prems ListenCalled idle_steps [of evs ?next] show ?thesis by simp
  next
    case StopCalled
    with shut_down_stays [of "hs_Stop hs" evs] show ?thesis by (simp add: hs_Stop_def)
  qed (use Cons.prems in simp)
qed simp

lemma only_start:
  assumes "hs_launched hs = 0" "hs_listener hs = Unbound" and "StartCalled \<notin> set ys \<union> set zs"
  shows "hs_listener (foldl server_step hs (ys @ StartCalled # zs)) = Listening
     \<longleftrightarrow> StopCalled \<notin> set (ys @ zs) \<and> find listens zs = Some (ListenCalled None)"
proof (cases "StopCalled \<in> set ys")
  case True
  then have "StopCalled \<in> set (ys @ StartCalled # zs)" by simp
  from stopped_stays [OF this, of hs] True show ?thesis by simp
next
  case False
  let ?hs = "foldl server_step hs ys"
  have "hs_launched ?hs = 0 \<and> hs_listener ?hs = Unbound"
    using idle_steps [of ys hs] assms False by simp
  with launched_steps [of zs "hs_Start ?hs"] assms(3) False show ?thesis by (simp add: hs_Start_def)
qed

section \<open>Canonical paths\<close>

definition proper :: "string \<Rightarrow> bool" where
  "proper seg \<longleftrightarrow> seg \<noteq> '''' \<and> seg \<noteq> ''.'' \<and> seg \<noteq> ''..'' \<and> CHR ''/'' \<notin> set seg"

lemma enter_proper: "\<forall>s\<in>set names. proper s \<Longrightarrow> foldl enter st names = st @ names"
  by (induction names arbitrary: st) (simp_all add: enter_def proper_def)

lemma Split_segments: "seg \<in> set (Split sep s) \<Longrightarrow> sep \<notin> set seg"
proof (induction sep s arbitrary: seg rule: Split.induct)
  case (2 sep c cs)
  then show ?case
    by (cases "Split sep cs") (auto split: if_splits)
qed simp

lemma entered_proper:
  "\<forall>s\<in>set segs. CHR ''/'' \<notin> set s \<Longrightarrow> \<forall>s\<in>set st. proper s \<Longrightarrow> \<forall>s\<in>set (foldl enter st segs). proper s"
proof (induction segs arbitrary: st)
  case (Cons seg segs)
  have "\<forall>s\<in>set (enter st seg). proper s"
    using Cons.prems by (auto simp: enter_def proper_def dest: in_set_butlastD)
  with Cons show ?case by simp
qed simp

text \<open>A redirection leads to a canonical path, so that it is not followed by another.\<close>

lemma clean_path_clean: "clean_path (clean_path path) = clean_path path"
proof -
  define names where "names = foldl enter [] (Split CHR ''/'' path)"
  have proper: "\<forall>s\<in>set names. proper s"
    unfolding names_def by (intro entered_proper) (auto dest: Split_segments)
  show ?thesis
  proof (cases "names = []")
    case True
    have "foldl enter [] (Split CHR ''/'' ''/'') = []" by (simp add: enter_def)
    with True show ?thesis by (simp add: clean_path_def names_def [symmetric])
  next
    case False
    then obtain ns n where n: "names = ns @ [n]" by (cases names rule: rev_cases) simp_all
    with proper have "n \<noteq> ''''" "CHR ''/'' \<notin> set n" by (simp_all add: proper_def)
    then have last: "last (Join CHR ''/'' names) \<noteq> CHR ''/''" "Join CHR ''/'' names \<noteq> []"
      using Join_last [of n "CHR ''/''" ns] last_in_set [of n] unfolding n by metis+
    define tail where "tail = (if last path = CHR ''/'' then [''''] else [] :: string list)"
    have clean: "clean_path path = ''/'' @ Join CHR ''/'' names @ (if last path = CHR ''/'' then ''/'' else '''')"
      using False by (simp add: clean_path_def names_def [symmetric])
    also have "\<dots> = Join CHR ''/'' ('''' # names @ tail)"
      using False by (simp add: Join_Cons Join_snoc tail_def)
    finally have "clean_path path = Join CHR ''/'' ('''' # names @ tail)" .
    moreover have "\<forall>s\<in>set tail. CHR ''/'' \<notin> set s" by (simp add: tail_def)
    with proper have "\<forall>s\<in>set ('''' # names @ tail). CHR ''/'' \<notin> set s" by (fastforce simp: proper_def)
    from Split_Join [OF _ this] have "Split CHR ''/'' (Join CHR ''/'' ('''' # names @ tail)) = '''' # names @ tail" by simp
    ultimately have "foldl enter [] (Split CHR ''/'' (clean_path path)) = names"
      using enter_proper [OF proper, of "[]"] by (simp add: enter_def tail_def)
    moreover have "last (clean_path path) = CHR ''/'' \<longleftrightarrow> last path = CHR ''/''"
      using last by (simp add: clean)
    ultimately show ?thesis
      unfolding clean_path_def [of "clean_path path"] using False clean by simp
  qed
qed

lemma clean_pages:
  "clean_path ''/metrics'' = ''/metrics''" "clean_path ''/liveness'' = ''/liveness''"
  "clean_path ''/readiness'' = ''/readiness''" "clean_path ''/status'' = ''/status''"
  by code_simp+

text \<open>
  C34: the HTTP server. Making it never panics. In every interleaving of \<open>Start\<close>, of the goroutines
  that listen and of \<open>Stop\<close>: if \<open>Start\<close> is called once, the server listens exactly when its goroutine has bound the
  address and \<open>Stop\<close> has not been called. While the server listens, both
  health checks answer OK whatever the state of the canary, the status page is the report of the status
  service, and a path other than the four is not found if it is canonical, and moved to its canonical path
  otherwise; when the server does not listen, in particular
  ever after a \<open>Stop\<close>, also if the goroutine only runs then, every request is refused.
\<close>

theorem http_server_life:
  "\<exists>new. NewHttpServer = Inr new \<and> (let hs = foldl server_step new evs; get = hs_answer metrics fmt ss hs in
     (\<forall>ys zs. evs = ys @ StartCalled # zs \<and> StartCalled \<notin> set ys \<union> set zs \<longrightarrow>
        (hs_listener hs = Listening \<longleftrightarrow> StopCalled \<notin> set evs \<and> find listens zs = Some (ListenCalled None)))
     \<and> (StopCalled \<in> set evs \<or> StartCalled \<notin> set evs \<longrightarrow> hs_listener hs \<noteq> Listening)
     \<and> (if hs_listener hs = Listening
        then get ''/liveness'' = Page ''OK'' \<and> get ''/readiness'' = Page ''OK'' \<and> get ''/metrics'' = Page metrics
          \<and> get ''/status'' = (case StatusHandler fmt ss of Inl p \<Rightarrow> Aborted | Inr body \<Rightarrow> Page body)
          \<and> (\<forall>path. path \<notin> {''/metrics'', ''/liveness'', ''/readiness'', ''/status''} \<longrightarrow>
               get path = (if clean_path path = path then NotFound else Moved (clean_path path)))
        else \<forall>path. get path = Refused))"
proof -
  let ?new = "\<lparr>hs_Addr = '':8080'', hs_mux = [(''/metrics'', MetricsPage), (''/liveness'', LivenessPage),
    (''/readiness'', ReadinessPage), (''/status'', StatusPage)], hs_launched = 0, hs_listener = Unbound\<rparr>"
  let ?hs = "foldl server_step ?new evs"
  have mux: "hs_mux ?hs = hs_mux ?new" by (rule server_steps_mux)
  have "hs_listener ?hs \<noteq> Listening" if "StopCalled \<in> set evs \<or> StartCalled \<notin> set evs"
    using that stopped_stays [of evs ?new] idle_steps [of evs ?new] by (auto split: if_split_asm)
  moreover have "hs_listener ?hs = Listening \<longleftrightarrow> StopCalled \<notin> set evs \<and> find listens zs = Some (ListenCalled None)"
    if "evs = ys @ StartCalled # zs" "StartCalled \<notin> set ys \<union> set zs" for ys zs
    using only_start [of ?new ys zs] that by simp
  ultimately show ?thesis
    unfolding NewHttpServer_eq
    by (intro exI [of _ ?new]) (simp add: hs_answer_def mux LivenessHandler_def ReadinessHandler_def Let_def clean_pages)
qed

theorem http_server_life_witness:
  "\<forall>ss. \<exists>new. NewHttpServer = Inr new \<and> (let get = hs_answer ''m'' (\<lambda>_. ''1'') ss (foldl server_step new [StartCalled, ListenCalled None])
     in get ''/liveness'' = Page ''OK'' \<and> get ''/nothing'' = NotFound \<and> get ''//x/./status'' = Moved ''/x/status'')"
proof
  fix ss
  let ?evs = "[StartCalled, ListenCalled None]"
  from http_server_life [of ?evs "''m''" "\<lambda>_. ''1''" ss] obtain new where new: "NewHttpServer = Inr new"
    and once: "\<forall>ys zs. ?evs = ys @ StartCalled # zs \<and> StartCalled \<notin> set ys \<union> set zs \<longrightarrow>
        (hs_listener (foldl server_step new ?evs) = Listening \<longleftrightarrow> StopCalled \<notin> set ?evs \<and> find listens zs = Some (ListenCalled None))"
    and life: "hs_listener (foldl server_step new ?evs) = Listening \<Longrightarrow>
       hs_answer ''m'' (\<lambda>_. ''1'') ss (foldl server_step new ?evs) ''/liveness'' = Page ''OK''
       \<and> (\<forall>path. path \<notin> {''/metrics'', ''/liveness'', ''/readiness'', ''/status''} \<longrightarrow>
            hs_answer ''m'' (\<lambda>_. ''1'') ss (foldl server_step new ?evs) path
              = (if clean_path path = path then NotFound else Moved (clean_path path)))"
    unfolding Let_def by fastforce
  have "hs_listener (foldl server_step new ?evs) = Listening"
    using once [rule_format, of "[]" "[ListenCalled None]"] by simp
  note life [OF this]
  moreover have "clean_path ''/nothing'' = ''/nothing''" "clean_path ''//x/./status'' = ''/x/status''" by code_simp+
  ultimately have "let get = hs_answer ''m'' (\<lambda>_. ''1'') ss (foldl server_step new ?evs)
     in get ''/liveness'' = Page ''OK'' \<and> get ''/nothing'' = NotFound \<and> get ''//x/./status'' = Moved ''/x/status''"
    by (simp add: Let_def)
  with new show "\<exists>new. NewHttpServer = Inr new \<and> (let get = hs_answer ''m'' (\<lambda>_. ''1'') ss (foldl server_step new ?evs)
     in get ''/liveness'' = Page ''OK'' \<and> get ''/nothing'' = NotFound \<and> get ''//x/./status'' = Moved ''/x/status'')"
    by blast
qed

end
