(* ===== verification/Tracing.thy ===== *)
theory Tracing
  imports Canary_Config Sarama_Api
begin

text \<open>
  The set-up of tracing in \<open>cmd/main.go\<close> (\<open>initTracerProvider\<close>, \<open>exporterTracing\<close>): the global tracer
  provider, and the one to shut down at the end if there is one. The exporters of OpenTelemetry, with the
  texts of their errors, are arguments; the resource attributes are part of the provider, and an
  error in reading them is dropped by the code.
\<close>

section \<open>Model\<close>

text \<open>What the constructors of the two exporters return: an exporter (nil is \<open>None\<close>) and an error.\<close>

record tracing_library =
  x_JaegerNew :: "handle option \<times> goerror option"
  x_OtlpNew :: "handle option \<times> goerror option"
  x_ErrorText :: "goerror \<Rightarrow> string"

datatype tracer_provider = DefaultProvider | NoopProvider | SdkProvider "handle option"

definition exporterTracing :: "tracing_library \<Rightarrow> string \<Rightarrow> gopanic + handle option" where
  "exporterTracing lib exporterType =
     (let (exporter, err) =
        (if exporterType = ''jaeger'' then x_JaegerNew lib
         else if exporterType = ''otlp'' then x_OtlpNew lib
         else (None, None)) in
      case err of
        Some e \<Rightarrow> Inl (ExplicitPanic (''error creating tracing exporter '' @ x_ErrorText lib e))
      | None \<Rightarrow> Inr exporter)"

text \<open>The global provider, and the result of the function.\<close>

definition initTracerProvider :: "tracing_library \<Rightarrow> string \<Rightarrow> gopanic + tracer_provider \<times> tracer_provider option" where
  "initTracerProvider lib exporterType =
     (if exporterType = '''' then Inr (NoopProvider, None)
      else bindE (exporterTracing lib exporterType) (\<lambda>exporter.
        Inr (SdkProvider exporter, Some (SdkProvider exporter))))"

section \<open>Properties\<close>

text \<open>A constructor returns an exporter or an error, and not both.\<close>

definition exporters_sound :: "tracing_library \<Rightarrow> bool" where
  "exporters_sound lib \<longleftrightarrow> (\<forall>(exporter, err) \<in> {x_JaegerNew lib, x_OtlpNew lib}. exporter = None \<longleftrightarrow> err \<noteq> None)"

lemma accepted_exporter_value: "NewCanaryConfig getenv ParseFloat = Inr c \<Longrightarrow> exporterTypeTracing getenv = Inr (TracingExporter c)"
  by (auto simp: NewCanaryConfig_def Let_def bindE_Inr_iff)

lemma accepted_exporter: "NewCanaryConfig getenv ParseFloat = Inr c \<Longrightarrow> TracingExporter c \<in> {'''', ''jaeger'', ''otlp''}"
  by (drule accepted_exporter_value) (auto simp: exporterTypeTracing_def Let_def split: if_splits)

text \<open>
  C38: no silent loss of traces. With a configuration that was accepted, the set-up of tracing either panics
  with the error of the exporter that was asked for, or installs a provider: the one without
  operation, with nothing to shut down, exactly when no exporter is configured, and otherwise one with an exporter that
  is not nil, which is the one to shut down. The third way through \<open>exporterTracing\<close>, a nil exporter with no
  error, is not taken.
\<close>

theorem tracing_setup:
  assumes "NewCanaryConfig getenv ParseFloat = Inr c" and "exporters_sound lib"
  shows "case initTracerProvider lib (TracingExporter c) of
       Inl p \<Rightarrow> \<exists>e. p = ExplicitPanic (''error creating tracing exporter '' @ x_ErrorText lib e)
           \<and> (TracingExporter c = ''jaeger'' \<and> x_JaegerNew lib = (None, Some e)
              \<or> TracingExporter c = ''otlp'' \<and> x_OtlpNew lib = (None, Some e))
     | Inr (global, tp) \<Rightarrow>
         if TracingExporter c = '''' then global = NoopProvider \<and> tp = None
         else \<exists>h. global = SdkProvider (Some h) \<and> tp = Some (SdkProvider (Some h))
           \<and> (TracingExporter c = ''jaeger'' \<and> x_JaegerNew lib = (Some h, None)
              \<or> TracingExporter c = ''otlp'' \<and> x_OtlpNew lib = (Some h, None))"
  using accepted_exporter [OF assms(1)] assms(2)
  by (cases "x_JaegerNew lib"; cases "x_OtlpNew lib")
    (auto simp: initTracerProvider_def exporterTracing_def exporters_sound_def Let_def split: option.splits)

theorem tracing_setup_witness:
  "\<exists>c. NewCanaryConfig (Map.empty(ExporterTypeTracing \<mapsto> ''jaeger'')) (\<lambda>s. Inr (Finite 1)) = Inr c
     \<and> initTracerProvider \<lparr>x_JaegerNew = (Some 5, None), x_OtlpNew = (None, Some EOF), x_ErrorText = (\<lambda>_. ''eof'')\<rparr> (TracingExporter c)
       = Inr (SdkProvider (Some 5), Some (SdkProvider (Some 5)))"
proof -
  let ?lib = "\<lparr>x_JaegerNew = (Some 5, None), x_OtlpNew = (None, Some EOF), x_ErrorText = (\<lambda>_. ''eof'')\<rparr>"
  let ?new = "NewCanaryConfig (Map.empty(ExporterTypeTracing \<mapsto> ''jaeger'')) (\<lambda>s. Inr (Finite 1))"
  have "pieces '''' = []" by (simp add: pieces_def)
  moreover have "exporterTypeTracing (Map.empty(ExporterTypeTracing \<mapsto> ''jaeger'')) = Inr ''jaeger''"
    by (simp add: exporterTypeTracing_def lookupStringEnv_def)
  moreover have "lookupStringEnv (Map.empty(ExporterTypeTracing \<mapsto> ''jaeger'')) TopicConfigEnvVar TopicConfigDefault = ''''"
    "lookupStringEnv (Map.empty(ExporterTypeTracing \<mapsto> ''jaeger'')) PrometheusConsantLabelsEnvVar PrometheusConsantLabelsDefault = ''''"
    by (simp_all add: lookupStringEnv_def config_consts)
  ultimately have "\<exists>c. ?new = Inr c"
    unfolding NewCanaryConfig_accepts convertKVPairsToMap_accepts latencyBuckets_accepts convertKVPairsToPrometheusLabels_accepts
    by simp
  then obtain c where c: "?new = Inr c" by blast
  then have "TracingExporter c = ''jaeger''"
    using accepted_exporter_value [OF c] by (simp add: exporterTypeTracing_def lookupStringEnv_def config_consts)
  note c = c this
  have "exporters_sound ?lib" by (simp add: exporters_sound_def)
  from tracing_setup [OF c(1) this] c(2) have "initTracerProvider ?lib (TracingExporter c) = Inr (SdkProvider (Some 5), Some (SdkProvider (Some 5)))"
    by (simp split: sum.splits prod.splits)
  with c(1) show ?thesis by blast
qed

end
