(* ===== verification/Dynamic_Watcher.thy ===== *)
theory Dynamic_Watcher
  imports Simulated_Cluster Go_Json Service_Loop
begin

text \<open>
  The watcher of the dynamic configuration file, \<open>internal/config/dynamic_config_watcher.go\<close>: the
  decoding of the file, its initial application, one tick of the polling goroutine and \<open>Close\<close>. What the file
  system answers at a tick and the hexadecimal SHA-256 digest are arguments. A configuration given to
  \<open>applyFunc\<close> is the second result of the function that applies it.
\<close>

section \<open>Model\<close>

record watcher =
  dw_exists :: bool
  dw_hash :: string
  dw_closer :: bool
  dw_quit :: chan_state

text \<open>
  \<open>json.Unmarshal\<close> into a \<open>DynamicCanaryConfig\<close>: both fields are pointers, so that null empties
  them; a value of another kind, or a number that is not a 64-bit integer, is an error.
\<close>

definition set_dynamic_field :: "string \<times> json \<Rightarrow> dynamic_config \<Rightarrow> goerror + dynamic_config" where
  "set_dynamic_field kv dc = (case kv of (k, v) \<Rightarrow>
     let name = fold_name k; mismatch = Inl (NewError ''json: cannot unmarshal value'') in
     if name = ''saramalogenabled'' then
       (case v of JNull \<Rightarrow> Inr (dc\<lparr>SaramaLogEnabled := None\<rparr>)
        | JBool b \<Rightarrow> Inr (dc\<lparr>SaramaLogEnabled := Some b\<rparr>) | _ \<Rightarrow> mismatch)
     else if name = ''verbosityloglevel'' then
       (case v of JNull \<Rightarrow> Inr (dc\<lparr>VerbosityLogLevel := None\<rparr>)
        | JNumber s \<Rightarrow> (case int_literal s of Some i \<Rightarrow> Inr (dc\<lparr>VerbosityLogLevel := Some i\<rparr>) | None \<Rightarrow> mismatch)
        | _ \<Rightarrow> mismatch)
     else Inr dc)"

fun set_dynamic_fields :: "(string \<times> json) list \<Rightarrow> dynamic_config \<Rightarrow> goerror + dynamic_config" where
  "set_dynamic_fields [] dc = Inr dc"
| "set_dynamic_fields (kv # kvs) dc = bindE (set_dynamic_field kv dc) (set_dynamic_fields kvs)"

definition unmarshal_dynamic :: "string \<Rightarrow> dynamic_config \<Rightarrow> goerror + dynamic_config" where
  "unmarshal_dynamic bytes dc = (case parse_json bytes of
       None \<Rightarrow> Inl (NewError ''json: syntax error'')
     | Some (JObject members) \<Rightarrow> set_dynamic_fields members dc
     | Some JNull \<Rightarrow> Inr dc
     | Some _ \<Rightarrow> Inl (NewError ''json: cannot unmarshal value''))"

text \<open>\<open>readAndHash\<close>: the target (nil on an error), the digest and the error.\<close>

definition readAndHash :: "environ \<Rightarrow> (string \<Rightarrow> string) \<Rightarrow> goerror + string
    \<Rightarrow> dynamic_config option \<times> string \<times> goerror option" where
  "readAndHash getenv sha256 read = (case read of
       Inl err \<Rightarrow> (None, '''', Some err)
     | Inr bytes \<Rightarrow> (case unmarshal_dynamic bytes (NewDynamicCanaryConfig getenv) of
           Inl err \<Rightarrow> (None, '''', Some err)
         | Inr target \<Rightarrow> (Some target, sha256 bytes, None)))"

text \<open>The watcher, what it applies at once, and the period of its goroutine if it starts one.\<close>

definition NewDynamicConfigWatcher :: "environ \<Rightarrow> (string \<Rightarrow> string) \<Rightarrow> canary_config \<Rightarrow> goerror + string
    \<Rightarrow> watcher \<times> dynamic_config option \<times> duration option" where
  "NewDynamicConfigWatcher getenv sha256 c read =
     (let w = \<lparr>dw_exists = False, dw_hash = '''', dw_closer = False, dw_quit = OpenChan\<rparr> in
      if DynamicConfigFile c \<noteq> '''' \<and> DynamicConfigWatcherInterval c > 0 then
        (case readAndHash getenv sha256 read of
           (Some target, hsh, None) \<Rightarrow>
             (w\<lparr>dw_hash := hsh, dw_exists := True\<rparr>, Some target, Some (DynamicConfigWatcherInterval c))
         | _ \<Rightarrow> (w, None, Some (DynamicConfigWatcherInterval c)))
      else (w, None, None))"

text \<open>What the file system answers at a tick: to \<open>os.Stat\<close>, and to \<open>ioutil.ReadFile\<close> after it.\<close>

type_synonym observation = "goerror option \<times> (goerror + string)"

definition poll :: "environ \<Rightarrow> (string \<Rightarrow> string) \<Rightarrow> observation \<Rightarrow> watcher \<Rightarrow> watcher \<times> dynamic_config option" where
  "poll getenv sha256 obs w = (case fst obs of
       None \<Rightarrow>
         (let w1 = w\<lparr>dw_exists := True\<rparr> in
          case readAndHash getenv sha256 (snd obs) of
            (Some target, hsh, None) \<Rightarrow>
              if hsh = dw_hash w1 then (w1, None) else (w1\<lparr>dw_hash := hsh\<rparr>, Some target)
          | _ \<Rightarrow> (w1, None))
     | Some err \<Rightarrow>
         if errors_Is err ErrNotExist \<and> dw_exists w
         then (w\<lparr>dw_exists := False\<rparr>, Some (NewDynamicCanaryConfig getenv))
         else (w, None))"

definition dw_Close :: "watcher \<Rightarrow> gopanic + watcher" where
  "dw_Close w = (if dw_closer w then Inr w
     else (case dw_quit w of
         ClosedChan \<Rightarrow> Inl CloseOfClosedChannel
       | OpenChan \<Rightarrow> Inr (w\<lparr>dw_closer := True, dw_quit := ClosedChan\<rparr>)))"

section \<open>Closing\<close>

text \<open>\<open>sync.Once\<close>: the channel is closed once, however often \<open>Close\<close> is called.\<close>

definition closer_ok :: "watcher \<Rightarrow> bool" where
  "closer_ok w \<longleftrightarrow> (dw_closer w \<longleftrightarrow> dw_quit w = ClosedChan)"

lemma new_closer_ok: "closer_ok (fst (NewDynamicConfigWatcher getenv sha256 c read))"
  by (auto simp: NewDynamicConfigWatcher_def closer_ok_def Let_def split: option.splits prod.splits)

lemma poll_closer_ok: "closer_ok w \<Longrightarrow> closer_ok (fst (poll getenv sha256 obs w))"
  by (auto simp: poll_def closer_ok_def Let_def split: option.splits prod.splits)

lemma close_ok: "closer_ok w \<Longrightarrow> \<exists>w'. dw_Close w = Inr w' \<and> closer_ok w' \<and> dw_quit w' = ClosedChan
    \<and> dw_Close w' = Inr w'"
  by (intro exI [of _ "if dw_closer w then w else w\<lparr>dw_closer := True, dw_quit := ClosedChan\<rparr>"])
    (auto simp: dw_Close_def closer_ok_def split: chan_state.splits)

section \<open>The configuration in effect\<close>

text \<open>The polls of the goroutine, with the configuration last applied.\<close>

fun watch :: "environ \<Rightarrow> (string \<Rightarrow> string) \<Rightarrow> observation list \<Rightarrow> watcher \<times> dynamic_config \<Rightarrow> watcher \<times> dynamic_config" where
  "watch getenv sha256 [] st = st"
| "watch getenv sha256 (obs # rest) (w, dc) = (case poll getenv sha256 obs w of
     (w', applied) \<Rightarrow> watch getenv sha256 rest (w', case applied of None \<Rightarrow> dc | Some d \<Rightarrow> d))"

text \<open>
  The abstract view: the contents seen at a tick if they decode, and the configuration that should
  be in effect after it.
\<close>

definition decoded :: "environ \<Rightarrow> string \<Rightarrow> dynamic_config option" where
  "decoded getenv b = (case unmarshal_dynamic b (NewDynamicCanaryConfig getenv) of Inl _ \<Rightarrow> None | Inr d \<Rightarrow> Some d)"

definition contents :: "environ \<Rightarrow> observation \<Rightarrow> string option" where
  "contents getenv obs = (case obs of
       (None, Inr b) \<Rightarrow> if decoded getenv b = None then None else Some b
     | _ \<Rightarrow> None)"

definition missing :: "observation \<Rightarrow> bool" where
  "missing obs = (case fst obs of None \<Rightarrow> False | Some err \<Rightarrow> errors_Is err ErrNotExist)"

definition desired :: "environ \<Rightarrow> observation \<Rightarrow> dynamic_config \<Rightarrow> dynamic_config" where
  "desired getenv obs dc = (case contents getenv obs of
       Some b \<Rightarrow> the (decoded getenv b)
     | None \<Rightarrow> if missing obs then NewDynamicCanaryConfig getenv else dc)"

text \<open>The file never comes back with the contents it had when it was deleted.\<close>

fun never_restored :: "environ \<Rightarrow> string option \<Rightarrow> bool \<Rightarrow> observation list \<Rightarrow> bool" where
  "never_restored getenv lst gone [] = True"
| "never_restored getenv lst gone (obs # rest) = (case contents getenv obs of
     Some b \<Rightarrow> \<not> (gone \<and> lst = Some b) \<and> never_restored getenv (Some b) False rest
   | None \<Rightarrow> never_restored getenv lst (gone \<or> missing obs) rest)"

text \<open>What the fields of the watcher mean while the hypothesis holds.\<close>

definition tracks :: "environ \<Rightarrow> (string \<Rightarrow> string) \<Rightarrow> string option \<Rightarrow> bool \<Rightarrow> watcher \<Rightarrow> dynamic_config \<Rightarrow> bool" where
  "tracks getenv sha256 lst gone w dc \<longleftrightarrow>
     dw_hash w = (case lst of None \<Rightarrow> '''' | Some b \<Rightarrow> sha256 b)
   \<and> (\<not> dw_exists w \<longrightarrow> dc = NewDynamicCanaryConfig getenv)
   \<and> (\<forall>b. lst = Some b \<and> \<not> gone \<longrightarrow> decoded getenv b = Some dc)"

lemma poll_tracks:
  assumes "tracks getenv sha256 lst gone w dc"
    and "never_restored getenv lst gone (obs # rest)"
    and "\<And>b b'. contents getenv obs = Some b \<Longrightarrow> lst = Some b' \<Longrightarrow> sha256 b = sha256 b' \<Longrightarrow> b = b'"
    and "\<And>b. contents getenv obs = Some b \<Longrightarrow> sha256 b \<noteq> ''''"
    and p: "poll getenv sha256 obs w = (w', applied)"
  shows "tracks getenv sha256 (case contents getenv obs of None \<Rightarrow> lst | Some b \<Rightarrow> Some b)
           (case contents getenv obs of None \<Rightarrow> gone \<or> missing obs | Some _ \<Rightarrow> False) w' (desired getenv obs dc)
       \<and> (case applied of None \<Rightarrow> dc | Some d \<Rightarrow> d) = desired getenv obs dc"
proof (cases obs)
  case (Pair st rd)
  show ?thesis
  proof (cases "contents getenv obs")
    case None
    with assms(1) p Pair show ?thesis
      by (auto simp: tracks_def contents_def missing_def desired_def poll_def readAndHash_def decoded_def Let_def
          split: option.splits sum.splits if_splits)
  next
    case (Some b)
    with Pair have st: "st = None" "rd = Inr b" and d: "decoded getenv b \<noteq> None"
      by (auto simp: contents_def split: option.splits sum.splits if_splits)
    then obtain d where d: "unmarshal_dynamic b (NewDynamicCanaryConfig getenv) = Inr d" "decoded getenv b = Some d"
      by (auto simp: decoded_def split: sum.splits)
    have same: "decoded getenv b = Some dc" if "sha256 b = dw_hash w"
      using that assms(1-4) Some by (cases lst) (auto simp: tracks_def)
    from p Pair st d have "w' = w\<lparr>dw_exists := True, dw_hash := sha256 b\<rparr>"
      "applied = (if sha256 b = dw_hash w then None else Some d)"
      by (auto simp: poll_def readAndHash_def Let_def split: if_splits)
    with Some d same show ?thesis by (auto simp: tracks_def desired_def split: if_splits)
  qed
qed

lemma watch_tracks:
  assumes "tracks getenv sha256 lst gone w dc" and "never_restored getenv lst gone obs"
    and "inj_on sha256 B" "set_option lst \<subseteq> B" "\<forall>b\<in>B. sha256 b \<noteq> ''''"
    and "\<forall>x\<in>set obs. set_option (contents getenv x) \<subseteq> B"
  shows "snd (watch getenv sha256 obs (w, dc)) = fold (desired getenv) obs dc"
  using assms
proof (induction obs arbitrary: lst gone w dc)
  case (Cons x obs)
  obtain w' applied where p: "poll getenv sha256 x w = (w', applied)" by force
  let ?lst = "case contents getenv x of None \<Rightarrow> lst | Some b \<Rightarrow> Some b"
  let ?gone = "case contents getenv x of None \<Rightarrow> gone \<or> missing x | Some _ \<Rightarrow> False"
  have step: "tracks getenv sha256 ?lst ?gone w' (desired getenv x dc)
      \<and> (case applied of None \<Rightarrow> dc | Some d \<Rightarrow> d) = desired getenv x dc"
  proof (rule poll_tracks [OF Cons.prems(1,2) _ _ p])
    show "b = b'" if "contents getenv x = Some b" "lst = Some b'" "sha256 b = sha256 b'" for b b'
    proof (rule inj_onD [OF Cons.prems(3) that(3)])
      show "b \<in> B" "b' \<in> B" using that(1,2) Cons.prems(4,6) by auto
    qed
    show "sha256 b \<noteq> ''''" if "contents getenv x = Some b" for b
      using that Cons.prems(5,6) by auto
  qed
  moreover have "never_restored getenv ?lst ?gone obs"
    using Cons.prems(2) by (auto split: option.splits)
  moreover have "set_option ?lst \<subseteq> B"
    using Cons.prems(4,6) by (auto split: option.splits)
  ultimately have "snd (watch getenv sha256 obs (w', desired getenv x dc)) = fold (desired getenv) obs (desired getenv x dc)"
    using Cons.prems(3,5,6) by (intro Cons.IH [of ?lst ?gone]) auto
  with p step show ?case by simp
qed simp

text \<open>
  C23: the watcher keeps the configuration in effect equal to the one the file asks for. Whatever
  the start and the ticks find (a file that decodes, one that does not, one that cannot be read, no
  file), the configuration applied last is the one an ideal observer of the same sequence would
  have: that of the newest contents that decoded, or the default one when the file has gone since.
  The digest is assumed not to collide and not to be empty on the contents seen, and the file not
  to come back with the contents it had when it was deleted.
\<close>

theorem watcher_tracks_file:
  assumes "DynamicConfigFile c \<noteq> ''''" "0 < DynamicConfigWatcherInterval c"
    and start: "NewDynamicConfigWatcher getenv sha256 c read = (w, applied, period)"
    and "inj_on sha256 (\<Union>x\<in>set ((None, read) # obs). set_option (contents getenv x))"
    and "\<forall>b\<in>(\<Union>x\<in>set ((None, read) # obs). set_option (contents getenv x)). sha256 b \<noteq> ''''"
    and "never_restored getenv None False ((None, read) # obs)"
  shows "snd (watch getenv sha256 obs (w, case applied of None \<Rightarrow> NewDynamicCanaryConfig getenv | Some d \<Rightarrow> d))
    = fold (desired getenv) ((None, read) # obs) (NewDynamicCanaryConfig getenv)"
proof -
  define B where "B = (\<Union>x\<in>set ((None, read) # obs). set_option (contents getenv x))"
  have B: "set_option (contents getenv (None, read)) \<subseteq> B" "\<forall>x\<in>set obs. set_option (contents getenv x) \<subseteq> B"
    by (auto simp: B_def)
  let ?dc = "case applied of None \<Rightarrow> NewDynamicCanaryConfig getenv | Some d \<Rightarrow> d"
  have first: "tracks getenv sha256 (contents getenv (None, read)) False w ?dc
     \<and> ?dc = desired getenv (None, read) (NewDynamicCanaryConfig getenv)"
    using assms(1,2) start
    by (auto simp: NewDynamicConfigWatcher_def readAndHash_def tracks_def desired_def contents_def missing_def
        decoded_def Let_def split: sum.splits)
  have rest: "never_restored getenv (contents getenv (None, read)) False obs"
    using assms(6) by (auto simp: missing_def split: option.splits)
  have "snd (watch getenv sha256 obs (w, ?dc)) = fold (desired getenv) obs ?dc"
    by (rule watch_tracks [OF conjunct1 [OF first] rest _ B(1) _ B(2)])
      (use assms(4,5) in \<open>simp_all only: B_def\<close>)
  also have "\<dots> = fold (desired getenv) ((None, read) # obs) (NewDynamicCanaryConfig getenv)"
    using conjunct2 [OF first] by (simp only: fold_simps)
  finally show ?thesis .
qed

definition log_on :: string where
  "log_on = ''{'' @ quoted ''saramaLogEnabled'' @ '':true}''"

definition default_dynamic :: dynamic_config where
  "default_dynamic = \<lparr>SaramaLogEnabled = Some False, VerbosityLogLevel = Some 0\<rparr>"

lemma no_env: "NewDynamicCanaryConfig Map.empty = default_dynamic"
  by (simp add: NewDynamicCanaryConfig_def default_dynamic_def lookupBoolEnv_def lookupIntEnv_def config_consts)

lemma decoded_samples:
  "decoded Map.empty log_on = Some (default_dynamic\<lparr>SaramaLogEnabled := Some True\<rparr>)"
  "decoded Map.empty ''null'' = Some default_dynamic" "decoded Map.empty ''{'' = None"
  unfolding decoded_def no_env by code_simp+

text \<open>
  The witness: the file is there at the start, then deleted, then back with other contents, then
  broken, and the digest is a function that does not collide.
\<close>

definition gone_for_good :: observation where
  "gone_for_good = (Some ErrNotExist, Inl ErrNotExist)"

theorem watcher_tracks_file_witness:
  "(case NewDynamicConfigWatcher Map.empty (\<lambda>b. ''#'' @ b) (sample_config\<lparr>DynamicConfigFile := ''/c.json''\<rparr>) (Inr log_on) of
      (w, applied, period) \<Rightarrow> applied = Some (default_dynamic\<lparr>SaramaLogEnabled := Some True\<rparr>) \<and> period = Some 30000
        \<and> snd (watch Map.empty (\<lambda>b. ''#'' @ b) [gone_for_good, (None, Inr ''null''), (None, Inr ''{'')]
             (w, default_dynamic\<lparr>SaramaLogEnabled := Some True\<rparr>)) = default_dynamic)"
proof -
  let ?c = "sample_config\<lparr>DynamicConfigFile := ''/c.json''\<rparr>" and ?h = "\<lambda>b. ''#'' @ b"
  let ?obs = "[gone_for_good, (None, Inr ''null''), (None, Inr ''{'')] :: observation list"
  have seen: "contents Map.empty (None, Inr log_on) = Some log_on" "contents Map.empty gone_for_good = None"
    "contents Map.empty (None, Inr ''null'') = Some ''null''" "contents Map.empty (None, Inr ''{'') = None"
    "missing gone_for_good"
    by (simp_all add: contents_def decoded_samples gone_for_good_def missing_def)
  have other: "log_on \<noteq> ''null''" by (simp add: log_on_def)
  obtain d where "unmarshal_dynamic log_on default_dynamic = Inr d" "d = default_dynamic\<lparr>SaramaLogEnabled := Some True\<rparr>"
    using decoded_samples(1) by (auto simp: decoded_def no_env split: sum.splits)
  then obtain w where start: "NewDynamicConfigWatcher Map.empty ?h ?c (Inr log_on)
      = (w, Some (default_dynamic\<lparr>SaramaLogEnabled := Some True\<rparr>), Some 30000)"
    by (simp add: NewDynamicConfigWatcher_def readAndHash_def no_env sample_config_def)
  have "snd (watch Map.empty ?h ?obs (w, default_dynamic\<lparr>SaramaLogEnabled := Some True\<rparr>)) = default_dynamic"
    using watcher_tracks_file [OF _ _ start, of ?obs] other
    by (simp add: seen desired_def decoded_samples no_env sample_config_def)
  with start show ?thesis by simp
qed

text \<open>
  The hypothesis is needed: the digest survives the deletion, so that a file that comes back with
  the contents it had is never applied again, however long it stays; the defaults remain in effect.
\<close>

lemma restored_file_is_ignored:
  assumes "decoded getenv b = Some d" "dw_exists w" "dw_hash w = sha256 b"
  shows "snd (watch getenv sha256 (gone_for_good # replicate n (None, Inr b)) (w, d)) = NewDynamicCanaryConfig getenv"
proof -
  have stays: "snd (watch getenv sha256 (replicate n (None, Inr b)) (w1, dc)) = dc" if "dw_hash w1 = sha256 b" for w1 dc
    using that
  proof (induction n arbitrary: w1)
    case (Suc n)
    have "poll getenv sha256 (None, Inr b) w1 = (w1\<lparr>dw_exists := True\<rparr>, None)"
      using assms(1) Suc.prems by (auto simp: poll_def readAndHash_def decoded_def split: sum.splits)
    with Suc show ?case by simp
  qed simp
  show ?thesis using assms(2,3) stays by (simp add: poll_def gone_for_good_def)
qed

end
