(* ===== verification/Canary_Main.thy ===== *)
theory Canary_Main
  imports Client_Setup Http_Server Tracing Dynamic_Watcher
begin

text \<open>
  The process, \<open>cmd/main.go\<close>: the application of a dynamic configuration, and the order in which \<open>main\<close>
  reads the environment, builds, starts and stops everything, with the other goroutines running until the
  signal and the deferred shutdown of the tracer. What it uses of libraries without a model of their own is an argument (record
  \<open>platform\<close>): the flag package, Sarama's default configuration and version parser, the TLS and
  tracing libraries, the file with the dynamic configuration and its digest.
\<close>

section \<open>Logging\<close>

text \<open>
  The verbosity flag, and whether Sarama's logger writes to the standard output. Parsing the
  command line again after the flag was set gives the value \<open>flag_Parse\<close> of it.
\<close>

record logging =
  lg_v :: string
  lg_sarama :: bool

definition applyDynamicConfig :: "(string \<Rightarrow> string) \<Rightarrow> dynamic_config \<Rightarrow> logging \<Rightarrow> logging" where
  "applyDynamicConfig flag_Parse dc lg =
     (let lg1 = (case VerbosityLogLevel dc of None \<Rightarrow> lg | Some l \<Rightarrow> lg\<lparr>lg_v := flag_Parse (Itoa l)\<rparr>) in
      if SaramaLogEnabled dc \<noteq> None \<and> the (SaramaLogEnabled dc) then lg1\<lparr>lg_sarama := True\<rparr>
      else lg1\<lparr>lg_sarama := False\<rparr>)"

section \<open>The process\<close>

text \<open>The libraries of \<open>main\<close>, and the state of the process outside the manager.\<close>

record platform =
  pf_getenv :: environ
  pf_ParseFloat :: float_parser
  pf_flag_Set :: "string \<Rightarrow> string \<Rightarrow> goerror option"
  pf_flag_Parse :: "string \<Rightarrow> string"
  pf_tracing :: tracing_library
  pf_ReadFile :: "goerror + string"
  pf_sha256 :: "string \<Rightarrow> string"
  pf_ParseKafkaVersion :: "string \<Rightarrow> goerror + string"
  pf_NewConfig :: sarama_config
  pf_tls :: tls_library
  pf_sasl :: sasl_constants

record process =
  pr_logtostderr :: bool
  pr_logging :: logging
  pr_provider :: tracer_provider
  pr_tracer_down :: bool
  pr_watcher :: "watcher option"
  pr_period :: "duration option"
  pr_http :: "http_server option"

definition process_init :: process where
  "process_init = \<lparr>pr_logtostderr = False, pr_logging = \<lparr>lg_v = ''0'', lg_sarama = False\<rparr>, pr_provider = DefaultProvider,
     pr_tracer_down = False, pr_watcher = None, pr_period = None, pr_http = None\<rparr>"

type_synonym ('e, 'a) process_routine = "(process, 'e, 'a) routine"

definition or_crash :: "crash + 'a \<Rightarrow> ('s, 'a) go" where
  "or_crash r = (case r of Inl cr \<Rightarrow> crash cr | Inr a \<Rightarrow> ret a)"

text \<open>
  A deferred function runs when \<open>main\<close> returns and when its goroutine panics; \<open>glog.Fatalf\<close> exits without
  running it.
\<close>

definition on_panic :: "('s, unit) go \<Rightarrow> ('s, 'a) go \<Rightarrow> ('s, 'a) go" where
  "on_panic d m s = (case m s of
       Some (Crashed (Panic p) s') \<Rightarrow> andthen d (\<lambda>_. crash (Panic p)) s'
     | r \<Rightarrow> r)"

definition deferring :: "('s, unit) go \<Rightarrow> ('s, unit) go \<Rightarrow> ('s, unit) go" where
  "deferring d m = andthen (on_panic d m) (\<lambda>_. d)"

text \<open>The deferred function of \<open>main\<close>; an error of the shutdown is only logged.\<close>

definition shut_tracer :: "tracer_provider option \<Rightarrow> ('e, unit) process_routine" where
  "shut_tracer tp = whenever (tp \<noteq> None) (set_self (pr_tracer_down_update (\<lambda>_. True)))"

text \<open>
  What a new watcher applies at once; \<open>NewDynamicConfigWatcher\<close> never returns an error, so that the exit
  of \<open>main\<close> for it is not reached.
\<close>

definition start_watcher :: "platform \<Rightarrow> canary_config \<Rightarrow> ('e, unit) process_routine" where
  "start_watcher pf c = (case NewDynamicConfigWatcher (pf_getenv pf) (pf_sha256 pf) c (pf_ReadFile pf) of
       (w, applied, period) \<Rightarrow>
         andthen (set_self (\<lambda>pr. pr\<lparr>pr_watcher := Some w, pr_period := period\<rparr>)) (\<lambda>_. case applied of
             None \<Rightarrow> ret ()
           | Some dc \<Rightarrow> set_self (pr_logging_update (applyDynamicConfig (pf_flag_Parse pf) dc))))"

definition set_up :: "platform \<Rightarrow> 'e externals \<Rightarrow> canary_config \<Rightarrow> ('e, canary_manager \<times> handle \<times> handle) process_routine" where
  "set_up pf api c =
     andthen (start_watcher pf c) (\<lambda>_.
     andthen (checked (NewStatusService c)) (\<lambda>statusService.
     andthen (checked NewHttpServer) (\<lambda>httpServer.
     andthen (set_self (pr_http_update (\<lambda>_. Some (hs_Start httpServer)))) (\<lambda>_.
     andthen (build_manager api c statusService
                (createSaramaConfig (pf_ParseKafkaVersion pf) (pf_NewConfig pf) (pf_tls pf) (pf_sasl pf) c)) (\<lambda>built.
     andthen (RegisterMetrics api (fst built)) (\<lambda>_. ret built))))))"

text \<open>
  While \<open>main\<close> waits for a signal the other goroutines take their steps: the handlers of the services, the
  polls of the watcher (if it has a goroutine), and the goroutine of the HTTP server.
\<close>

record running =
  rn_process :: process
  rn_manager :: canary_manager

datatype process_event = Serviced service_event | Polled observation | Listened "goerror option"

definition watcher_poll :: "platform \<Rightarrow> observation \<Rightarrow> process \<Rightarrow> process" where
  "watcher_poll pf obs pr = (case (pr_watcher pr, pr_period pr) of
       (Some w, Some period) \<Rightarrow>
         (case poll (pf_getenv pf) (pf_sha256 pf) obs w of (w', applied) \<Rightarrow>
            pr\<lparr>pr_watcher := Some w', pr_logging := (case applied of
                None \<Rightarrow> pr_logging pr | Some dc \<Rightarrow> applyDynamicConfig (pf_flag_Parse pf) dc (pr_logging pr))\<rparr>)
     | _ \<Rightarrow> pr)"

fun happen :: "platform \<Rightarrow> 'e externals \<Rightarrow> process_event \<Rightarrow> (running, 'e, unit) routine" where
  "happen pf api (Serviced ev) = on_field rn_manager rn_manager_update (handle api ev)"
| "happen pf api (Polled obs) = set_self (rn_process_update (watcher_poll pf obs))"
| "happen pf api (Listened bind_error) = set_self (rn_process_update (pr_http_update (map_option (hs_listen bind_error))))"

text \<open>
  From the start of the manager to its stop. A panic of a goroutine other than that of \<open>main\<close> ends the
  process without its deferred function.
\<close>

definition run_canary :: "platform \<Rightarrow> 'e externals \<Rightarrow> tracer_provider option \<Rightarrow> process_event list \<Rightarrow> (running, 'e, unit) routine" where
  "run_canary pf api tp evs =
     andthen (on_panic (on_field rn_process rn_process_update (shut_tracer tp)) (on_field rn_manager rn_manager_update (cm_Start api))) (\<lambda>_.
     andthen (for_each (happen pf api) evs) (\<lambda>_.
       on_panic (on_field rn_process rn_process_update (shut_tracer tp)) (on_field rn_manager rn_manager_update (cm_Stop api))))"

definition with_manager :: "canary_manager \<Rightarrow> (running, 'e, unit) routine \<Rightarrow> ('e, unit) process_routine" where
  "with_manager cm m s = map_option (map_outcome id (\<lambda>i. \<lparr>self = rn_process (self i), world = world i\<rparr>))
     (m \<lparr>self = \<lparr>rn_process = self s, rn_manager = cm\<rparr>, world = world s\<rparr>)"

text \<open>The errors of closing the clients are ignored.\<close>

definition clean_up :: "'e externals \<Rightarrow> handle \<Rightarrow> handle \<Rightarrow> ('e, unit) process_routine" where
  "clean_up api producerClient consumerClient =
     andthen (set_self (pr_http_update (map_option hs_Stop))) (\<lambda>_.
     andthen (get_self pr_watcher) (\<lambda>w.
     andthen (case w of None \<Rightarrow> ret () | Some dynamicConfigWatcher \<Rightarrow>
                andthen (checked (dw_Close dynamicConfigWatcher)) (\<lambda>w'. set_self (pr_watcher_update (\<lambda>_. Some w')))) (\<lambda>_.
     andthen (extern (ClientClose producerClient) (x_ClientClose api producerClient)) (\<lambda>_.
     andthen (extern (ClientClose consumerClient) (x_ClientClose api consumerClient)) (\<lambda>_.
       ret ())))))"

text \<open>The second half of \<open>main\<close>. The ticker of the watcher is made by the goroutine of the watcher.\<close>

definition run_and_stop :: "platform \<Rightarrow> 'e externals \<Rightarrow> tracer_provider option \<Rightarrow> process_event list
    \<Rightarrow> canary_manager \<times> handle \<times> handle \<Rightarrow> ('e, unit) process_routine" where
  "run_and_stop pf api tp evs built = (case built of (canaryManager, producerClient, consumerClient) \<Rightarrow>
     andthen (get_self pr_period) (\<lambda>period.
     andthen (case period of None \<Rightarrow> ret () | Some ms \<Rightarrow> andthen (checked (NewTicker ms)) (\<lambda>_. ret ())) (\<lambda>_.
     andthen (with_manager canaryManager (run_canary pf api tp evs)) (\<lambda>_.
       deferring (shut_tracer tp) (clean_up api producerClient consumerClient)))))"

text \<open>\<open>main\<close>, with the steps \<open>evs\<close> of the other goroutines until a signal arrives.\<close>

definition main :: "platform \<Rightarrow> 'e externals \<Rightarrow> process_event list \<Rightarrow> ('e, unit) process_routine" where
  "main pf api evs =
     andthen (or_crash (NewCanaryConfig (pf_getenv pf) (pf_ParseFloat pf))) (\<lambda>canaryConfig.
     andthen (set_self (pr_logtostderr_update (\<lambda>b. pf_flag_Set pf ''logtostderr'' ''true'' = None \<or> b))) (\<lambda>_.
     andthen (set_self (pr_logging_update (applyDynamicConfig (pf_flag_Parse pf) (Dynamic canaryConfig)))) (\<lambda>_.
     andthen (checked (initTracerProvider (pf_tracing pf) (TracingExporter canaryConfig))) (\<lambda>(global, tp).
     andthen (set_self (pr_provider_update (\<lambda>_. global))) (\<lambda>_.
     andthen (on_panic (shut_tracer tp) (set_up pf api canaryConfig)) (\<lambda>built.
       run_and_stop pf api tp evs built))))))"

section \<open>The whole run\<close>

lemma gowp_or_crash [go_simps]:
  "gowp d (or_crash r) Q E s = (case r of Inl cr \<Rightarrow> E cr s | Inr a \<Rightarrow> Q a s)"
  by (simp add: or_crash_def go_simps split: sum.splits)

lemma gowp_on_panic [go_simps]:
  "gowp d (on_panic m n) Q E s = gowp d n Q (\<lambda>cr s'. case cr of
       Panic p \<Rightarrow> gowp d m (\<lambda>_. E (Panic p)) E s' | Fatal msg \<Rightarrow> E cr s') s"
  by (simp add: gowp_def on_panic_def andthen_def crash_def split: option.splits outcome.splits crash.splits)

lemma gowp_with_manager [go_simps]:
  "gowp d (with_manager cm m) Q E s = gowp d m (\<lambda>_ i. Q () \<lparr>self = rn_process (self i), world = world i\<rparr>)
     (\<lambda>cr i. E cr \<lparr>self = rn_process (self i), world = world i\<rparr>)
     \<lparr>self = \<lparr>rn_process = self s, rn_manager = cm\<rparr>, world = world s\<rparr>"
  by (auto simp: gowp_def with_manager_def split: option.splits outcome.splits)

lemma main_returned:
  "or_crash r s = Some (Returned a t) \<longleftrightarrow> r = Inr a \<and> s = t"
  "on_panic d m s' = Some (Returned b t') \<longleftrightarrow> m s' = Some (Returned b t')"
  "with_manager cm n v = Some (Returned u w) \<longleftrightarrow> (\<exists>i. n \<lparr>self = \<lparr>rn_process = self v, rn_manager = cm\<rparr>, world = world v\<rparr>
     = Some (Returned u i) \<and> w = \<lparr>self = rn_process (self i), world = world i\<rparr>)"
  by (auto simp: or_crash_def on_panic_def with_manager_def ret_def crash_def andthen_def map_outcome_Returned
      split: sum.splits option.splits outcome.splits crash.splits)

text \<open>The parts of \<open>main\<close> that make no request.\<close>

abbreviation quietly :: "('c, 'e world) ctx \<Rightarrow> ('c, 'e world) ctx \<Rightarrow> bool" where
  "quietly s s' \<equiv> world s' = world s"

lemma start_watcher_quiet: "gowp False (start_watcher pf c) (\<lambda>_ s'. world s' = world s \<and> pr_http (self s') = pr_http (self s)
    \<and> pr_tracer_down (self s') = pr_tracer_down (self s)
    \<and> (\<exists>w. pr_watcher (self s') = Some w \<and> closer_ok w)
    \<and> (\<forall>ms. pr_period (self s') = Some ms \<longrightarrow> ms = DynamicConfigWatcherInterval c \<and> 0 < ms)) (\<lambda>_ _. False) s"
  using new_closer_ok [of "pf_getenv pf" "pf_sha256 pf" c "pf_ReadFile pf"]
  by (auto simp: start_watcher_def go_simps NewDynamicConfigWatcher_def Let_def split: prod.splits option.splits if_splits)

lemma happen_adds: "safe True (\<lambda>_. True) (adds (\<lambda>_. True)) (happen pf api ev) s"
proof (cases ev)
  case (Serviced sv)
  have "safe True (\<lambda>_. True) (adds (\<lambda>_. True)) (handle api sv) t" for t
  proof (cases "sv = StatusTick")
    case True
    have check: "safe True (\<lambda>_. True) (adds (\<lambda>_. True)) statusCheck u" for u :: "(status_service, 'a world) ctx"
      unfolding statusCheck_def by (intro adds.safe_steps safe_set_self TrueI) (simp_all add: adds_def)
    show ?thesis by (simp add: True) (rule safe_on_field [OF check], simp add: adds_def)
  next
    case False
    show ?thesis
      by (rule safe_weaken [OF handle_steady [OF False]]) (auto simp: steady_def well_def tallied_def adds_def)
  qed
  then show ?thesis by (simp add: Serviced) (rule safe_on_field, assumption, simp add: adds_def)
qed (simp_all add: safe_def go_simps adds_def)

text \<open>The requests of the stop, whatever the state it starts from, if it returns.\<close>

definition stopping :: "call list \<Rightarrow> bool" where
  "stopping cs \<longleftrightarrow> (\<exists>p k g hs. cs = [ProducerClose p, CancelContext k, ConsumerGroupClose g] @ map AdminClose hs
     \<and> 0 < length hs \<and> length hs \<le> 2)"

lemma stop_calls:
  assumes "cm_Stop api s = Some (Returned () s')"
  shows "\<exists>cs. calls (world s') = calls (world s) @ cs \<and> stopping cs"
proof -
  have stop: "stopping ([ProducerClose p, CancelContext k, ConsumerGroupClose g] @ map AdminClose hs)"
    if "0 < length hs" "length hs \<le> 2" for p k g hs
    using that unfolding stopping_def by blast
  have "gowp True (cm_Stop api) (\<lambda>_ s'. \<exists>cs. calls (world s') = calls (world s) @ cs \<and> stopping cs) (\<lambda>_ _. True) s"
    using stop [of "[_]"] stop [of "[_, _]"]
    by (auto simp: cm_Stop_def ps_Close_def cs_Close_def cs_cancel_call_def ts_Close_def cn_Close_def cn_close_admin_def
        ss_Close_def go_simps split: prod.splits option.splits sum.splits)
  from gowp_ReturnedD [OF this assms] show ?thesis .
qed

text \<open>The life of the manager in a run, and the end of \<open>main\<close>.\<close>

lemma run_canary_calls:
  assumes "run_canary pf api tp evs s = Some (Returned () s')"
  shows "\<exists>pre requests result k sent mid cs. calls (world s') = calls (world s) @ pre @ requests @ timed_out_attempts k
       @ [WaitReady waitConsumeTimeout] @ sent @ mid @ cs \<and> (\<forall>x\<in>set (pre @ requests). \<not> traffic x) \<and> k \<le> 3
     \<and> reconciled_by api (ts_canaryConfig (cm_topicService (rn_manager (self s)))) (calls (world s) @ pre) requests result
     \<and> round_of (cm_producerService (rn_manager (self s))) (length (Assignments result)) sent \<and> stopping cs"
proof -
  from assms obtain t1 s2 t2 where
    1: "cm_Start api \<lparr>self = rn_manager (self s), world = world s\<rparr> = Some (Returned () t1)"
    and 2: "for_each (happen pf api) evs \<lparr>self = (self s)\<lparr>rn_manager := self t1\<rparr>, world = world t1\<rparr> = Some (Returned () s2)"
    and 3: "cm_Stop api \<lparr>self = rn_manager (self s2), world = world s2\<rparr> = Some (Returned () t2)" "world s' = world t2"
    by (auto simp: run_canary_def returned_iffs main_returned on_field_returned)
  from gowp_ReturnedD [OF start_spec [OF reconciles_partly], OF _ _ _ 1] obtain pre requests result k sent where
    started: "calls (world t1) = calls (world s) @ pre @ requests @ timed_out_attempts k @ [WaitReady waitConsumeTimeout] @ sent"
      "\<forall>x\<in>set pre. \<not> traffic x" "k \<le> 3"
      "reconciled_by api (ts_canaryConfig (cm_topicService (rn_manager (self s)))) (calls (world s) @ pre) requests result"
      "round_of (cm_producerService (rn_manager (self s))) (length (Assignments result)) sent"
    by (auto simp: started_def)
  from safe_returnedD [OF adds.safe_for_each [OF happen_adds] 2] obtain mid where mid: "calls (world s2) = calls (world t1) @ mid"
    by (auto simp: adds_def)
  from stop_calls [OF 3(1)] obtain cs where cs: "calls (world t2) = calls (world s2) @ cs" "stopping cs" by auto
  have "calls (world s') = calls (world s) @ pre @ requests @ timed_out_attempts k @ [WaitReady waitConsumeTimeout] @ sent @ mid @ cs"
    using started(1) mid cs(1) 3(2) by simp
  moreover have "\<forall>x\<in>set (pre @ requests). \<not> traffic x"
    using started(2) reconciled_by_requests(2) [OF started(4)] by auto
  ultimately show ?thesis using started(3-5) cs(2) by blast
qed

lemma clean_up_calls: "gowp True (deferring (shut_tracer tp) (clean_up api p q))
    (\<lambda>_ s'. calls (world s') = calls (world s) @ [ClientClose p, ClientClose q]) (\<lambda>_ _. True) s"
  by (auto simp: deferring_def clean_up_def shut_tracer_def go_simps split: option.splits prod.splits sum.splits crash.splits)

text \<open>
  C1: the requests of a whole run. A run of \<open>main\<close> that ends normally has accepted a configuration, and makes
  these requests and no other, in this order (those that the goroutines of the attempts to join make during the
  start belong to \<open>Consumer_Attempts\<close>): it connects the producer's client and the consumer's, creates the
  producer on the one and the group on the other; checks the connections and tries to reconcile, with no record sent or
  consumed; then a reconcile of the configured topic succeeds, which describes the cluster and then the topic; it joins the
  group, after at most three attempts that timed out; sends, on the producer it has created, one message to each partition
  that this reconcile assigned; then come the requests of the running goroutines; then the producer, the consumer and the one or two
  admin clients are closed, in this order, and at last the two clients it has connected.
\<close>

theorem main_trace:
  assumes run: "main pf api evs s = Some (Returned () s')"
  shows "\<exists>c p q ds ds' built pre requests result as h bs k ps sent mid cs.
       NewCanaryConfig (pf_getenv pf) (pf_ParseFloat pf) = Inr c
     \<and> built = calls (world s) @ connecting c ds @ connecting c ds' @ [NewSyncProducer p, NewConsumerGroup (ConsumerGroupID c) q]
     \<and> calls (world s') = built @ pre @ requests @ timed_out_attempts k @ [WaitReady waitConsumeTimeout] @ sent
         @ mid @ cs @ [ClientClose p, ClientClose q]
     \<and> (\<forall>x\<in>set (pre @ requests). \<not> traffic x) \<and> k \<le> 3
     \<and> reconciled_by api c (built @ pre) requests result
     \<and> requests = as @ [DescribeCluster h, DescribeTopics h [Topic c]] @ bs
     \<and> ps_canaryConfig ps = c \<and> ps_client ps = p \<and> ps_index ps = 0 \<and> round_of ps (length (Assignments result)) sent
     \<and> stopping cs"
proof -
  from run obtain c tp x0 s1 ss x2 cm p q s3 s4 w t1 where
    c: "NewCanaryConfig (pf_getenv pf) (pf_ParseFloat pf) = Inr c"
    and 1: "start_watcher pf c (s\<lparr>self := x0\<rparr>) = Some (Returned () s1)"
    and 2: "build_manager api c ss (createSaramaConfig (pf_ParseKafkaVersion pf) (pf_NewConfig pf) (pf_tls pf) (pf_sasl pf) c)
      (s1\<lparr>self := x2\<rparr>) = Some (Returned (cm, p, q) s3)"
    and 3: "RegisterMetrics api cm s3 = Some (Returned () s4)"
    and 4: "run_canary pf api tp evs \<lparr>self = \<lparr>rn_process = self s4, rn_manager = cm\<rparr>, world = world s4\<rparr> = Some (Returned () t1)"
    and 5: "deferring (shut_tracer tp) (clean_up api p q) \<lparr>self = rn_process (self t1), world = world t1\<rparr> = Some (Returned () s')"
    by (auto simp: main_def run_and_stop_def set_up_def returned_iffs returned_case_iffs main_returned set_self_returned
        get_self_returned)
  from gowp_ReturnedD [OF gowp_weaken [OF gowp_build_manager], OF 2] obtain config ds ds' where
    fresh: "fresh_manager c config ss p q cm" and built: "calls (world s3) = calls (world s1) @ connecting c ds
      @ connecting c ds' @ [NewSyncProducer p, NewConsumerGroup (ConsumerGroupID c) q]" by auto
  let ?built = "calls (world s) @ connecting c ds @ connecting c ds' @ [NewSyncProducer p, NewConsumerGroup (ConsumerGroupID c) q]"
  have "world s1 = world s"
    using gowp_ReturnedD [OF start_watcher_quiet 1] by simp
  moreover have "calls (world s4) = calls (world s3)"
    using 3 by (auto simp: RegisterMetrics_def returned_iffs metric_returned registers_returned)
  ultimately have s4: "calls (world s4) = ?built" using built by simp
  from fresh have cm: "ts_canaryConfig (cm_topicService cm) = c" "ps_canaryConfig (cm_producerService cm) = c"
    "ps_client (cm_producerService cm) = p" "ps_index (cm_producerService cm) = 0"
    by (auto simp: fresh_manager_def NewCanaryManager_def new_topic_service_def)
  from run_canary_calls [OF 4] obtain pre requests result k sent mid cs where
    ran: "calls (world t1) = ?built @ pre @ requests @ timed_out_attempts k @ [WaitReady waitConsumeTimeout] @ sent @ mid @ cs"
      "\<forall>x\<in>set (pre @ requests). \<not> traffic x" "k \<le> 3" "reconciled_by api c (?built @ pre) requests result"
      "round_of (cm_producerService cm) (length (Assignments result)) sent" "stopping cs"
    by (auto simp: s4 cm)
  from reconciled_by_requests(1) [OF ran(4)] obtain as h bs where
    describes: "requests = as @ [DescribeCluster h, DescribeTopics h [Topic c]] @ bs" by blast
  have "calls (world s') = calls (world t1) @ [ClientClose p, ClientClose q]"
    using gowp_ReturnedD [OF clean_up_calls 5] by simp
  with ran(1) have "calls (world s') = ?built @ pre @ requests @ timed_out_attempts k @ [WaitReady waitConsumeTimeout] @ sent
      @ mid @ cs @ [ClientClose p, ClientClose q]" by simp
  then show ?thesis using c ran(2-6) describes cm by blast
qed


section \<open>The end of the process\<close>

text \<open>A configuration whose intervals are positive and whose products with a millisecond are 64-bit integers.\<close>

definition sane :: "canary_config \<Rightarrow> bool" where
  "sane c \<longleftrightarrow> (\<forall>i\<in>{ConnectionCheckInterval c, StatusCheckInterval c, ReconcileInterval c}. 0 < i \<and> i < 2 ^ 43)
     \<and> StatusCheckInterval c \<le> StatusTimeWindow c \<and> StatusTimeWindow c < 2 ^ 63 \<and> DynamicConfigWatcherInterval c < 2 ^ 43"

lemma sane_status:
  assumes "sane c"
  shows "\<exists>ss. NewStatusService c = Inr ss \<and> 0 < length (rb_buffer (producedRecordsSamples ss))"
proof -
  from assms have "0 < StatusCheckInterval c" "StatusCheckInterval c \<le> StatusTimeWindow c" "StatusTimeWindow c < 2 ^ 63"
    by (simp_all add: sane_def)
  moreover from this have "0 < StatusTimeWindow c div StatusCheckInterval c" by (simp add: pos_imp_zdiv_pos_iff)
  ultimately show ?thesis by (simp add: NewStatusService_def NewTimeWindowRing_pos min_le_iff_disj)
qed

text \<open>The part of the process that the running goroutines leave in order.\<close>

definition proc_ok :: "process \<Rightarrow> bool" where
  "proc_ok pr \<longleftrightarrow> (\<exists>w. pr_watcher pr = Some w \<and> closer_ok w) \<and> pr_http pr \<noteq> None"

definition running_ok :: "canary_config \<Rightarrow> nat \<Rightarrow> bool \<Rightarrow> (running, 'e world) ctx \<Rightarrow> bool" where
  "running_ok c n down s \<longleftrightarrow> (\<exists>P C. sound c n P C \<lparr>self = rn_manager (self s), world = world s\<rparr>)
     \<and> phase_ok Running (rn_manager (self s)) \<and> proc_ok (rn_process (self s)) \<and> pr_tracer_down (rn_process (self s)) = down"

lemma watcher_poll_ok: "proc_ok pr \<Longrightarrow> proc_ok (watcher_poll pf obs pr) \<and> pr_tracer_down (watcher_poll pf obs pr) = pr_tracer_down pr"
proof -
  assume "proc_ok pr"
  then obtain w where w: "pr_watcher pr = Some w" "closer_ok w" "pr_http pr \<noteq> None" by (auto simp: proc_ok_def)
  with poll_closer_ok [OF w(2), of "pf_getenv pf" "pf_sha256 pf" obs] show ?thesis
    by (auto simp: watcher_poll_def proc_ok_def split: option.splits prod.splits)
qed

lemma ctx_eta: "\<lparr>self = self s, world = world s\<rparr> = s"
  by simp

lemma happen_ok:
  assumes "moves_settle api" "answers_topics api" "0 < n" and s: "running_ok c n down s"
  shows "gowp False (happen pf api ev) (\<lambda>_. running_ok c n down)
     (\<lambda>cr _. cr = closing_failed \<or> ev = Serviced GroupSetUp \<and> cr = Panic CloseOfClosedChannel) s"
proof (cases ev)
  case (Serviced sv)
  let ?t = "\<lparr>self = rn_manager (self s), world = world s\<rparr>"
  from s obtain P C where sound: "sound c n P C ?t" and ph: "phase_ok Running (self ?t)" by (auto simp: running_ok_def)
  have "gowp False (handle api sv) (\<lambda>_ i. (\<exists>P C. sound c n P C i) \<and> phase_ok Running (self i))
     (\<lambda>cr _. cr = closing_failed \<or> sv = GroupSetUp \<and> cr = Panic CloseOfClosedChannel) ?t"
    by (rule gowp_mono [OF handle_ok [OF assms(1,2) sound assms(3)]]) (use ph phase_ok_steady in blast)+
  then show ?thesis
    unfolding Serviced happen.simps gowp_on_field
    by (rule gowp_mono) (use s in \<open>simp_all add: running_ok_def ctx_eta del: phase_ok.simps\<close>)
next
  case (Polled obs)
  with s watcher_poll_ok [of "rn_process (self s)" pf obs] show ?thesis by (auto simp: go_simps running_ok_def)
next
  case (Listened e)
  with s show ?thesis by (auto simp: go_simps running_ok_def proc_ok_def)
qed

definition known_failures :: "string set" where
  "known_failures = setup_failures \<union> start_failures \<union> stop_failures
     \<union> {''Error configuring TLS'', ''Error configuring SASL authentication''}"

lemma created_crash: "createSaramaConfig ParseKafkaVersion NewConfig tls k c = Inl cr \<Longrightarrow> \<exists>m\<in>known_failures. cr = Fatal m"
  by (auto simp: createSaramaConfig_def known_failures_def Let_def bindE_def split: sum.splits if_splits prod.splits option.splits)

abbreviation ends_known :: "crash \<Rightarrow> bool" where
  "ends_known cr \<equiv> (\<exists>m\<in>known_failures. cr = Fatal m)"

lemma client_loop_keeps:
  assumes "backoff_ok b" shows "safe True (\<lambda>_. True) (keeps plain f) (client_loop api servers config b) s"
  using assms
proof (induction b arbitrary: s rule: bo.retry_induct)
  case (retry b)
  have again: "safe True (\<lambda>_. True) (keeps plain f) (client_loop api servers config (snd (Delay b))) t" if "fst (Delay b) = Inr d" for d t
    using that retry.IH [of d "snd (Delay b)"] bo.granted [OF retry.hyps, of d "snd (Delay b)"]
    by (metis prod.collapse)
  show ?case
    by (rule safe_unfold [OF gowp_client_loop]) (intro keeps_rules again; simp)
qed

lemma build_manager_keeps: "safe True (\<lambda>_. True) (keeps plain f) (build_manager api c ss created) s"
proof -
  have client: "safe True (\<lambda>_. True) (keeps plain f) (newClientWithRetry api c config) t" for config t
    unfolding newClientWithRetry_def using int64_range by (intro client_loop_keeps NewBackoff_ok) simp
  show ?thesis
    unfolding build_manager_def client_or_fatal_def NewProducerService_def NewConsumerService_def NewTopicService_def
      NewConnectionService_def
    by (intro keeps_rules keeps.safe_for_each client; simp)
qed

lemma set_up_ok:
  assumes "sane c" and "agrees (world s)" "sends (calls (world s)) = 0"
  shows "gowp False (set_up pf api c) (\<lambda>(cm, p, q) t. booted c \<lparr>self = cm, world = world t\<rparr> \<and> proc_ok (self t)
       \<and> pr_tracer_down (self t) = pr_tracer_down (self s)
       \<and> (\<forall>ms. pr_period (self t) = Some ms \<longrightarrow> 0 < ms \<and> ms < 2 ^ 43)) (\<lambda>cr _. ends_known cr \<or> refuses_metric api c cr) s"
proof -
  obtain ss where ss: "NewStatusService c = Inr ss" "0 < length (rb_buffer (producedRecordsSamples ss))"
    using sane_status [OF assms(1)] by blast
  show ?thesis
    unfolding set_up_def ss(1) NewHttpServer_eq checked_simps andthen_simps(1) gowp_andthen [of _ "start_watcher pf c"]
      gowp_andthen [of _ "set_self _"] gowp_set_self
  proof (rule gowp_mono [OF start_watcher_quiet], goal_cases)
    case (1 u t)
    let ?t = "t\<lparr>self := pr_http_update (\<lambda>_. Some (hs_Start \<lparr>hs_Addr = '':8080'', hs_mux = [(''/metrics'', MetricsPage),
      (''/liveness'', LivenessPage), (''/readiness'', ReadinessPage), (''/status'', StatusPage)], hs_launched = 0,
      hs_listener = Unbound\<rparr>)) (self t)\<rparr>"
    have t: "proc_ok (self ?t)" "pr_tracer_down (self ?t) = pr_tracer_down (self s)" "world ?t = world s"
      "\<forall>ms. pr_period (self ?t) = Some ms \<longrightarrow> 0 < ms \<and> ms < 2 ^ 43"
      using 1 assms(1) by (auto simp: proc_ok_def sane_def)
    show ?case
      unfolding gowp_andthen
    proof (rule gowp_mono [OF gowp_also [OF gowp_build_manager build_manager_keeps [where f = "\<lambda>x. x"]]], goal_cases)
      case (1 r v)
      obtain cm p q where r: "r = (cm, p, q)" by (cases r)
      from 1 r obtain config where fresh: "fresh_manager c config ss p q cm" by auto
      from 1 t(3) have "self v = self ?t" "tallied plain (world s) (world v)" by (auto simp: keeps_def)
      with assms(2,3) have "agrees (world v)" "sends (calls (world v)) = 0" "self v = self ?t"
        using tallied_agrees [of plain "world s" "world v"] tallied_sends [of plain "world s" "world v"] by simp_all
      with fresh ss t r show ?case
        by (auto simp: RegisterMetrics_def gowp_register_all go_simps booted_def agrees_def fresh_manager_def NewCanaryManager_def
            dest!: refusal_refused intro: part_refused split: option.splits)
    next
      case (2 cr v)
      then show ?case by (auto dest!: created_crash simp: known_failures_def)
    qed
  qed simp
qed


lemma gowp_stop:
  "phase_ok Running (self s) \<Longrightarrow> gowp False (cm_Stop api) (\<lambda>_ _. True) (\<lambda>cr _. ends_known cr \<or> cr = Panic NilDereference) s"
  by (rule gowp_mono [OF stop_total]) (auto simp: known_failures_def)

text \<open>The panics after the set-up: of a stop without an admin client, and of a group that is set up again while ready.\<close>

definition run_panic :: "process_event list \<Rightarrow> crash \<Rightarrow> bool" where
  "run_panic evs cr \<longleftrightarrow> cr = Panic NilDereference \<or> Serviced GroupSetUp \<in> set evs \<and> cr = Panic CloseOfClosedChannel"

lemma run_canary_ok:
  assumes "moves_settle api" "answers_topics api" and "sane c"
    and b: "booted c \<lparr>self = rn_manager (self s), world = world s\<rparr>" and pr: "proc_ok (rn_process (self s))"
  shows "gowp False (run_canary pf api tp evs)
     (\<lambda>_ t. proc_ok (rn_process (self t)) \<and> pr_tracer_down (rn_process (self t)) = pr_tracer_down (rn_process (self s)))
     (\<lambda>cr _. ends_known cr \<or> run_panic evs cr) s"
proof -
  let ?t = "\<lparr>self = rn_manager (self s), world = world s\<rparr>"
  let ?n = "buckets (rn_manager (self s))" and ?down = "pr_tracer_down (rn_process (self s))"
  from booted_sound [OF b] have sound: "sound c ?n [] [] ?t" and made: "phase_ok Made (self ?t)" and n: "0 < ?n" by simp_all
  have ticks: "\<forall>i\<in>{ConnectionCheckInterval (cn_canaryConfig (cm_connectionService (self ?t))),
           StatusCheckInterval (ss_canaryConfig (cm_statusService (self ?t))),
           ReconcileInterval (cm_canaryConfig (self ?t))}. 0 < i \<and> i < 2 ^ 43"
    using sound assms(3) by (simp add: sound_def configured_def sane_def)
  have stop: "gowp False (cm_Stop api) (\<lambda>_ _. True) (\<lambda>cr _. ends_known cr \<or> cr = Panic NilDereference) v"
    if "phase_ok Running (self v)" for v :: "(canary_manager, 'a world) ctx"
    using gowp_stop [OF that] .
  have started: "running_ok c ?n ?down \<lparr>self = (self s)\<lparr>rn_manager := self i\<rparr>, world = world i\<rparr>"
    if "cm_Start api ?t = Some (Returned () i)" for i
  proof -
    have "reachable api ?t Running i" by (rule reachable_start [OF that])
    from reachable_sound [OF this sound made n] pr show ?thesis by (simp add: running_ok_def ctx_eta del: phase_ok.simps)
  qed
  have "gowp False (cm_Start api) (\<lambda>_ i. cm_Start api ?t = Some (Returned () i)) (\<lambda>cr _. ends_known cr) ?t"
    using gowp_outcome [OF start_total [OF assms(1,2) ticks]] by (auto simp: gowp_def known_failures_def)
  then show ?thesis
    unfolding run_canary_def gowp_andthen gowp_on_panic gowp_on_field
  proof (rule gowp_mono, goal_cases)
    case (1 u i)
    show ?case
    proof (rule gowp_mono [OF gowp_for_each [where I = "running_ok c ?n ?down" and E = "\<lambda>cr _. cr = closing_failed \<or> Serviced GroupSetUp \<in> set evs \<and> cr = Panic CloseOfClosedChannel"]], goal_cases)
      case 1
      from \<open>cm_Start api ?t = Some (Returned () i)\<close> show ?case by (rule started)
    next
      case (2 ev v)
      from happen_ok [OF assms(1,2) n 2(2)] show ?case by (rule gowp_mono) (use 2(1) in auto)
    next
      case (3 u v)
      then have "phase_ok Running (rn_manager (self v))" "proc_ok (rn_process (self v))" "pr_tracer_down (rn_process (self v)) = ?down"
        by (simp_all add: running_ok_def)
      then show ?case
        by (intro gowp_mono [OF stop]) (auto simp: shut_tracer_def run_panic_def go_simps split: crash.splits)
    next
      case (4 cr v)
      then show ?case by (auto simp: known_failures_def start_failures_def run_panic_def)
    qed
  qed (auto simp: shut_tracer_def go_simps split: crash.splits)
qed

lemma clean_up_ok:
  assumes "proc_ok (self s)"
  shows "gowp False (deferring (shut_tracer tp) (clean_up api p q))
     (\<lambda>_ t. (\<exists>hs. pr_http (self t) = Some hs \<and> hs_listener hs = ShutDown)
        \<and> (\<exists>w. pr_watcher (self t) = Some w \<and> dw_quit w = ClosedChan)
        \<and> pr_tracer_down (self t) = (tp \<noteq> None \<or> pr_tracer_down (self s))) (\<lambda>_ _. False) s"
proof -
  from assms obtain w hs where w: "pr_watcher (self s) = Some w" "closer_ok w" "pr_http (self s) = Some hs"
    by (auto simp: proc_ok_def)
  from close_ok [OF w(2)] obtain w' where "dw_Close w = Inr w'" "dw_quit w' = ClosedChan" by blast
  with w show ?thesis
    by (auto simp: deferring_def clean_up_def shut_tracer_def go_simps hs_Stop_def split: prod.splits)
qed

lemma gowp_main:
  assumes "NewCanaryConfig (pf_getenv pf) (pf_ParseFloat pf) = Inr c"
    and "initTracerProvider (pf_tracing pf) (TracingExporter c) = Inr (global, tp)"
  shows "\<exists>pr. pr_tracer_down pr = pr_tracer_down (self s) \<and> gowp d (main pf api evs) Q E s
     = gowp d (on_panic (shut_tracer tp) (set_up pf api c)) (\<lambda>r. gowp d (run_and_stop pf api tp evs r) Q E) E (s\<lparr>self := pr\<rparr>)"
  unfolding main_def assms or_crash_def checked_simps sum.case andthen_simps(1) prod.case
    gowp_andthen [of _ "set_self _"] gowp_andthen [of _ "on_panic _ _"] gowp_set_self
  by (rule exI, rule conjI [rotated], simp) simp

text \<open>What a set-up leaves, and the rest of \<open>main\<close> from there.\<close>

definition set_up_done :: "canary_config \<Rightarrow> canary_manager \<times> handle \<times> handle \<Rightarrow> (process, 'e world) ctx \<Rightarrow> bool" where
  "set_up_done c built t \<longleftrightarrow> booted c \<lparr>self = fst built, world = world t\<rparr> \<and> proc_ok (self t) \<and> \<not> pr_tracer_down (self t)
     \<and> (\<forall>ms. pr_period (self t) = Some ms \<longrightarrow> 0 < ms \<and> ms < 2 ^ 43)"

definition shut_down :: "bool \<Rightarrow> process \<Rightarrow> bool" where
  "shut_down traced pr \<longleftrightarrow> (\<exists>hs. pr_http pr = Some hs \<and> hs_listener hs = ShutDown)
     \<and> (\<exists>w. pr_watcher pr = Some w \<and> dw_quit w = ClosedChan) \<and> (pr_tracer_down pr \<longleftrightarrow> traced)"

lemma run_and_stop_ok:
  assumes "moves_settle api" "answers_topics api" and "sane c" and t: "set_up_done c built t"
  shows "gowp False (run_and_stop pf api tp evs built) (\<lambda>_ t'. shut_down (tp \<noteq> None) (self t'))
     (\<lambda>cr _. ends_known cr \<or> run_panic evs cr) t"
proof -
  obtain cm p q where r: "built = (cm, p, q)" by (cases built)
  have clean: "gowp False (deferring (shut_tracer tp) (clean_up api p q)) (\<lambda>_ t'. shut_down (tp \<noteq> None) (self t'))
      (\<lambda>cr _. ends_known cr \<or> run_panic evs cr) u"
    if "proc_ok (self u) \<and> \<not> pr_tracer_down (self u)" for u :: "(process, 'a world) ctx"
    by (rule gowp_mono [OF clean_up_ok]) (use that in \<open>auto simp: shut_down_def\<close>)
  have "gowp False (andthen (with_manager cm (run_canary pf api tp evs)) (\<lambda>_. deferring (shut_tracer tp) (clean_up api p q)))
      (\<lambda>_ t'. shut_down (tp \<noteq> None) (self t')) (\<lambda>cr _. ends_known cr \<or> run_panic evs cr) t"
    unfolding gowp_andthen [of _ "with_manager _ _"] gowp_with_manager
    by (rule gowp_mono [OF run_canary_ok [OF assms(1-3)]]) (use t r clean in \<open>auto simp: set_up_done_def\<close>)
  with t show ?thesis
    by (cases "pr_period (self t)")
      (auto simp: run_and_stop_def set_up_done_def r gowp_andthen [of _ "get_self _"] gowp_get_self NewTicker_ok)
qed

text \<open>The ends of \<open>main\<close> that are not a return.\<close>

definition expected_crash :: "platform \<Rightarrow> 'e externals \<Rightarrow> process_event list \<Rightarrow> crash \<Rightarrow> bool" where
  "expected_crash pf api evs cr \<longleftrightarrow> (case NewCanaryConfig (pf_getenv pf) (pf_ParseFloat pf) of
       Inl rejected \<Rightarrow> cr = rejected
     | Inr c \<Rightarrow> ends_known cr \<or> refuses_metric api c cr \<or> run_panic evs cr
         \<or> (\<exists>p. initTracerProvider (pf_tracing pf) (TracingExporter c) = Inl p \<and> cr = Panic p))"



section \<open>A run on the simulated cluster\<close>

text \<open>A platform without files, tracing or secrets, on which the sample configuration is read.\<close>

definition sample_platform :: platform where
  "sample_platform = \<lparr>pf_getenv = sample_env, pf_ParseFloat = (\<lambda>_. Inr (Finite 1)), pf_flag_Set = (\<lambda>_ _. None), pf_flag_Parse = (\<lambda>v. v),
     pf_tracing = \<lparr>x_JaegerNew = (None, Some EOF), x_OtlpNew = (None, Some EOF), x_ErrorText = (\<lambda>_. ''EOF'')\<rparr>,
     pf_ReadFile = Inl ErrNotExist, pf_sha256 = (\<lambda>s. s), pf_ParseKafkaVersion = (\<lambda>v. Inr v), pf_NewConfig = sample_sarama,
     pf_tls = \<lparr>x_Stat = (\<lambda>_. False), x_ReadFile = (\<lambda>_. Inl ErrNotExist), x_SystemCertPool = False,
       x_ValidPEM = (\<lambda>_. False), x_X509KeyPair = (\<lambda>_ _. None)\<rparr>,
     pf_sasl = \<lparr>SASLTypePlaintext = ''PLAIN'', SASLTypeSCRAMSHA256 = ''SCRAM-SHA-256'',
       SASLTypeSCRAMSHA512 = ''SCRAM-SHA-512'', SASLHandshakeV1 = 1\<rparr>\<rparr>"

lemma sample_platform_accepts: "NewCanaryConfig (pf_getenv sample_platform) (pf_ParseFloat sample_platform) = Inr sample_config"
  by (simp add: sample_platform_def sample_accepted)

lemma sample_untraced: "initTracerProvider (pf_tracing sample_platform) (TracingExporter sample_config) = Inr (NoopProvider, None)"
  by (simp add: initTracerProvider_def sample_config_def)

lemma sample_sane: "sane sample_config"
  by (simp add: sane_def sample_config_def)

lemma sample_created: "createSaramaConfig (pf_ParseKafkaVersion sample_platform) (pf_NewConfig sample_platform)
    (pf_tls sample_platform) (pf_sasl sample_platform) sample_config = Inr (Inr sample_sarama)"
  by (simp add: createSaramaConfig_def sample_platform_def sample_config_def sample_sarama_def)

lemma sample_watch: "start_watcher sample_platform sample_config s
    = Some (Returned () (s\<lparr>self := (self s)\<lparr>pr_watcher := Some \<lparr>dw_exists = False, dw_hash = '''', dw_closer = False,
        dw_quit = OpenChan\<rparr>, pr_period := None\<rparr>\<rparr>))"
  by (simp add: start_watcher_def NewDynamicConfigWatcher_def sample_config_def andthen_def set_self_def modify_def ret_def)

lemma gowp_returned: "m s = Some (Returned a s') \<Longrightarrow> gowp d m Q E s = Q a s'"
  by (simp add: gowp_def)

lemma sim_client:
  assumes "env (world s) = one_broker"
  shows "gowp False (newClientWithRetry sim_api c config) (\<lambda>r t. r = Inr 9 \<and> env (world t) = one_broker \<and> self t = self s) (\<lambda>_ _. False) s"
  unfolding newClientWithRetry_def
  by (subst gowp_client_loop) (simp add: go_simps assms sim_api_def or_failing_def one_broker_def cluster_states)

lemma sim_status: "NewStatusService sample_config = Inr (cm_statusService (sample_cm sample_config))"
  by (simp add: sample_cm_def NewCanaryManager_def NewStatusService_def NewTimeWindowRing_pos sample_config_def)

lemma sim_registers: "refusal sim_api consts ms = None"
  by (induction ms) (simp_all add: sim_api_def)

lemma sim_clients:
  "x_NewSyncProducer sim_api h one_broker = (Inr 11, one_broker)"
  "x_NewConsumerGroup sim_api g h one_broker = (Inr 13, one_broker)"
  by (simp_all add: sim_api_def or_failing_def one_broker_def cluster_states)

lemma sim_builds:
  assumes "env (world s) = one_broker"
  shows "gowp False (build_manager sim_api sample_config (cm_statusService (sample_cm sample_config)) (Inr (Inr sample_sarama)))
     (\<lambda>r t. r = (sample_cm sample_config, 9, 9) \<and> env (world t) = one_broker \<and> self t = self s) (\<lambda>_ _. False) s"
  unfolding build_manager_def sum.case gowp_andthen client_or_fatal_def
proof (rule gowp_mono [OF sim_client [OF assms]], goal_cases)
  case (1 r t)
  then show ?case
    by (simp add: go_simps, intro gowp_mono [OF sim_client])
      (simp_all add: go_simps gowp_register_all sim_registers sim_clients NewTopicService_def NewConnectionService_def
        NewProducerService_def NewConsumerService_def sample_cm_def sim_status [unfolded sample_cm_def] NewCanaryManager_def sample_config_def)
qed simp

lemma sim_sets_up:
  assumes "env (world s) = one_broker"
  shows "gowp False (set_up sample_platform sim_api sample_config)
     (\<lambda>r t. r = (sample_cm sample_config, 9, 9) \<and> env (world t) = one_broker \<and> proc_ok (self t) \<and> pr_period (self t) = None) (\<lambda>_ _. False) s"
  unfolding set_up_def gowp_andthen [of _ "start_watcher _ _"] sim_status checked_simps andthen_simps(1) NewHttpServer_eq sample_created
  by (rule returns_gowp [OF sample_watch])
    (simp add: gowp_andthen [of _ "set_self _"] gowp_set_self gowp_andthen [of _ "build_manager _ _ _ _"],
     rule gowp_mono [OF sim_builds], simp_all add: assms RegisterMetrics_def gowp_register_all sim_registers go_simps proc_ok_def closer_ok_def)

text \<open>Between the start and the signal the server begins to listen and the status is checked once.\<close>

lemma sim_runs:
  assumes "env (world s) = one_broker" "proc_ok (self s)"
  shows "gowp False (with_manager (sample_cm sample_config) (run_canary sample_platform sim_api None [Listened None, Serviced StatusTick]))
     (\<lambda>_ t. proc_ok (self t)) (\<lambda>_ _. False) s"
proof -
  from sim_starts [OF assms(1)] obtain u where
    u: "cm_Start sim_api \<lparr>self = sample_cm sample_config, world = world s\<rparr> = Some (Returned () u)" "running_manager (self u)" by blast
  note b = booted_sound [OF sample_booted [of one_broker]]
  let ?n = "buckets (sample_cm sample_config)"
  have "ss_frame (cm_statusService (self u)) = ss_frame (cm_statusService (sample_cm sample_config))"
    using safe_returnedD [OF Start_well u(1)] by (simp add: well_def frame_def)
  with b have "rings_ok (cm_statusService (self u)) ?n [] []" "0 < ?n"
    by (simp_all add: sound_def rings_ok_def ss_frame_def)
  then obtain ss where ss: "statusCheck \<lparr>self = cm_statusService (self u), world = world u\<rparr>
      = Some (Returned () \<lparr>self = ss, world = world u\<rparr>)" "ss_loop ss = ss_loop (cm_statusService (self u))"
    using statusCheck_run [of "\<lparr>self = cm_statusService (self u), world = world u\<rparr>" ?n "[]" "[]"]
    by (auto simp: statusCheck_def sampled_def bindE_Inr_iff checked_simps set_self_returned returned_iffs)
  let ?v = "\<lparr>self = (self u)\<lparr>cm_statusService := ss\<rparr>, world = world u\<rparr>"
  have "gowp False (cm_Stop sim_api) (\<lambda>_ _. True) (\<lambda>_ _. False) ?v"
    by (rule gowp_mono [OF stop_runs]) (use u(2) ss(2) in \<open>auto simp: running_manager_def sim_api_def\<close>)
  from gowp_returns [OF this] obtain t where t: "cm_Stop sim_api ?v = Some (Returned () t)" by auto
  note runs = gowp_returned [where m = "cm_Start sim_api", OF u(1)] gowp_returned [where m = statusCheck, OF ss(1)]
    gowp_returned [where m = "cm_Stop sim_api", OF t]
  from assms(2) show ?thesis
    by (simp add: run_canary_def go_simps runs shut_tracer_def proc_ok_def)
qed

lemma sim_main:
  assumes "self s = process_init" "env (world s) = one_broker"
  shows "\<exists>s'. main sample_platform sim_api [Listened None, Serviced StatusTick] s = Some (Returned () s')"
proof -
  let ?evs = "[Listened None, Serviced StatusTick]"
  have clean: "gowp False (deferring (shut_tracer None) (clean_up sim_api p q)) (\<lambda>_ _. True) (\<lambda>_ _. False) t"
    if "proc_ok (self t)" for p q t
    by (rule gowp_mono [OF clean_up_ok [OF that]]) simp_all
  from gowp_main [OF sample_platform_accepts sample_untraced, of s False sim_api ?evs "\<lambda>_ _. True" "\<lambda>_ _. False"] obtain pr where
    main: "gowp False (main sample_platform sim_api ?evs) (\<lambda>_ _. True) (\<lambda>_ _. False) s
      = gowp False (on_panic (shut_tracer None) (set_up sample_platform sim_api sample_config))
         (\<lambda>r. gowp False (run_and_stop sample_platform sim_api None ?evs r) (\<lambda>_ _. True) (\<lambda>_ _. False)) (\<lambda>_ _. False) (s\<lparr>self := pr\<rparr>)"
    by blast
  have "gowp False (main sample_platform sim_api ?evs) (\<lambda>_ _. True) (\<lambda>_ _. False) s"
    unfolding main gowp_on_panic
    by (rule gowp_mono [OF sim_sets_up])
      (auto simp: assms(2) run_and_stop_def gowp_andthen gowp_get_self gowp_ret intro!: gowp_mono [OF sim_runs] clean)
  from gowp_returns [OF this] show ?thesis by auto
qed

theorem main_trace_witness:
  "\<exists>s'. main sample_platform sim_api [Listened None, Serviced StatusTick]
       \<lparr>self = process_init, world = start_world one_broker\<rparr> = Some (Returned () s')
     \<and> WaitReady waitConsumeTimeout \<in> set (calls (world s')) \<and> (\<exists>q. last (calls (world s')) = ClientClose q)"
proof -
  let ?s = "\<lparr>self = process_init, world = start_world one_broker\<rparr>"
  from sim_main [of ?s] obtain s' where
    run: "main sample_platform sim_api [Listened None, Serviced StatusTick] ?s = Some (Returned () s')"
    by (auto simp: start_world_def)
  from main_trace [OF run] run show ?thesis by auto
qed


end
