(* ===== verification/End_To_End.thy ===== *)
theory End_To_End
  imports Producer_Service Consumer_Service
begin

text \<open>
  From the producer to the consumer: what the latency that the consumer observes means for a
  message that the producer has sent and the cluster has carried over unchanged.
\<close>

text \<open>The time in milliseconds that the clock shows in a state of the world.\<close>

definition clock_ms :: "'e externals \<Rightarrow> 'e world \<Rightarrow> int" where
  "clock_ms api w = fst (x_now api (env w)) sdiv 1000000"

definition sane_clock :: "'e externals \<Rightarrow> bool" where
  "sane_clock api \<longleftrightarrow> (\<forall>e. 0 \<le> fst (x_now api e) \<and> fst (x_now api e) < 2 ^ 63)"

lemma clock_ms_bounds:
  assumes "sane_clock api"
  shows "0 \<le> clock_ms api w \<and> clock_ms api w < 2 ^ 63"
proof -
  let ?t = "fst (x_now api (env w))"
  have "0 \<le> ?t" "?t < 2 ^ 63" using assms by (simp_all add: sane_clock_def)
  then show ?thesis by (simp add: clock_ms_def) linarith
qed

lemma send_one_run:
  "\<exists>s'. send_one api i s = Some (Returned () s') \<and> calls (world s') = calls (world s)
     @ [message (self s) i (int64 (ps_index (self s) + 1)) (clock_ms api (world s))]"
  using gowp_returns [of "send_one api i" "\<lambda>_ s'. calls (world s') = calls (world s)
     @ [message (self s) i (int64 (ps_index (self s) + 1)) (clock_ms api (world s))]" s]
  by (auto simp: send_one_def newCanaryMessage_def go_simps Let_def message_def clock_ms_def
      split: prod.splits sum.splits)

lemma claim_message_run:
  assumes "lbls = consumed_labels (cs_canaryConfig (self s)) (cmsg_Partition m)"
  shows "\<exists>s'. claim_message api m s = Some (Returned () s')
     \<and> histogram (world s') (recordsEndToEndLatency, lbls) = histogram (world s) (recordsEndToEndLatency, lbls)
         @ [int64 (clock_ms api (world s) - Timestamp (NewCanaryMessage (cmsg_Value m)))]"
  using gowp_returns [of "claim_message api m" "\<lambda>_ s'. histogram (world s') (recordsEndToEndLatency, lbls)
     = histogram (world s) (recordsEndToEndLatency, lbls)
         @ [int64 (clock_ms api (world s) - Timestamp (NewCanaryMessage (cmsg_Value m)))]" s] assms
  by (auto simp: claim_message_def go_simps Let_def consumed_labels_def clock_ms_def split: prod.splits)

text \<open>
  C22: the end-to-end latency is the age of the message. \<open>send_one\<close> always sends one record to its
  partition; whichever message of a claim carries the value of that record, on whatever partition and
  whenever it is consumed, the consumer observes for it the time in milliseconds that has passed on
  the clock since the record was built: the identifier, the number and the time stamp survive the
  payload, and the difference does not wrap. The identifier is ASCII text, and the clock shows a time
  between 1970 and 2262.
\<close>

theorem end_to_end_latency:
  assumes "ascii (ClientID (ps_canaryConfig (self s)))" and clock: "sane_clock api"
  shows "\<exists>s' h msg. send_one api i s = Some (Returned () s')
     \<and> calls (world s') = calls (world s) @ [SendMessage h msg] \<and> msg_Partition msg = int i
     \<and> (\<forall>m t. let lbls = consumed_labels (cs_canaryConfig (self t)) (cmsg_Partition m) in
          \<exists>t'. claim_message api (m\<lparr>cmsg_Value := msg_Value msg\<rparr>) t = Some (Returned () t')
             \<and> histogram (world t') (recordsEndToEndLatency, lbls) = histogram (world t) (recordsEndToEndLatency, lbls)
                 @ [clock_ms api (world t) - clock_ms api (world s)])"
proof -
  obtain s' where s': "send_one api i s = Some (Returned () s')" "calls (world s') = calls (world s)
     @ [message (self s) i (int64 (ps_index (self s) + 1)) (clock_ms api (world s))]"
    using send_one_run by blast
  let ?cm = "\<lparr>ProducerID = ClientID (ps_canaryConfig (self s)), MessageID = int64 (ps_index (self s) + 1),
    Timestamp = clock_ms api (world s)\<rparr>"
  have "NewCanaryMessage (Json ?cm) = ?cm"
    using assms clock_ms_bounds [OF clock, of "world s"] int64_range [of "ps_index (self s) + 1"]
    by (intro NewCanaryMessage_Json) (simp_all add: int64_value_def)
  then have stamp: "Timestamp (NewCanaryMessage (Json ?cm)) = clock_ms api (world s)" by simp
  have exact: "int64 (clock_ms api w - clock_ms api (world s)) = clock_ms api w - clock_ms api (world s)" for w
    using clock_ms_bounds [OF clock, of w] clock_ms_bounds [OF clock, of "world s"] by simp
  have consumed: "\<exists>t'. claim_message api (m\<lparr>cmsg_Value := Json ?cm\<rparr>) t = Some (Returned () t')
      \<and> histogram (world t') (recordsEndToEndLatency, consumed_labels (cs_canaryConfig (self t)) (cmsg_Partition m))
        = histogram (world t) (recordsEndToEndLatency, consumed_labels (cs_canaryConfig (self t)) (cmsg_Partition m))
            @ [clock_ms api (world t) - clock_ms api (world s)]" for m t
    using claim_message_run [OF refl, of api "m\<lparr>cmsg_Value := Json ?cm\<rparr>" t] by (simp add: stamp exact)
  show ?thesis
    by (intro exI conjI, rule s'(1), rule s'(2) [unfolded message_def])
      (simp_all add: Let_def consumed)
qed

text \<open>The witness: the simulated cluster with a clock of 63 bits, the message consumed 90 ms after it was built.\<close>

definition clock_api :: "cluster externals" where
  "clock_api = sim_api\<lparr>x_now := (\<lambda>e. (now_ns e mod 2 ^ 63, e\<lparr>now_ns := now_ns e + 3000000\<rparr>))\<rparr>"

theorem end_to_end_latency_witness:
  "\<exists>s' h msg t'. send_one clock_api 0 \<lparr>self = sample_ps, world = start_world one_partition\<rparr> = Some (Returned () s')
     \<and> calls (world s') = [SendMessage h msg]
     \<and> claim_message clock_api \<lparr>cmsg_Partition = 0, cmsg_Offset = 5, cmsg_Value = msg_Value msg\<rparr>
         \<lparr>self = sample_cs, world = start_world (one_partition\<lparr>now_ns := 90000000\<rparr>)\<rparr> = Some (Returned () t')
     \<and> histogram (world t') (recordsEndToEndLatency, consumed_labels sample_config 0) = [90]"
proof -
  let ?s = "\<lparr>self = sample_ps, world = start_world one_partition\<rparr>"
  let ?t = "\<lparr>self = sample_cs, world = start_world (one_partition\<lparr>now_ns := 90000000\<rparr>)\<rparr>"
  have "ascii (ClientID (ps_canaryConfig (self ?s)))"
    by (simp add: sample_ps_def sample_config_def ascii_def byte_def)
  moreover have "sane_clock clock_api" by (simp add: sane_clock_def clock_api_def)
  moreover have "clock_ms clock_api (world ?t) = 90" "clock_ms clock_api (world ?s) = 0"
    "calls (world ?s) = []" "cs_canaryConfig (self ?t) = sample_config"
    "histogram (world ?t) (recordsEndToEndLatency, consumed_labels sample_config 0) = []"
    by (simp_all add: clock_ms_def clock_api_def cluster_states sample_cs_def)
  moreover note end_to_end_latency [of ?s clock_api 0]
  ultimately obtain s' h msg where s': "send_one clock_api 0 ?s = Some (Returned () s')" "calls (world s') = [SendMessage h msg]"
    and c: "\<forall>m t. let lbls = consumed_labels (cs_canaryConfig (self t)) (cmsg_Partition m) in
          \<exists>t'. claim_message clock_api (m\<lparr>cmsg_Value := msg_Value msg\<rparr>) t = Some (Returned () t')
             \<and> histogram (world t') (recordsEndToEndLatency, lbls) = histogram (world t) (recordsEndToEndLatency, lbls)
                 @ [clock_ms clock_api (world t) - clock_ms clock_api (world ?s)]"
    by (metis append_Nil)
  from spec [OF spec [OF c, of "\<lparr>cmsg_Partition = 0, cmsg_Offset = 5, cmsg_Value = msg_Value msg\<rparr>"], of ?t] s'
  show ?thesis by (auto simp: Let_def cluster_states sample_cs_def clock_ms_def clock_api_def)
qed

end
