(* ===== verification/Consumer_Attempts.thy ===== *)
theory Consumer_Attempts
  imports Consumer_Service
begin

text \<open>
  The concurrency of \<open>Consume\<close> in \<open>internal/services/consumer.go\<close>: the thread that waits for the group, and the
  goroutines of its attempts, of which those that were cancelled may still run. They share the field
  \<open>ready\<close>, which holds a channel, and each has its context. A step is one access to this shared
  state; when the group of Sarama calls \<open>Setup\<close>, returns or fails, and when a timeout wins, is left open. The
  theory \<open>Consumer_Service\<close> has the same code run by one thread.
\<close>

section \<open>Model\<close>

text \<open>
  Where the waiting thread is: before attempt \<open>n\<close>, waiting (its helper has read the field \<open>ready\<close> or not
  yet), timed out and before \<open>cancel\<close>, returned, or past the \<open>Close\<close> of the service.
\<close>

datatype waiter =
    Before nat
  | Waiting nat "nat option"
  | Cancelling nat
  | Joined nat
  | ClosedAfter nat
  | GaveUp

datatype goroutine =
    Absent
  | Top \<comment> \<open>before the call of the group's \<open>Consume\<close>\<close>
  | InGroup \<comment> \<open>in the call, before \<open>Setup\<close>\<close>
  | InSession \<comment> \<open>in the call, after \<open>Setup\<close>\<close>
  | Failing \<comment> \<open>the call returned an error; sleeping\<close>
  | Back \<comment> \<open>the call returned without an error\<close>
  | Live \<comment> \<open>the context was found not cancelled\<close>
  | Gone

text \<open>Channels and contexts are numbered; \<open>at_ready\<close> is the channel in the field \<open>ready\<close>.\<close>

record attempts =
  at_waiter :: waiter
  at_go :: "nat \<Rightarrow> goroutine"
  at_cancelled :: "nat set"
  at_ready :: nat
  at_closed :: "nat set"
  at_fresh :: nat
  at_panicked :: bool

datatype attempt_event =
    Began nat | Watching nat | SawReady nat | TimedOut nat | CancelCalled nat | CloseCalled nat
  | Called nat | SetUp nat | Failed nat bool | Slept nat | EndedOk nat | Noticed nat | NotNoticed nat | Remade nat

definition attempts_init :: attempts where
  "attempts_init = \<lparr>at_waiter = Before 0, at_go = (\<lambda>_. Absent), at_cancelled = {}, at_ready = 0, at_closed = {},
     at_fresh = 1, at_panicked = False\<rparr>"

definition enabled :: "bool \<Rightarrow> 'a \<Rightarrow> 'a option" where
  "enabled b a = (if b then Some a else None)"

abbreviation goes :: "nat \<Rightarrow> goroutine \<Rightarrow> attempts \<Rightarrow> attempts" where
  "goes i g s \<equiv> s\<lparr>at_go := (at_go s)(i := g)\<rparr>"

text \<open>The step that an event is, if it is possible; a panic or an exit ends the process.\<close>

fun attempt_step :: "attempts \<Rightarrow> attempt_event \<Rightarrow> attempts option" where
  "attempt_step s (Began n) = enabled (at_waiter s = Before n) (goes n Top (s\<lparr>at_waiter := Waiting n None\<rparr>))"
| "attempt_step s (Watching n) = enabled (at_waiter s = Waiting n None) (s\<lparr>at_waiter := Waiting n (Some (at_ready s))\<rparr>)"
| "attempt_step s (SawReady n) = enabled (case at_waiter s of Waiting m (Some ch) \<Rightarrow> m = n \<and> ch \<in> at_closed s | _ \<Rightarrow> False) (s\<lparr>at_waiter := Joined n\<rparr>)"
| "attempt_step s (TimedOut n) = enabled (case at_waiter s of Waiting m w \<Rightarrow> m = n | _ \<Rightarrow> False)
     (s\<lparr>at_waiter := Cancelling n\<rparr>)"
| "attempt_step s (CancelCalled n) = enabled (at_waiter s = Cancelling n)
     (s\<lparr>at_cancelled := insert n (at_cancelled s),
        at_waiter := (case fst (Delay (join_backoff n)) of Inl err \<Rightarrow> GaveUp | Inr delay \<Rightarrow> Before (Suc n))\<rparr>)"
| "attempt_step s (CloseCalled n) = enabled (at_waiter s = Joined n)
     (s\<lparr>at_cancelled := insert n (at_cancelled s), at_waiter := ClosedAfter n\<rparr>)"
| "attempt_step s (Called i) = enabled (at_go s i = Top) (goes i InGroup s)"
| "attempt_step s (SetUp i) = enabled (at_go s i = InGroup)
     (if at_ready s \<in> at_closed s then s\<lparr>at_panicked := True\<rparr>
      else goes i InSession (s\<lparr>at_closed := insert (at_ready s) (at_closed s)\<rparr>))"
| "attempt_step s (Failed i joined) = enabled (at_go s i = (if joined then InSession else InGroup)) (goes i Failing s)"
| "attempt_step s (Slept i) = enabled (at_go s i = Failing) (goes i Top s)"
| "attempt_step s (EndedOk i) = enabled (at_go s i = InGroup \<or> at_go s i = InSession) (goes i Back s)"
| "attempt_step s (Noticed i) = enabled (at_go s i = Back \<and> i \<in> at_cancelled s) (goes i Gone s)"
| "attempt_step s (NotNoticed i) = enabled (at_go s i = Back \<and> i \<notin> at_cancelled s) (goes i Live s)"
| "attempt_step s (Remade i) = enabled (at_go s i = Live)
     (goes i Top (s\<lparr>at_ready := at_fresh s, at_fresh := at_fresh s + 1\<rparr>))"

inductive attempts_run :: "attempt_event list \<Rightarrow> attempts \<Rightarrow> bool" where
  run_init: "attempts_run [] attempts_init"
| run_step: "attempts_run es s \<Longrightarrow> \<not> at_panicked s \<Longrightarrow> at_waiter s \<noteq> GaveUp \<Longrightarrow> attempt_step s e = Some s' \<Longrightarrow>
     attempts_run (es @ [e]) s'"

inductive_cases attempts_run_snocE: "attempts_run (es @ [e]) s"

section \<open>Invariants\<close>

text \<open>The attempt the waiting thread is at, the number of attempts begun, and those it may still cancel.\<close>

fun current :: "waiter \<Rightarrow> nat option" where
  "current (Before n) = None"
| "current (Waiting n w) = Some n"
| "current (Cancelling n) = Some n"
| "current (Joined n) = Some n"
| "current (ClosedAfter n) = Some n"
| "current GaveUp = None"

fun begun_attempts :: "waiter \<Rightarrow> nat" where
  "begun_attempts (Before n) = n"
| "begun_attempts (Waiting n w) = Suc n"
| "begun_attempts (Cancelling n) = Suc n"
| "begun_attempts (Joined n) = Suc n"
| "begun_attempts (ClosedAfter n) = Suc n"
| "begun_attempts GaveUp = 4"

fun pending :: "waiter \<Rightarrow> nat set" where
  "pending (Waiting n w) = {n}"
| "pending (Cancelling n) = {n}"
| "pending (Joined n) = {n}"
| "pending _ = {}"

definition attempts_ok :: "attempts \<Rightarrow> bool" where
  "attempts_ok s \<longleftrightarrow> begun_attempts (at_waiter s) \<le> 4
     \<and> (\<forall>i. at_go s i \<noteq> Absent \<longleftrightarrow> i < begun_attempts (at_waiter s))
     \<and> at_cancelled s = {..<begun_attempts (at_waiter s)} - pending (at_waiter s)
     \<and> (\<forall>i. at_go s i = Gone \<longrightarrow> i \<in> at_cancelled s)
     \<and> at_closed s \<subseteq> {..<at_fresh s} \<and> at_ready s < at_fresh s
     \<and> (\<forall>n. at_waiter s = Before n \<longrightarrow> n \<le> 3)"

lemma enabled_Some: "enabled b a = Some c \<longleftrightarrow> b \<and> c = a"
  by (auto simp: enabled_def)

lemma join_delay_cases:
  "n \<le> 3 \<Longrightarrow> (case fst (Delay (join_backoff n)) of Inl err \<Rightarrow> a | Inr delay \<Rightarrow> b) = (if n = 3 then a else b)"
  using join_delays(1) [of n] join_delays(2) by (cases "n = 3") simp_all

lemma attempt_step_ok:
  assumes "attempt_step s e = Some s'" and "attempts_ok s" and "at_waiter s \<noteq> GaveUp"
  shows "attempts_ok s'"
  using assms
  by (cases e) (auto simp: attempts_ok_def enabled_Some join_delay_cases split: waiter.splits option.splits if_splits)

lemma attempts_init_ok: "attempts_ok attempts_init"
  by (simp add: attempts_ok_def attempts_init_def)

lemma attempts_run_ok: "attempts_run es s \<Longrightarrow> attempts_ok s"
  by (induction rule: attempts_run.induct) (auto intro: attempts_init_ok attempt_step_ok)

text \<open>
  C18: one context at a time. In every interleaving at most four attempts are begun; only the last of them
  can have a context that is not cancelled, and a goroutine that has ended has had its context
  cancelled; when \<open>Consume\<close> has given up or the service has been closed, all contexts are cancelled, so that every
  goroutine can end.
\<close>

theorem one_live_context:
  assumes "attempts_run es s"
  shows "begun_attempts (at_waiter s) \<le> 4
     \<and> (\<forall>i. at_go s i \<noteq> Absent \<and> i \<notin> at_cancelled s \<longrightarrow> current (at_waiter s) = Some i \<and> i + 1 = begun_attempts (at_waiter s))
     \<and> (\<forall>i. at_go s i = Gone \<longrightarrow> i \<in> at_cancelled s)
     \<and> (at_waiter s = GaveUp \<or> (\<exists>n. at_waiter s = ClosedAfter n) \<longrightarrow> (\<forall>i. at_go s i \<noteq> Absent \<longrightarrow> i \<in> at_cancelled s))"
  using attempts_run_ok [OF assms] unfolding attempts_ok_def by (cases "at_waiter s") auto

section \<open>When joining is right\<close>

text \<open>
  No attempt was set up that also timed out, in either order, and no call that has run \<open>Setup\<close> returned an
  error.
\<close>

definition orderly :: "attempt_event list \<Rightarrow> bool" where
  "orderly es \<longleftrightarrow> (\<forall>i. TimedOut i \<in> set es \<longrightarrow> SetUp i \<notin> set es) \<and> (\<forall>i. Failed i True \<notin> set es)"

text \<open>
  What is then true of the events \<open>es\<close> so far: attempts before the current one have timed out, a closed
  channel comes from a \<open>Setup\<close>, and while it is the one in the field its goroutine has not called the group again.
\<close>

definition ordered :: "attempt_event list \<Rightarrow> attempts \<Rightarrow> bool" where
  "ordered es s \<longleftrightarrow> attempts_ok s \<and> \<not> at_panicked s
     \<and> (\<forall>i < begun_attempts (at_waiter s). current (at_waiter s) = Some i \<or> TimedOut i \<in> set es)
     \<and> (at_closed s \<noteq> {} \<longrightarrow> (\<exists>i. SetUp i \<in> set es))
     \<and> (at_ready s \<in> at_closed s \<longrightarrow> (\<exists>i. SetUp i \<in> set es \<and> at_go s i \<in> {InSession, Back, Live, Gone}))
     \<and> (\<forall>i. SetUp i \<in> set es \<longrightarrow> i < begun_attempts (at_waiter s))
     \<and> (\<forall>n. at_waiter s = Joined n \<or> at_waiter s = ClosedAfter n \<longrightarrow> SetUp n \<in> set es)
     \<and> (\<forall>n. at_waiter s = Cancelling n \<longrightarrow> TimedOut n \<in> set es)"

lemma orderly_appendD: "orderly (es @ fs) \<Longrightarrow> orderly es"
  by (auto simp: orderly_def)

text \<open>Steps that are not a \<open>Setup\<close>: the goroutine \<open>i\<close> moves, or the waiting thread does.\<close>

lemma ordered_goes:
  assumes "ordered es s" and "attempts_ok (goes i g s)" and "\<And>j. e \<noteq> SetUp j"
    and "at_go s i \<in> {InSession, Back, Live, Gone} \<Longrightarrow> g \<in> {InSession, Back, Live, Gone}"
  shows "ordered (es @ [e]) (goes i g s)"
proof -
  have "\<exists>j. SetUp j \<in> set es \<and> at_go (goes i g s) j \<in> {InSession, Back, Live, Gone}" if "at_ready s \<in> at_closed s"
  proof -
    from that assms(1) obtain j where "SetUp j \<in> set es" "at_go s j \<in> {InSession, Back, Live, Gone}" by (auto simp: ordered_def)
    with assms(4) show ?thesis by (intro exI [of _ j]) (cases "j = i", auto)
  qed
  then have "at_ready (goes i g s) \<in> at_closed (goes i g s)
      \<longrightarrow> (\<exists>j. SetUp j \<in> set es \<and> at_go (goes i g s) j \<in> {InSession, Back, Live, Gone})" by simp
  moreover have eqs: "at_waiter (goes i g s) = at_waiter s" "at_closed (goes i g s) = at_closed s" "at_panicked (goes i g s) = at_panicked s"
    by simp_all
  have su: "SetUp j \<in> set (es @ [e]) \<longleftrightarrow> SetUp j \<in> set es" for j using assms(3) by auto
  have "TimedOut j \<in> set es \<Longrightarrow> TimedOut j \<in> set (es @ [e])" for j by simp
  ultimately show ?thesis using assms(1,2) unfolding ordered_def su eqs by blast
qed

lemma ordered_waits:
  assumes "ordered es s" and "attempts_ok s'" and "\<And>j. e \<noteq> SetUp j"
    and "at_closed s' = at_closed s" "at_ready s' = at_ready s" "at_panicked s' = at_panicked s"
    and "\<And>i. at_go s i \<noteq> Absent \<Longrightarrow> at_go s' i = at_go s i"
    and "begun_attempts (at_waiter s) \<le> begun_attempts (at_waiter s')"
    and "\<And>i. i < begun_attempts (at_waiter s') \<Longrightarrow> current (at_waiter s') = Some i \<or> TimedOut i \<in> set (es @ [e])"
    and "\<And>n. at_waiter s' = Joined n \<or> at_waiter s' = ClosedAfter n \<Longrightarrow> SetUp n \<in> set es"
    and "\<And>n. at_waiter s' = Cancelling n \<Longrightarrow> TimedOut n \<in> set (es @ [e])"
  shows "ordered (es @ [e]) s'"
proof -
  have "\<exists>j. SetUp j \<in> set es \<and> at_go s' j \<in> {InSession, Back, Live, Gone}" if "at_ready s \<in> at_closed s"
  proof -
    from that assms(1) obtain j where "SetUp j \<in> set es" "at_go s j \<in> {InSession, Back, Live, Gone}" by (auto simp: ordered_def)
    with assms(7) [of j] show ?thesis by (intro exI [of _ j]) auto
  qed
  with assms(1) have "\<not> at_panicked s'" "at_closed s' \<noteq> {} \<longrightarrow> (\<exists>i. SetUp i \<in> set es)"
    "at_ready s' \<in> at_closed s' \<longrightarrow> (\<exists>i. SetUp i \<in> set es \<and> at_go s' i \<in> {InSession, Back, Live, Gone})"
    unfolding ordered_def assms(4-6) by blast+
  moreover have "\<forall>i. SetUp i \<in> set es \<longrightarrow> i < begun_attempts (at_waiter s')"
    using assms(1,8) by (auto simp: ordered_def intro: less_le_trans)
  moreover have "SetUp j \<in> set (es @ [e]) \<longleftrightarrow> SetUp j \<in> set es" for j using assms(3) by auto
  ultimately show ?thesis unfolding ordered_def using assms(2,9-11) by blast
qed

lemma set_up_once:
  assumes o: "ordered es s" and j: "at_go s j = InGroup" and ord: "orderly (es @ [SetUp j])"
  shows "at_ready s \<notin> at_closed s" and "j < begun_attempts (at_waiter s)"
proof -
  show begun: "j < begun_attempts (at_waiter s)" using o j by (auto simp: ordered_def attempts_ok_def)
  show "at_ready s \<notin> at_closed s"
  proof
    assume "at_ready s \<in> at_closed s"
    with o obtain i where i: "SetUp i \<in> set es" "at_go s i \<in> {InSession, Back, Live, Gone}" by (auto simp: ordered_def)
    have "i < begun_attempts (at_waiter s)" using o i(1) by (auto simp: ordered_def)
    moreover have "TimedOut i \<notin> set es" "TimedOut j \<notin> set es" using ord i(1) by (auto simp: orderly_def)
    ultimately have "current (at_waiter s) = Some i" "current (at_waiter s) = Some j" using o begun by (auto simp: ordered_def)
    with i(2) j show False by simp
  qed
qed

lemma ordered_step:
  assumes o: "ordered es s" and live: "at_waiter s \<noteq> GaveUp" and step: "attempt_step s e = Some s'" and ord: "orderly (es @ [e])"
  shows "ordered (es @ [e]) s'"
proof -
  have ok: "attempts_ok s" "attempts_ok s'" using o attempt_step_ok [OF step _ live] by (auto simp: ordered_def)
  have past: "current (at_waiter s) = Some i \<or> TimedOut i \<in> set es" if "i < begun_attempts (at_waiter s)" for i
    using o that by (auto simp: ordered_def)
  note goroutine = ordered_goes [OF o] and waits = ordered_waits [OF o ok(2)]
  show ?thesis
  proof (cases e)
    case (Began n)
    with step have w: "at_waiter s = Before n" "s' = goes n Top (s\<lparr>at_waiter := Waiting n None\<rparr>)" by (simp_all add: enabled_Some)
    with ok(1) have "at_go s n = Absent" by (auto simp: attempts_ok_def)
    with w past Began show ?thesis by (intro waits) (auto simp: less_Suc_eq)
  next
    case (Watching n)
    with step past show ?thesis by (intro waits) (auto simp: enabled_Some less_Suc_eq)
  next
    case (SawReady n)
    with step obtain ch where w: "at_waiter s = Waiting n (Some ch)" "ch \<in> at_closed s" "s' = s\<lparr>at_waiter := Joined n\<rparr>"
      by (auto simp: enabled_Some split: waiter.splits option.splits)
    from w(2) o obtain i where i: "SetUp i \<in> set es" "i < begun_attempts (at_waiter s)" by (fastforce simp: ordered_def)
    with ord have "TimedOut i \<notin> set es" by (auto simp: orderly_def)
    with i past [of i] w(1) have "SetUp n \<in> set es" by auto
    with w past SawReady show ?thesis by (intro waits) (auto simp: less_Suc_eq)
  next
    case (TimedOut n)
    with step obtain w where "at_waiter s = Waiting n w" "s' = s\<lparr>at_waiter := Cancelling n\<rparr>"
      by (auto simp: enabled_Some split: waiter.splits)
    with past TimedOut show ?thesis by (intro waits) (auto simp: less_Suc_eq)
  next
    case (CancelCalled n)
    with step have w: "at_waiter s = Cancelling n" by (simp add: enabled_Some)
    with ok(1) have n: "n \<le> 3" by (simp add: attempts_ok_def)
    have w': "at_waiter s' = (if n = 3 then GaveUp else Before (Suc n))" "at_go s' = at_go s" "at_ready s' = at_ready s"
      "at_closed s' = at_closed s" "at_panicked s' = at_panicked s"
      using step CancelCalled join_delay_cases [OF n, of GaveUp "Before (Suc n)"] by (simp_all add: enabled_Some)
    have "TimedOut n \<in> set es" using w o by (auto simp: ordered_def)
    with past w have out: "TimedOut i \<in> set es" if "i < Suc n" for i using that by (cases "i = n") (auto simp: less_Suc_eq)
    have "begun_attempts (at_waiter s') = Suc n" using w' by auto
    with w w' out CancelCalled show ?thesis by (intro waits) (auto split: if_splits)
  next
    case (CloseCalled n)
    with step have w: "at_waiter s = Joined n" "s' = s\<lparr>at_cancelled := insert n (at_cancelled s), at_waiter := ClosedAfter n\<rparr>"
      by (simp_all add: enabled_Some)
    have "SetUp n \<in> set es" using w o by (auto simp: ordered_def)
    with w past CloseCalled show ?thesis by (intro waits) (auto simp: less_Suc_eq)
  next
    case (SetUp j)
    with step have j: "at_go s j = InGroup" by (simp add: enabled_Some)
    note once = set_up_once [OF o j, folded SetUp, OF ord]
    from step j once(1) SetUp have "s' = goes j InSession (s\<lparr>at_closed := insert (at_ready s) (at_closed s)\<rparr>)"
      by (simp add: enabled_Some)
    with o ok(2) once(2) SetUp show ?thesis by (auto simp: ordered_def)
  next
    case (Remade j)
    with step have s': "s' = goes j Top (s\<lparr>at_ready := at_fresh s, at_fresh := at_fresh s + 1\<rparr>)" by (simp add: enabled_Some)
    have "at_fresh s \<notin> at_closed s" using ok(1) by (auto simp: attempts_ok_def)
    with s' o ok(2) Remade show ?thesis by (auto simp: ordered_def)
  qed (use step ord ok(2) in \<open>auto simp: enabled_Some orderly_def split: if_splits intro!: goroutine\<close>)
qed

lemma attempts_run_ordered: "attempts_run es s \<Longrightarrow> orderly es \<Longrightarrow> ordered es s"
proof (induction rule: attempts_run.induct)
  case run_init
  show ?case using attempts_init_ok by (simp add: ordered_def attempts_init_def)
next
  case (run_step es s e s')
  then show ?case using ordered_step orderly_appendD by blast
qed

text \<open>
  C16: joining in order. If no attempt is set up that also times out, and no call fails after it has run \<open>Setup\<close>,
  then in every interleaving the channel is never closed twice, and \<open>Consume\<close> returns only
  when the group of the attempt it returns for has been set up, all attempts before it having timed out.
\<close>

theorem joining_in_order:
  assumes "attempts_run es s" and "orderly es"
  shows "\<not> at_panicked s \<and> (\<forall>n. at_waiter s = Joined n \<or> at_waiter s = ClosedAfter n \<longrightarrow>
     SetUp n \<in> set es \<and> (\<forall>i<n. TimedOut i \<in> set es))"
proof -
  from attempts_run_ordered [OF assms] have "\<not> at_panicked s"
    "\<forall>i < begun_attempts (at_waiter s). current (at_waiter s) = Some i \<or> TimedOut i \<in> set es"
    "\<forall>n. at_waiter s = Joined n \<or> at_waiter s = ClosedAfter n \<longrightarrow> SetUp n \<in> set es"
    unfolding ordered_def by blast+
  then show ?thesis by (metis current.simps(4,5) begun_attempts.simps(4,5) less_SucI less_irrefl option.inject)
qed

text \<open>A run as a fold of the steps, by which concrete runs are found.\<close>

fun attempts_from :: "attempts \<Rightarrow> attempt_event list \<Rightarrow> attempts option" where
  "attempts_from s [] = Some s"
| "attempts_from s (e # es) = (if at_panicked s \<or> at_waiter s = GaveUp then None
     else case attempt_step s e of None \<Rightarrow> None | Some s' \<Rightarrow> attempts_from s' es)"

lemma attempts_from_run: "attempts_run es s \<Longrightarrow> attempts_from s fs = Some s' \<Longrightarrow> attempts_run (es @ fs) s'"
proof (induction fs arbitrary: es s)
  case (Cons e fs)
  from Cons.prems(2) obtain t where t: "\<not> at_panicked s" "at_waiter s \<noteq> GaveUp" "attempt_step s e = Some t" "attempts_from t fs = Some s'"
    by (auto split: if_splits option.splits)
  from Cons.IH [OF run_step [OF Cons.prems(1) t(1-3)] t(4)] show ?case by simp
qed simp

lemmas run_from = attempts_from_run [OF run_init, simplified]

text \<open>
  C17: both hypotheses are needed, and the two orders of the first go wrong on their own. The process panics when an
  attempt is set up after its wait has timed out and the next is set up in turn; when it is set up just
  before its timeout is taken; and when a call fails after \<open>Setup\<close>, since the goroutine then calls the group
  again without a new channel. In the second case \<open>Consume\<close> can also return for an attempt that has not joined.
\<close>

definition late_set_up :: "attempt_event list" where
  "late_set_up = [Began 0, Called 0, Watching 0, TimedOut 0, CancelCalled 0, SetUp 0, EndedOk 0, Noticed 0, Began 1, Called 1, SetUp 1]"

definition set_up_at_timeout :: "attempt_event list" where
  "set_up_at_timeout = [Began 0, Called 0, Watching 0, SetUp 0, TimedOut 0, CancelCalled 0, EndedOk 0, Noticed 0, Began 1]"

definition failed_session :: "attempt_event list" where
  "failed_session = [Began 0, Called 0, Watching 0, SetUp 0, SawReady 0, Failed 0 True, Slept 0, Called 0, SetUp 0]"

theorem joining_out_of_order:
  "(\<exists>s. attempts_run late_set_up s \<and> at_panicked s)
   \<and> (\<exists>s. attempts_run (set_up_at_timeout @ [Called 1, SetUp 1]) s \<and> at_panicked s)
   \<and> (\<exists>s. attempts_run (set_up_at_timeout @ [Watching 1, SawReady 1]) s \<and> at_waiter s = Joined 1)
   \<and> (\<exists>s. attempts_run failed_session s \<and> at_panicked s)"
proof (intro conjI)
  have d: "Delay (join_backoff 0) = (Inr (5 * Second), join_backoff (Suc 0))" using join_delays(1) [of 0] by simp
  note runs = attempts_init_def enabled_def late_set_up_def set_up_at_timeout_def failed_session_def d
  show "\<exists>s. attempts_run late_set_up s \<and> at_panicked s"
    by (rule exI, rule conjI, rule run_from) (simp add: runs, simp)
  show "\<exists>s. attempts_run (set_up_at_timeout @ [Called 1, SetUp 1]) s \<and> at_panicked s"
    by (rule exI, rule conjI, rule run_from) (simp add: runs, simp)
  show "\<exists>s. attempts_run (set_up_at_timeout @ [Watching 1, SawReady 1]) s \<and> at_waiter s = Joined 1"
    by (rule exI, rule conjI, rule run_from) (simp add: runs, simp)
  show "\<exists>s. attempts_run failed_session s \<and> at_panicked s"
    by (rule exI, rule conjI, rule run_from) (simp add: runs, simp)
qed

text \<open>An orderly run: the first attempt times out, the second joins, has a new session, and is closed.\<close>

definition second_joins :: "attempt_event list" where
  "second_joins = [Began 0, Called 0, Watching 0, TimedOut 0, CancelCalled 0, EndedOk 0, Noticed 0, Began 1, Called 1, Watching 1,
     SetUp 1, SawReady 1, EndedOk 1, NotNoticed 1, Remade 1, Called 1, SetUp 1, CloseCalled 1, EndedOk 1, Noticed 1]"

lemma second_joins_runs: "\<exists>s. attempts_run second_joins s \<and> at_waiter s = ClosedAfter 1"
proof -
  have d: "Delay (join_backoff 0) = (Inr (5 * Second), join_backoff (Suc 0))" using join_delays(1) [of 0] by simp
  show ?thesis
    by (rule exI, rule conjI, rule run_from) (simp add: attempts_init_def enabled_def second_joins_def d, simp)
qed

theorem one_live_context_witness:
  "\<exists>s. attempts_run second_joins s \<and> begun_attempts (at_waiter s) \<le> 4 \<and> (\<forall>i. at_go s i \<noteq> Absent \<longrightarrow> i \<in> at_cancelled s)"
proof -
  from second_joins_runs obtain s where s: "attempts_run second_joins s" "at_waiter s = ClosedAfter 1" by blast
  from one_live_context [OF s(1)] s show ?thesis by blast
qed

theorem joining_in_order_witness:
  "\<exists>s. attempts_run second_joins s \<and> at_waiter s = ClosedAfter 1 \<and> \<not> at_panicked s"
proof -
  from second_joins_runs obtain s where s: "attempts_run second_joins s" "at_waiter s = ClosedAfter 1" by blast
  have "orderly second_joins" by (auto simp: orderly_def second_joins_def)
  from joining_in_order [OF s(1) this] s show ?thesis by blast
qed


section \<open>Refinement of one thread\<close>

text \<open>
  The requests of the waiting thread in a run, as the theory \<open>Consumer_Service\<close> records them: a wait per attempt,
  and after a timeout the cancellation with the pause that the back-off grants.
\<close>

fun waiter_calls :: "attempt_event \<Rightarrow> call list" where
  "waiter_calls (Began n) = [WaitReady waitConsumeTimeout]"
| "waiter_calls (CancelCalled n) = CancelContext n
     # (case fst (Delay (join_backoff n)) of Inl err \<Rightarrow> [] | Inr delay \<Rightarrow> [Sleep delay])"
| "waiter_calls _ = []"

fun is_timeout :: "attempt_event \<Rightarrow> bool" where
  "is_timeout (TimedOut n) = True"
| "is_timeout _ = False"

text \<open>What the thread has requested, and how many timeouts there were, where it is now.\<close>

definition waiter_history :: "attempt_event list \<Rightarrow> waiter \<Rightarrow> bool" where
  "waiter_history es w \<longleftrightarrow> (case w of
       Before n \<Rightarrow> (concat (map waiter_calls es), length (filter is_timeout es)) = (timed_out_attempts n, n)
     | Cancelling n \<Rightarrow> (concat (map waiter_calls es), length (filter is_timeout es))
         = (timed_out_attempts n @ [WaitReady waitConsumeTimeout], Suc n)
     | GaveUp \<Rightarrow> (concat (map waiter_calls es), length (filter is_timeout es))
         = (timed_out_attempts 3 @ [WaitReady waitConsumeTimeout, CancelContext 3], 4)
     | Waiting n _ \<Rightarrow> (concat (map waiter_calls es), length (filter is_timeout es))
         = (timed_out_attempts n @ [WaitReady waitConsumeTimeout], n)
     | Joined n \<Rightarrow> (concat (map waiter_calls es), length (filter is_timeout es))
         = (timed_out_attempts n @ [WaitReady waitConsumeTimeout], n)
     | ClosedAfter n \<Rightarrow> True)"

lemma timed_out_Suc: "timed_out_attempts (Suc n) = timed_out_attempts n @ timed_out n"
  by (simp add: timed_out_attempts_def)

lemma waiter_history_step:
  assumes h: "waiter_history es (at_waiter s)" and step: "attempt_step s e = Some s'" and ok: "attempts_ok s"
  shows "waiter_history (es @ [e]) (at_waiter s')"
proof (cases "\<exists>n. e = CancelCalled n")
  case True
  then obtain n where e: "e = CancelCalled n" by blast
  with step have w: "at_waiter s = Cancelling n" by (simp add: enabled_Some)
  with ok have n: "n \<le> 3" by (simp add: attempts_ok_def)
  have w': "at_waiter s' = (if n = 3 then GaveUp else Before (Suc n))"
    using step e join_delay_cases [OF n, of GaveUp "Before (Suc n)"] by (simp add: enabled_Some)
  show ?thesis
  proof (cases "n = 3")
    case True
    with h w w' e show ?thesis by (simp add: waiter_history_def join_delays(2))
  next
    case False
    with n h w w' e show ?thesis by (simp add: waiter_history_def join_delays(1) timed_out_Suc timed_out_def)
  qed
qed (use h step in \<open>cases e; auto simp: waiter_history_def enabled_Some split: waiter.splits option.splits if_splits\<close>)

lemma attempts_run_history: "attempts_run es s \<Longrightarrow> waiter_history es (at_waiter s)"
proof (induction rule: attempts_run.induct)
  case run_init
  show ?case by (simp add: waiter_history_def attempts_init_def timed_out_attempts_def)
next
  case (run_step es s e s')
  then show ?case using waiter_history_step attempts_run_ok by blast
qed

text \<open>One thread whose waits time out as often as the environment, a number, says.\<close>

definition scripted :: "nat externals \<Rightarrow> nat externals" where
  "scripted api = api\<lparr>x_WaitReady := (\<lambda>t m. (0 < m, m - 1)), x_CancelContext := (\<lambda>i m. ((), m)), x_sleep := (\<lambda>d m. ((), m))\<rparr>"

lemma scripted_simps [simp]:
  "x_WaitReady (scripted api) t m = (0 < m, m - 1)" "x_CancelContext (scripted api) i m = ((), m)"
  "x_sleep (scripted api) d m = ((), m)"
  by (simp_all add: scripted_def)

lemma scripted_join:
  "attempt_at i s t \<Longrightarrow> i \<le> 3 \<Longrightarrow> env (world t) = n - i \<Longrightarrow> i \<le> n \<Longrightarrow>
   gowp False (join_loop (scripted api) i (join_backoff i)) (\<lambda>_ s'. n \<le> 3 \<and> joined_after n s s') (\<lambda>c s'. 3 < n \<and> gave_up c s s') t"
proof (induction "3 - i" arbitrary: i t)
  case 0
  then have i: "i = 3" by simp
  with 0 attempt_joined [of 3 s t] show ?case
    by (subst gowp_join_loop)
      (auto simp: go_simps join_delays gave_up_def attempt_at_def simp del: One_nat_def)
next
  case (Suc k)
  then have i: "i < 3" "k = 3 - Suc i" by simp_all
  have next_attempt: "gowp False (join_loop (scripted api) (Suc i) (join_backoff (Suc i)))
      (\<lambda>_ s'. n \<le> 3 \<and> joined_after n s s') (\<lambda>c s'. 3 < n \<and> gave_up c s s') t'"
    if "attempt_at (Suc i) s t'" "env (world t') = n - Suc i" "Suc i \<le> n" for t'
    using Suc.hyps(1) [OF i(2) that(1) _ that(2,3)] i by simp
  show ?case
    using i attempt_joined [OF Suc.prems(1)] Suc.prems(3,4)
    by (subst gowp_join_loop)
      (auto simp: go_simps join_delays timed_out_def
        intro!: next_attempt attempt_timed_out [OF Suc.prems(1)])
qed

lemma scripted_Consume:
  "env (world t) \<le> 3 \<Longrightarrow> \<exists>t'. Consume (scripted api) t = Some (Returned () t') \<and> joined_after (env (world t)) t t'"
  "3 < env (world t) \<Longrightarrow> \<exists>c t'. Consume (scripted api) t = Some (Crashed c t') \<and> gave_up c t t'"
proof -
  have "NewBackoff maxConsumeAttempts (5000 * Millisecond) MaxDefault = join_backoff 0"
    by (simp add: join_backoff_def NewBackoff_def)
  moreover have "attempt_at 0 t t" by (auto simp: attempt_at_def timed_out_attempts_def intro: exI [of _ "cs_cancel (self t)"])
  ultimately have "gowp False (Consume (scripted api)) (\<lambda>_ t'. env (world t) \<le> 3 \<and> joined_after (env (world t)) t t')
     (\<lambda>c t'. 3 < env (world t) \<and> gave_up c t t') t"
    using scripted_join [of 0 t t] by (simp add: Consume_def)
  from gowp_outcome [OF this] obtain r where "Consume (scripted api) t = Some r" "case r of
      Returned u t' \<Rightarrow> env (world t) \<le> 3 \<and> joined_after (env (world t)) t t'
    | Crashed c t' \<Rightarrow> 3 < env (world t) \<and> gave_up c t t'" by (auto split: outcome.splits)
  then show "env (world t) \<le> 3 \<Longrightarrow> \<exists>t'. Consume (scripted api) t = Some (Returned () t') \<and> joined_after (env (world t)) t t'"
    "3 < env (world t) \<Longrightarrow> \<exists>c t'. Consume (scripted api) t = Some (Crashed c t') \<and> gave_up c t t'"
    by (cases r; simp)+
qed

text \<open>
  C19: the concurrent \<open>Consume\<close> refines the sequential one. Whatever the interleaving, where the waiting
  thread has returned or given up it has made the requests of \<open>Consume\<close> run by one thread with as many timeouts, in the
  same order; that run ends in the same way, with the cancel function of the same attempt.
\<close>

theorem attempts_refine_consume:
  fixes t :: "(consumer_service, nat world) ctx"
  assumes "attempts_run es s" and "env (world t) = length (filter is_timeout es)"
  shows "(\<forall>n. at_waiter s = Joined n \<longrightarrow> (\<exists>t'. Consume (scripted api) t = Some (Returned () t')
       \<and> calls (world t') = calls (world t) @ concat (map waiter_calls es) \<and> cs_cancel (self t') = Some n))
     \<and> (at_waiter s = GaveUp \<longrightarrow> (\<exists>msg t'. Consume (scripted api) t = Some (Crashed (Fatal msg) t')
       \<and> calls (world t') = calls (world t) @ concat (map waiter_calls es)))"
proof -
  have h: "waiter_history es (at_waiter s)" and ok: "attempts_ok s"
    using attempts_run_history attempts_run_ok assms(1) by blast+
  show ?thesis
  proof (intro conjI allI impI)
    fix n assume n: "at_waiter s = Joined n"
    with h ok assms(2) have "env (world t) = n" "n \<le> 3" "concat (map waiter_calls es) = timed_out_attempts n @ [WaitReady waitConsumeTimeout]"
      by (simp_all add: waiter_history_def attempts_ok_def)
    with scripted_Consume(1) [of t api]
    show "\<exists>t'. Consume (scripted api) t = Some (Returned () t')
       \<and> calls (world t') = calls (world t) @ concat (map waiter_calls es) \<and> cs_cancel (self t') = Some n"
      by (auto simp: joined_after_def)
  next
    assume "at_waiter s = GaveUp"
    with h assms(2) have "env (world t) = 4" "concat (map waiter_calls es) = timed_out_attempts 3 @ [WaitReady waitConsumeTimeout, CancelContext 3]"
      by (simp_all add: waiter_history_def)
    with scripted_Consume(2) [of t api]
    show "\<exists>msg t'. Consume (scripted api) t = Some (Crashed (Fatal msg) t')
       \<and> calls (world t') = calls (world t) @ concat (map waiter_calls es)"
      by (auto simp: gave_up_def)
  qed
qed

definition joins_second :: "attempt_event list" where
  "joins_second = [Began 0, Called 0, Watching 0, TimedOut 0, CancelCalled 0, Began 1, Called 1, Watching 1, SetUp 1, SawReady 1]"

theorem attempts_refine_consume_witness:
  "\<forall>api. \<forall>t :: (consumer_service, nat world) ctx. \<exists>t'.
     Consume (scripted api) (t\<lparr>world := (world t)\<lparr>env := 1\<rparr>\<rparr>) = Some (Returned () t')
     \<and> calls (world t') = calls (world t) @ [WaitReady waitConsumeTimeout, CancelContext 0, Sleep (5 * Second), WaitReady waitConsumeTimeout]
     \<and> cs_cancel (self t') = Some 1"
proof (intro allI)
  fix api and t :: "(consumer_service, nat world) ctx"
  have d: "Delay (join_backoff 0) = (Inr (5 * Second), join_backoff (Suc 0))" using join_delays(1) [of 0] by simp
  have "\<exists>s. attempts_run joins_second s \<and> at_waiter s = Joined 1"
    by (rule exI, rule conjI, rule run_from) (simp add: attempts_init_def enabled_def joins_second_def d, simp)
  then obtain s where s: "attempts_run joins_second s" "at_waiter s = Joined 1" by blast
  have "env (world (t\<lparr>world := (world t)\<lparr>env := 1\<rparr>\<rparr>)) = length (filter is_timeout joins_second)"
    by (simp add: joins_second_def)
  from attempts_refine_consume [OF s(1) this, of api] s(2)
  show "\<exists>t'. Consume (scripted api) (t\<lparr>world := (world t)\<lparr>env := 1\<rparr>\<rparr>) = Some (Returned () t')
     \<and> calls (world t') = calls (world t) @ [WaitReady waitConsumeTimeout, CancelContext 0, Sleep (5 * Second), WaitReady waitConsumeTimeout]
     \<and> cs_cancel (self t') = Some 1"
    by (simp add: joins_second_def d)
qed

end
