(* ===== verification/Spec2Isabelle.thy ===== *)
theory Spec2Isabelle
  imports Canary_Main End_To_End Consumer_Attempts
begin

text \<open>
  Verification library of the Strimzi canary, a Go program that watches an Apache Kafka cluster: it
  keeps a topic with one partition led by each broker, sends a record to every partition, consumes
  the records, measures latencies, probes the connections to the brokers, and reports all this as
  Prometheus metrics and on a status page.

  The parts of the program and the theories that model them (paths are under \<open>src/\<close>):

  \<^item> \<open>Canary_Prelude\<close> and \<open>Go_Runtime\<close>: Go itself. Machine integers (\<open>int64\<close>, \<open>u64\<close>), slices and their
    panics; computations that thread a state and return, end the process, panic or never return;
    error values with \<open>errors.Is\<close>; the specification calculus \<open>gowp\<close> with its rules (\<open>go_simps\<close>), and
    \<open>safe\<close>, which relates the states before and after a run by a preorder (locale \<open>step_preorder\<close>).
  \<^item> \<open>Sarama_Api\<close>: what the code uses of the Sarama client library and of the clock, as the record
    \<open>externals\<close> of functions on an unknown environment; the world of a process with the metrics and the
    history of its requests (\<open>calls\<close>). Registering a metric is one of these functions (\<open>x_MustRegister\<close>), as Prometheus may
    refuse the constant labels that the configuration gives to all of them, which panics. Nothing is assumed of these functions but in named hypotheses
    (\<open>moves_settle\<close>, \<open>answers_topics\<close>, \<open>sane_clock\<close>). \<open>Simulated_Cluster\<close> is a small cluster on which
    the hypotheses hold and which the witnesses evaluate.
  \<^item> \<open>Time_Window_Ring\<close> (\<open>internal/util/time_window_ring.go\<close>) and \<open>Status_Service\<close>
    (\<open>internal/services/status_check.go\<close>), with \<open>Go_Float\<close> for the arithmetic of the percentage: the ring
    implements a window of the last samples (locale \<open>sample_window\<close>), and the page reports over these.
  \<^item> \<open>Retry_Backoff\<close> (\<open>internal/services/backoff.go\<close>): the delays; the locale \<open>retry_policy\<close> is the
    contract of the three retry loops of the program, with their induction principle.
  \<^item> \<open>Go_Strings\<close> and \<open>Canary_Config\<close> (\<open>internal/config/canary_config.go\<close>): reading the environment,
    parsing lists and maps, printing the configuration. \<open>Dynamic_Watcher\<close>
    (\<open>internal/config/dynamic_config_watcher.go\<close>): the file that changes logging at run time, refining an
    ideal observer of that file.
  \<^item> \<open>Topic_Assignment\<close> and \<open>Topic_Service\<close> (\<open>internal/services/topic.go\<close>): the replica assignment with its
    rack alternation; creation, reassignment with its polling loop, configuration, reconcile, close.
  \<^item> \<open>Go_Json\<close> and \<open>Canary_Message\<close> (\<open>internal/services/canary_message.go\<close>): the payload.
    \<open>Producer_Service\<close> (\<open>producer.go\<close>) and \<open>Consumer_Service\<close> (\<open>consumer.go\<close>): sending a round, joining the
    group, consuming a claim. \<open>Consumer_Attempts\<close>: the same joining as a step relation, with all
    interleavings of the waiting thread and the goroutines of its attempts on the channel \<open>ready\<close> and
    the contexts, which refines the joining by one thread. \<open>End_To_End\<close>: what the observed latency means.
  \<^item> \<open>Service_Loop\<close>: the life of the periodic goroutines of \<open>connection_check.go\<close>, \<open>status_check.go\<close> and
    \<open>canary_manager.go\<close>, as a step relation with all interleavings. \<open>Connection_Service\<close>
    (\<open>connection_check.go\<close>): the probes.
  \<^item> \<open>Security\<close> (\<open>internal/security\<close>): TLS and SASL settings, the SCRAM client.
  \<^item> \<open>Canary_Manager\<close> (\<open>internal/workers/canary_manager.go\<close>): start, periodic reconcile and stop of the five
    services. \<open>Canary_System\<close>: the handlers the goroutines run between start and stop (the three periodic checks, the
    errors of the group, the claims, and the steps of the goroutines that consume), in any order, as the
    inductive set of \<open>reachable\<close> states; its invariants use \<open>Record_Tally\<close>, which relates the counters to the
    history of requests.
  \<^item> \<open>Client_Setup\<close>, \<open>Tracing\<close> and \<open>Canary_Main\<close> (\<open>cmd/main.go\<close>): the Kafka clients with their retries, the
    tracer provider, and the whole run from the environment to the last close, with the deferred shutdown of
    the tracer. \<open>Http_Server\<close> (\<open>internal/servers/http_server.go\<close>,
    \<open>internal/services/healthcheck.go\<close>): the pages with the redirections of \<open>ServeMux\<close>, and the life of the server.

  How state corresponds. A Go struct with methods is a record (\<open>topic_service\<close>, \<open>canary_manager\<close>, ...); a
  method is a routine on its receiver (\<open>self\<close>) and the world, and a method of a component that another
  one holds runs on the field (\<open>on_field\<close>). Clients of the library are numbers (\<open>handle\<close>); a nil
  interface or pointer is \<open>None\<close>. A Go map whose keys are the partitions from 0 is the list of its
  entries in their order, and the order in which the code ranges over it does not matter there.
  \<open>glog.Fatalf\<close> and panics are crashes with the state they leave.

  What the groups of lemmas show. For each service: the exact requests and counters of an operation on
  every branch (specifications by \<open>gowp\<close>); what it never does (by \<open>safe\<close>, for a crash as for a return); that
  its loops end. For the manager and the process these compose to the order of all requests of a run, to
  the invariants of its reachable states (one configuration, rings of the samples taken, counters that
  agree with the history), and to its end: \<open>main\<close> returns cleaned up, or exits or panics in one of the listed ways.

  Bounds and fuel. Loops that may run for ever are partial functions whose value is then \<open>None\<close>
  (\<open>await_reassignments\<close>, \<open>join_loop\<close>, \<open>consume_loop\<close>, \<open>first_reconcile\<close>, \<open>client_loop\<close>); that they
  return is proved, without hypotheses for joining and connecting, under \<open>moves_settle\<close> for the others.
  The JSON reader has fuel, twice the length of the text and two, one unit for a value and one for a member;
  that it is enough for what the producer writes is part of the round trip. Delays are 64-bit values, of
  which at most 63 are granted. The percentage is rounded to nearest, ties to even, as IEEE 754 does
  for normal numbers.

  Not modelled: spans and trace headers; log output; the signals, of which \<open>main\<close> only waits for
  the first; the interleaving of goroutines within one handler, in particular data races on the counters
  (the goroutines of the consumer group excepted, see \<open>Consumer_Attempts\<close>), and their steps while \<open>Start\<close> still
  runs (a group that is set up twice panics then too); the panics of Prometheus when a metric is given
  its first value, for buckets that do not increase, a constant label named \<open>le\<close> or a label value that is not UTF-8:
  the properties that exclude panics are stated for the configurations without these (\<open>observable\<close>);
  \<open>Cleanup\<close> of the group handler, which only logs; \<open>worker.go\<close>, an interface without code.
\<close>

end
